(* ===== verification/Prelude.thy ===== *)
theory Prelude
  imports Main
begin

text \<open>
  Shared vocabulary of the development.

  \<^item> Reactive machines. Every stateful component of the program is an object whose entry points
    are serialised by a mutex. It is modelled as a step function on its state and an input; the
    calls it makes to other components are kept in a trace inside the state. The locales
    \<open>machine_invariant\<close> and \<open>machine_simulation\<close> carry what holds for every sequence of
    serialised entry points, that is for every interleaving of the calling threads.
  \<^item> The functional image of \<open>std::map\<close>: an association list with strictly increasing keys, so
    that iteration is in key order, as it is in the source.
\<close>

subsection \<open>Reactive machines\<close>

named_theorems step_defs
  \<open>definitions of the atomic sections of a component\<close>

fun run :: "('s \<Rightarrow> 'i \<Rightarrow> 's) \<Rightarrow> 's \<Rightarrow> 'i list \<Rightarrow> 's" where
  "run step s [] = s"
| "run step s (i # is) = run step (step s i) is"

lemma run_append: "run step s (xs @ ys) = run step (run step s xs) ys"
  by (induction xs arbitrary: s) auto

inductive reach :: "('s \<Rightarrow> 'i \<Rightarrow> 's) \<Rightarrow> 's \<Rightarrow> 's \<Rightarrow> bool" for step s0 where
  reach_init: "reach step s0 s0"
| reach_step: "reach step s0 s \<Longrightarrow> reach step s0 (step s i)"

lemma reach_run: "reach step s0 s \<Longrightarrow> reach step s0 (run step s is)"
  by (induction "is" arbitrary: s) (auto intro: reach.intros)

locale machine_invariant =
  fixes step :: "'s \<Rightarrow> 'i \<Rightarrow> 's"
    and s0 :: 's
    and Inv :: "'s \<Rightarrow> bool"
  assumes inv_init: "Inv s0"
    and inv_step: "Inv s \<Longrightarrow> Inv (step s i)"
begin

lemma inv_reach: "reach step s0 s \<Longrightarrow> Inv s"
  by (induction rule: reach.induct) (auto intro: inv_init inv_step)

lemma inv_run: "Inv s \<Longrightarrow> Inv (run step s is)"
  by (induction "is" arbitrary: s) (auto intro: inv_step)

end

locale machine_simulation =
  fixes step :: "'s \<Rightarrow> 'i \<Rightarrow> 's"
    and astep :: "'a \<Rightarrow> 'i \<Rightarrow> 'a"
    and abs :: "'s \<Rightarrow> 'a"
  assumes abs_step: "abs (step s i) = astep (abs s) i"
begin

lemma abs_run: "abs (run step s is) = run astep (abs s) is"
  by (induction "is" arbitrary: s) (auto simp: abs_step)

end


subsection \<open>The image of std::map\<close>

type_synonym ('k, 'v) omap = "('k \<times> 'v) list"

definition omap_wf :: "('k::linorder, 'v) omap \<Rightarrow> bool" where
  "omap_wf m \<longleftrightarrow> sorted_wrt (<) (map fst m)"

fun omap_insert :: "'k::linorder \<Rightarrow> 'v \<Rightarrow> ('k, 'v) omap \<Rightarrow> ('k, 'v) omap" where
  "omap_insert k v [] = [(k, v)]"
| "omap_insert k v ((k', v') # m) =
     (if k < k' then (k, v) # (k', v') # m
      else if k = k' then (k, v) # m
      else (k', v') # omap_insert k v m)"

definition omap_erase :: "'k::linorder \<Rightarrow> ('k, 'v) omap \<Rightarrow> ('k, 'v) omap" where
  "omap_erase k m = filter (\<lambda>e. fst e \<noteq> k) m"

text \<open>What the components rely on when they use a map: lookups after updates, and the key order.\<close>

locale ordered_map =
  fixes lookup :: "'m \<Rightarrow> 'k::linorder \<Rightarrow> 'v option"
    and insert_entry :: "'k \<Rightarrow> 'v \<Rightarrow> 'm \<Rightarrow> 'm"
    and erase_entry :: "'k \<Rightarrow> 'm \<Rightarrow> 'm"
    and keys :: "'m \<Rightarrow> 'k list"
    and wf :: "'m \<Rightarrow> bool"
  assumes lookup_insert: "lookup (insert_entry k v m) = (lookup m)(k \<mapsto> v)"
    and lookup_erase: "lookup (erase_entry k m) = (lookup m)(k := None)"
    and keys_lookup: "k \<in> set (keys m) \<longleftrightarrow> lookup m k \<noteq> None"
    and keys_sorted: "wf m \<Longrightarrow> sorted_wrt (<) (keys m)"
    and wf_insert: "wf m \<Longrightarrow> wf (insert_entry k v m)"
    and wf_erase: "wf m \<Longrightarrow> wf (erase_entry k m)"
begin

lemma keys_insert: "set (keys (insert_entry k v m)) = insert k (set (keys m))"
  by (auto simp: keys_lookup lookup_insert split: if_splits)

lemma keys_erase: "set (keys (erase_entry k m)) = set (keys m) - {k}"
  by (auto simp: keys_lookup lookup_erase split: if_splits)

lemma keys_distinct: "wf m \<Longrightarrow> distinct (keys m)"
  using keys_sorted strict_sorted_iff by blast

lemma size_insert:
  assumes "wf m" and "lookup m k = None"
  shows "length (keys (insert_entry k v m)) = Suc (length (keys m))"
proof -
  have "length (keys (insert_entry k v m)) = card (set (keys (insert_entry k v m)))"
    using keys_distinct [OF wf_insert [OF assms(1)]] by (simp add: distinct_card)
  also have "\<dots> = Suc (card (set (keys m)))"
    using assms(2) by (simp add: keys_insert keys_lookup)
  finally show ?thesis using keys_distinct [OF assms(1)] by (simp add: distinct_card)
qed

end

lemma omap_lookup_insert: "map_of (omap_insert k v m) = (map_of m)(k \<mapsto> v)"
  by (induction k v m rule: omap_insert.induct) (auto simp: fun_eq_iff)

lemma omap_lookup_erase: "map_of (omap_erase k m) = (map_of m)(k := None)"
  by (induction m) (auto simp: omap_erase_def fun_eq_iff)

lemma set_omap_insert_keys: "fst ` set (omap_insert k v m) = insert k (fst ` set m)"
  by (induction k v m rule: omap_insert.induct) auto

lemma omap_wf_insert: "omap_wf m \<Longrightarrow> omap_wf (omap_insert k v m)"
  by (induction k v m rule: omap_insert.induct)
    (auto simp: omap_wf_def set_omap_insert_keys)

lemma omap_wf_erase: "omap_wf m \<Longrightarrow> omap_wf (omap_erase k m)"
  by (auto simp: omap_wf_def omap_erase_def sorted_wrt_map intro: sorted_wrt_filter)

interpretation omap: ordered_map map_of omap_insert omap_erase "map fst" omap_wf
  by unfold_locales
    (auto simp: omap_lookup_insert omap_lookup_erase omap_wf_insert omap_wf_erase
      map_of_eq_None_iff, auto simp: omap_wf_def)

lemma omap_set_insert:
  "omap_wf m \<Longrightarrow> set (omap_insert k v m) = insert (k, v) {e \<in> set m. fst e \<noteq> k}"
  by (induction k v m rule: omap_insert.induct) (force simp: omap_wf_def)+

lemma omap_set_erase: "set (omap_erase k m) = {e \<in> set m. fst e \<noteq> k}"
  by (auto simp: omap_erase_def)

lemma omap_distinct_keys: "omap_wf m \<Longrightarrow> distinct (map fst m)"
  by (rule omap.keys_distinct)

lemma omap_lookup_in: "omap_wf m \<Longrightarrow> map_of m k = Some v \<longleftrightarrow> (k, v) \<in> set m"
  by (simp add: omap_distinct_keys)

lemma omap_filter_key:
  "omap_wf m \<Longrightarrow> map_of m k = Some v \<Longrightarrow>
   filter (\<lambda>(k', v'). k' = k \<and> P v') m = (if P v then [(k, v)] else [])"
proof (induction m)
  case (Cons e m)
  have ne: "fst x \<noteq> k" if "fst e = k" "x \<in> set m" for x
    using Cons.prems(1) that by (auto simp: omap_wf_def)
  then have "filter (\<lambda>(k', v'). k' = k \<and> P v') m = []" if "fst e = k"
    using that by (fastforce simp: filter_empty_conv)
  then show ?case using Cons by (auto simp: omap_wf_def split: if_splits)
qed simp

lemma omap_length_insert: "length m \<le> length (omap_insert k v m)"
  by (induction k v m rule: omap_insert.induct) auto

end
