(* ===== verification/IEC_State_Machine.thy ===== *)
theory IEC_State_Machine
  imports Prelude Complex_Main
begin

text \<open>
  The control pilot state machine of the EVSE manager:
  \<^verbatim>\<open>modules/EVSE/EvseManager/IECStateMachine.cpp\<close>, \<^verbatim>\<open>IECStateMachine.hpp\<close> and the timer
  class of \<^verbatim>\<open>Timeout.hpp\<close>.

  The object is the record \<open>iec\<close>. Every call it makes (to the board support driver \<open>r_bsp\<close> and to
  the connected signal handlers) is appended to the field \<open>trace\<close>. Durations and points in time are
  milliseconds. Duty cycles and amperes are rational numbers: the code compares them, and its only
  arithmetic is one product handed to the driver. Log output is left out.
\<close>

subsection \<open>Data\<close>

datatype TimerControl = Timer_do_nothing | Timer_start | Timer_stop

datatype CPEvent =
    CarPluggedIn
  | CarRequestedPower
  | PowerOn
  | PowerOff
  | CarRequestedStopPower
  | CarUnplugged
  | EFtoBCD
  | BCDtoEF
  | BCDtoE

datatype RawCPState = CP_Disabled | CP_A | CP_B | CP_C | CP_D | CP_E | CP_F

datatype AcPhases = SinglePhase | TwoPhases | ThreePhases

text \<open>The events, ampacities and switching reasons of the board support interface.\<close>

datatype bsp_event =
  Bsp_A | Bsp_B | Bsp_C | Bsp_D | Bsp_E | Bsp_F | Bsp_PowerOn | Bsp_PowerOff | Bsp_Disconnected

datatype ampacity = Ampacity_None | A_13 | A_20 | A_32 | A_63_3ph_70_1ph

datatype reason = DCCableCheck | DCPreCharge | FullPowerCharging | Reason_PowerOff

datatype iec_call =
    Call_cp_state_X1
  | Call_cp_state_E
  | Call_cp_state_F
  | Call_pwm_on rat
  | Call_allow_power_on bool reason
  | Call_enable bool
  | Call_ac_switch_three_phases_while_charging bool
  | Call_ac_set_overcurrent_limit_A rat
  | Signal_event CPEvent
  | Signal_lock
  | Signal_unlock
  | Signal_raw_cp_state_changed RawCPState
  | Signal_pwm_duty_cycle rat

text \<open>
  \<open>AsyncTimeout\<close>: the waiting thread polls \<open>reached\<close> and calls the handlers once; the timer is
  still running in the handlers and keeps reporting \<open>reached\<close> until it is stopped or restarted.
\<close>

record AsyncTimeout =
  running :: bool
  duration :: nat
  start_time :: nat

definition timer_idle :: AsyncTimeout where
  "timer_idle = \<lparr>running = False, duration = 0, start_time = 0\<rparr>"

definition timer_start :: "nat \<Rightarrow> nat \<Rightarrow> AsyncTimeout \<Rightarrow> AsyncTimeout" where
  "timer_start now t tm = tm\<lparr>running := True, duration := t, start_time := now\<rparr>"

definition timer_stop :: "AsyncTimeout \<Rightarrow> AsyncTimeout" where
  "timer_stop tm = tm\<lparr>running := False\<rparr>"

definition reached :: "nat \<Rightarrow> AsyncTimeout \<Rightarrow> bool" where
  "reached now tm \<longleftrightarrow> running tm \<and> now - start_time tm > duration tm"

record iec =
  lock_connector_in_state_b :: bool
  pwm_running :: bool
  last_pwm_running :: bool
  ev_simplified_mode_evse_limit :: bool
  ev_simplified_mode :: bool
  has_ventilation :: bool
  power_on_allowed :: bool
  last_power_on_allowed :: bool
  last_power_on_forwarded :: bool
  pp_ampacity :: rat
  last_amps :: rat
  max_phases :: AcPhases
  car_plugged_in :: bool
  last_cp_state :: RawCPState
  cp_state_f_requested :: bool
  signalled_raw_cp_state :: RawCPState
  timeout_state_c1 :: AsyncTimeout
  timeout_unlock_state_F :: AsyncTimeout
  timeout_captive_lock :: AsyncTimeout
  power_on_reason :: reason
  use_authorized :: bool
  authorized :: bool
  keep_cable_locked :: bool
  captive_unlock_window :: bool
  keep_cable_locked_lock_delay_ms :: int
  captive_lock_delay_elapsed :: bool
  captive_latched :: bool
  is_locked :: bool
  should_be_locked :: bool
  force_unlocked :: bool
  enabled :: bool
  relais_on :: bool
  state_e_triggered_through_handle :: bool
  trace :: "iec_call list"

text \<open>\<open>10 / 0.6 / 100.\<close> rounded to the \<open>float\<close> the constant is declared as.\<close>

definition ev_simplified_mode_evse_limit_pwm :: rat where
  "ev_simplified_mode_evse_limit_pwm = 11184811 / 67108864"

definition power_off_under_load_in_c1_timeout :: nat where
  "power_off_under_load_in_c1_timeout = 6000"

definition unlock_in_state_f_timeout :: nat where
  "unlock_in_state_f_timeout = 5000"

definition IECStateMachine :: "bool \<Rightarrow> bool \<Rightarrow> bool \<Rightarrow> int \<Rightarrow> iec" where
  "IECStateMachine lock_b use_auth keep_locked delay_ms =
     \<lparr>lock_connector_in_state_b = lock_b,
      pwm_running = False, last_pwm_running = False,
      ev_simplified_mode_evse_limit = False, ev_simplified_mode = False,
      has_ventilation = False,
      power_on_allowed = False, last_power_on_allowed = False, last_power_on_forwarded = False,
      pp_ampacity = 0, last_amps = -1, max_phases = ThreePhases,
      car_plugged_in = False, last_cp_state = CP_Disabled, cp_state_f_requested = False,
      signalled_raw_cp_state = CP_Disabled,
      timeout_state_c1 = timer_idle, timeout_unlock_state_F = timer_idle,
      timeout_captive_lock = timer_idle,
      power_on_reason = Reason_PowerOff,
      use_authorized = use_auth, authorized = (\<not> use_auth),
      keep_cable_locked = keep_locked, captive_unlock_window = False,
      keep_cable_locked_lock_delay_ms = delay_ms,
      captive_lock_delay_elapsed = False, captive_latched = False,
      is_locked = False, should_be_locked = False, force_unlocked = False,
      enabled = False, relais_on = False, state_e_triggered_through_handle = False,
      trace = []\<rparr>"

definition from_bsp_event :: "bsp_event \<Rightarrow> RawCPState + CPEvent" where
  "from_bsp_event e = (case e of
       Bsp_A \<Rightarrow> Inl CP_A | Bsp_B \<Rightarrow> Inl CP_B | Bsp_C \<Rightarrow> Inl CP_C
     | Bsp_D \<Rightarrow> Inl CP_D | Bsp_E \<Rightarrow> Inl CP_E | Bsp_F \<Rightarrow> Inl CP_F
     | Bsp_PowerOn \<Rightarrow> Inr PowerOn
     | Bsp_PowerOff \<Rightarrow> Inr PowerOff
     | Bsp_Disconnected \<Rightarrow> Inl CP_Disabled)"

subsection \<open>Helpers called with the mutex held\<close>

definition emit :: "iec_call \<Rightarrow> iec \<Rightarrow> iec" where
  "emit c s = s\<lparr>trace := trace s @ [c]\<rparr>"

definition call_allow_power_on_bsp :: "bool \<Rightarrow> iec \<Rightarrow> iec" where
  "call_allow_power_on_bsp value s =
     (let s = (if \<not> value
               then s\<lparr>power_on_allowed := False, power_on_reason := Reason_PowerOff\<rparr> else s);
          s = (if value \<noteq> last_power_on_forwarded s
               then s\<lparr>last_power_on_forwarded := value\<rparr> else s)
      in emit (Call_allow_power_on value (power_on_reason s)) s)"

definition connector_lock :: "iec \<Rightarrow> iec" where
  "connector_lock s = s\<lparr>should_be_locked := True\<rparr>"

definition connector_unlock :: "iec \<Rightarrow> iec" where
  "connector_unlock s = s\<lparr>should_be_locked := False, force_unlocked := False\<rparr>"

definition check_connector_lock :: "iec \<Rightarrow> iec" where
  "check_connector_lock s =
     (let wanted = (relais_on s \<or> (should_be_locked s \<and> \<not> force_unlocked s \<and> authorized s));
          s' = (if keep_cable_locked s \<and> pp_ampacity s > 0 \<and> captive_lock_delay_elapsed s
                   \<and> \<not> captive_unlock_window s
                then s\<lparr>captive_latched := True\<rparr> else s);
          wanted' = (if keep_cable_locked s then wanted \<or> captive_latched s' else wanted)
      in if \<not> is_locked s' \<and> wanted' then (emit Signal_lock s')\<lparr>is_locked := True\<rparr>
         else if is_locked s' \<and> \<not> wanted' then (emit Signal_unlock s')\<lparr>is_locked := False\<rparr>
         else s')"

definition reset_X1_unless_F :: "iec \<Rightarrow> iec" where
  "reset_X1_unless_F s =
     (if \<not> cp_state_f_requested s
      then emit (Signal_pwm_duty_cycle 100) (emit Call_cp_state_X1 s) else s)"


subsection \<open>The state machine\<close>

text \<open>
  One definition per branch of the \<open>switch\<close>. Each returns the new state, the queued events and
  what to do with the two timers once the mutex is released. \<open>last\<close> is \<open>last_cp_state\<close>, which
  no branch changes.
\<close>

type_synonym branch_result = "iec \<times> CPEvent list \<times> TimerControl"

definition branch_Disabled :: "iec \<Rightarrow> branch_result" where
  "branch_Disabled s =
     (if last_cp_state s \<noteq> CP_Disabled then
        let s = s\<lparr>pwm_running := False\<rparr>;
            s = reset_X1_unless_F s;
            s = s\<lparr>ev_simplified_mode := False\<rparr>;
            s = call_allow_power_on_bsp False s
        in (connector_unlock s, [], Timer_stop)
      else (s, [], Timer_do_nothing))"

definition branch_A :: "iec \<Rightarrow> branch_result" where
  "branch_A s =
     (let events = (if last_cp_state s \<noteq> CP_A \<and> last_cp_state s \<noteq> CP_Disabled
                    then [CarUnplugged] else [])
      in if last_cp_state s \<noteq> CP_A then
           let s = s\<lparr>pwm_running := False\<rparr>;
               s = reset_X1_unless_F s;
               s = s\<lparr>ev_simplified_mode := False, car_plugged_in := False\<rparr>;
               s = call_allow_power_on_bsp False s
           in (connector_unlock s, events, Timer_stop)
         else (s, events, Timer_do_nothing))"

definition B_lock :: "iec \<Rightarrow> iec" where
  "B_lock s = (if lock_connector_in_state_b s then connector_lock s else connector_unlock s)"

definition B_stops_power :: "iec \<Rightarrow> bool" where
  "B_stops_power s \<longleftrightarrow> last_cp_state s = CP_C \<or> last_cp_state s = CP_D"

definition B_stop_power :: "iec \<Rightarrow> iec" where
  "B_stop_power s = (if B_stops_power s then call_allow_power_on_bsp False s else s)"

definition B_detects_plug_in :: "iec \<Rightarrow> bool" where
  "B_detects_plug_in s \<longleftrightarrow>
     last_cp_state s = CP_A \<or> last_cp_state s = CP_Disabled
     \<or> (\<not> car_plugged_in s \<and> (last_cp_state s = CP_F \<or> last_cp_state s = CP_E))"

definition B_note_plug_in :: "iec \<Rightarrow> iec" where
  "B_note_plug_in s =
     (if B_detects_plug_in s
      then s\<lparr>car_plugged_in := True, ev_simplified_mode := False\<rparr> else s)"

definition branch_B :: "iec \<Rightarrow> branch_result" where
  "branch_B s =
     (B_note_plug_in (B_stop_power (B_lock s)),
      (if B_stops_power s then [CarRequestedStopPower] else [])
      @ (if B_detects_plug_in s then [CarPluggedIn] else [])
      @ (if last_cp_state s = CP_E \<or> last_cp_state s = CP_F then [EFtoBCD] else []),
      if B_stops_power s then Timer_stop else Timer_do_nothing)"

definition C_detects_plug_in :: "iec \<Rightarrow> bool" where
  "C_detects_plug_in s \<longleftrightarrow>
     last_cp_state s = CP_A \<or> last_cp_state s = CP_Disabled
     \<or> (\<not> car_plugged_in s \<and> last_cp_state s = CP_F)"

definition C_note_plug_in :: "iec \<Rightarrow> iec" where
  "C_note_plug_in s =
     (if C_detects_plug_in s
      then s\<lparr>car_plugged_in := True, ev_simplified_mode := True\<rparr> else s)"

text \<open>PWM switches on while in state C.\<close>

definition C_resume_power :: "iec \<Rightarrow> iec" where
  "C_resume_power s =
     (if pwm_running s \<and> \<not> last_pwm_running s \<and> power_on_allowed s
      then call_allow_power_on_bsp True s else s)"

text \<open>The six seconds after PWM was switched off are over and the EV is still in state C.\<close>

definition C_timeout_power_off :: "nat \<Rightarrow> iec \<Rightarrow> iec" where
  "C_timeout_power_off now s =
     (if reached now (timeout_state_c1 s) then call_allow_power_on_bsp False s else s)"

text \<open>State C2: the EV comes from state B, or the permission arrived late.\<close>

definition C_power_on :: "iec \<Rightarrow> iec" where
  "C_power_on s =
     (if pwm_running s \<and> power_on_allowed s
         \<and> (\<not> last_power_on_allowed s \<or> last_cp_state s = CP_B)
      then call_allow_power_on_bsp True s else s)"

definition branch_C :: "nat \<Rightarrow> iec \<Rightarrow> branch_result" where
  "branch_C now s =
     (let s1 = C_note_plug_in (connector_lock s);
          s2 = C_power_on (C_timeout_power_off now (C_resume_power s1));
          ev1 = (if C_detects_plug_in s then [CarPluggedIn]
                 else if last_cp_state s = CP_B then [CarRequestedPower] else []);
          ev2 = (if pwm_running s2 \<and> \<not> last_pwm_running s2 \<and> ev_simplified_mode s2
                 then [CarRequestedPower] else []);
          tC1 = (if pwm_running s \<and> \<not> last_pwm_running s then Timer_stop
                 else if \<not> pwm_running s \<and> last_pwm_running s then Timer_start
                 else Timer_do_nothing)
      in (s2, ev1 @ ev2, tC1))"

definition branch_D :: "nat \<Rightarrow> iec \<Rightarrow> branch_result" where
  "branch_D now s =
     (let s = connector_lock s
      in if \<not> has_ventilation s then (call_allow_power_on_bsp False s, [], Timer_stop)
         else branch_C now s)"

definition branch_E :: "iec \<Rightarrow> branch_result" where
  "branch_E s =
     (let by_evse = state_e_triggered_through_handle s;
          last = last_cp_state s;
          s = s\<lparr>state_e_triggered_through_handle := False\<rparr>;
          s = (if \<not> by_evse then connector_unlock s else s)
      in if last \<noteq> CP_E then
           let s = call_allow_power_on_bsp False s;
               s = s\<lparr>pwm_running := False\<rparr>;
               s = (if \<not> by_evse then reset_X1_unless_F s else s)
           in (s,
               (if last = CP_B \<or> last = CP_C \<or> last = CP_D
                then BCDtoEF # (if \<not> by_evse then [BCDtoE] else []) else []),
               Timer_stop)
         else (s, [], Timer_do_nothing))"

definition branch_F :: "nat \<Rightarrow> iec \<Rightarrow> branch_result" where
  "branch_F now s =
     (let last = last_cp_state s;
          s = call_allow_power_on_bsp False s;
          s = (if last \<noteq> CP_F then s\<lparr>pwm_running := False\<rparr> else s);
          events = (if last = CP_B \<or> last = CP_C \<or> last = CP_D then [BCDtoEF] else []);
          s = (if reached now (timeout_unlock_state_F s) then connector_unlock s else s)
      in (s, events, Timer_stop))"

definition state_switch :: "nat \<Rightarrow> RawCPState \<Rightarrow> iec \<Rightarrow> branch_result" where
  "state_switch now cp_state s = (case cp_state of
       CP_Disabled \<Rightarrow> branch_Disabled s
     | CP_A \<Rightarrow> branch_A s
     | CP_B \<Rightarrow> branch_B s
     | CP_C \<Rightarrow> branch_C now s
     | CP_D \<Rightarrow> branch_D now s
     | CP_E \<Rightarrow> branch_E s
     | CP_F \<Rightarrow> branch_F now s)"

definition unlock_F_timer_control :: "RawCPState \<Rightarrow> RawCPState \<Rightarrow> TimerControl" where
  "unlock_F_timer_control last_state cp_state =
     (if cp_state \<noteq> CP_F \<and> last_state = CP_F then Timer_stop
      else if cp_state = CP_F \<and> last_state \<noteq> CP_F then Timer_start
      else Timer_do_nothing)"

text \<open>The mutex protected section of \<open>IECStateMachine::state_machine\<close>.\<close>

definition state_machine_section ::
  "nat \<Rightarrow> RawCPState option \<Rightarrow> iec \<Rightarrow> iec \<times> CPEvent list \<times> TimerControl \<times> TimerControl" where
  "state_machine_section now cp_state_opt s =
     (let cp_state = (case cp_state_opt of Some c \<Rightarrow> c | None \<Rightarrow> last_cp_state s);
          tF = unlock_F_timer_control (last_cp_state s) cp_state;
          (s, events, tC1) = state_switch now cp_state s;
          s = check_connector_lock s;
          s = s\<lparr>last_cp_state := cp_state, last_pwm_running := pwm_running s,
                last_power_on_allowed := power_on_allowed s\<rparr>
      in (s, events, tC1, tF))"

definition control_timer :: "nat \<Rightarrow> nat \<Rightarrow> TimerControl \<Rightarrow> AsyncTimeout \<Rightarrow> AsyncTimeout" where
  "control_timer now t c tm = (case c of
       Timer_start \<Rightarrow> timer_start now t tm
     | Timer_stop \<Rightarrow> timer_stop tm
     | Timer_do_nothing \<Rightarrow> tm)"

definition control_timers :: "nat \<Rightarrow> TimerControl \<Rightarrow> TimerControl \<Rightarrow> iec \<Rightarrow> iec" where
  "control_timers now tC1 tF s =
     s\<lparr>timeout_state_c1 :=
         control_timer now power_off_under_load_in_c1_timeout tC1 (timeout_state_c1 s),
       timeout_unlock_state_F :=
         control_timer now unlock_in_state_f_timeout tF (timeout_unlock_state_F s)\<rparr>"

definition state_machine :: "nat \<Rightarrow> RawCPState option \<Rightarrow> iec \<Rightarrow> iec \<times> CPEvent list" where
  "state_machine now cp_state_opt s =
     (let (s, events, tC1, tF) = state_machine_section now cp_state_opt s
      in (control_timers now tC1 tF s, events))"

definition publish_raw_cp_state :: "RawCPState option \<Rightarrow> iec \<Rightarrow> iec" where
  "publish_raw_cp_state cp_state_opt s = (case cp_state_opt of
       Some c \<Rightarrow> if c \<noteq> signalled_raw_cp_state s
                then emit (Signal_raw_cp_state_changed c) (s\<lparr>signalled_raw_cp_state := c\<rparr>) else s
     | None \<Rightarrow> s)"

fun signal_events :: "CPEvent list \<Rightarrow> iec \<Rightarrow> iec" where
  "signal_events [] s = s"
| "signal_events (e # es) s = signal_events es (emit (Signal_event e) s)"

definition feed_state_machine :: "nat \<Rightarrow> RawCPState option \<Rightarrow> iec \<Rightarrow> iec" where
  "feed_state_machine now cp_state_opt s =
     (let (s, events) = state_machine now cp_state_opt s
      in signal_events events (publish_raw_cp_state cp_state_opt s))"

subsection \<open>Entry points\<close>

definition relais_event :: "CPEvent \<Rightarrow> iec \<Rightarrow> iec" where
  "relais_event event s =
     (let s = (if event = PowerOn then s\<lparr>relais_on := True\<rparr>
               else if event = PowerOff then s\<lparr>relais_on := False\<rparr> else s)
      in check_connector_lock s)"

definition process_bsp_event :: "nat \<Rightarrow> bsp_event \<Rightarrow> iec \<Rightarrow> iec" where
  "process_bsp_event now bsp_event s = (case from_bsp_event bsp_event of
       Inl raw_state \<Rightarrow> feed_state_machine now (Some raw_state) s
     | Inr event \<Rightarrow> emit (Signal_event event) (relais_event event s))"

text \<open>The handler the constructor subscribes to the driver's events.\<close>

definition on_bsp_event :: "nat \<Rightarrow> bsp_event \<Rightarrow> iec \<Rightarrow> iec" where
  "on_bsp_event now e s = (if enabled s then process_bsp_event now e s else s)"

definition cp_output_off_flags :: "bool \<Rightarrow> iec \<Rightarrow> iec" where
  "cp_output_off_flags f_requested s =
     s\<lparr>pwm_running := False, cp_state_f_requested := f_requested\<rparr>"

definition set_cp_state_X1 :: "nat \<Rightarrow> iec \<Rightarrow> iec" where
  "set_cp_state_X1 now s =
     (let s = cp_output_off_flags False s;
          s = emit (Signal_pwm_duty_cycle 100) (emit Call_cp_state_X1 s)
      in feed_state_machine now None s)"

definition set_cp_state_F :: "nat \<Rightarrow> iec \<Rightarrow> iec" where
  "set_cp_state_F now s =
     (let s = cp_output_off_flags True s;
          s = emit (Signal_pwm_duty_cycle 100) (emit Call_cp_state_F s)
      in feed_state_machine now None s)"

definition state_E_flags :: "iec \<Rightarrow> iec" where
  "state_E_flags s = s\<lparr>pwm_running := False, state_e_triggered_through_handle := True\<rparr>"

definition set_cp_state_E :: "nat \<Rightarrow> iec \<Rightarrow> iec" where
  "set_cp_state_E now s =
     (let s = state_E_flags s;
          s = emit (Signal_pwm_duty_cycle 100) (emit Call_cp_state_E s)
      in feed_state_machine now None s)"

definition pwm_on_flags :: "iec \<Rightarrow> iec" where
  "pwm_on_flags s = s\<lparr>pwm_running := True, cp_state_f_requested := False\<rparr>"

definition set_pwm :: "nat \<Rightarrow> rat \<Rightarrow> iec \<Rightarrow> iec" where
  "set_pwm now value s =
     (if value \<ge> 1 then set_cp_state_X1 now s
      else if value \<le> 0 then set_cp_state_F now s
      else
        let s = pwm_on_flags s;
            value = (if ev_simplified_mode_evse_limit s \<and> ev_simplified_mode s
                        \<and> value > ev_simplified_mode_evse_limit_pwm
                     then ev_simplified_mode_evse_limit_pwm else value);
            s = emit (Signal_pwm_duty_cycle (value * 100)) (emit (Call_pwm_on (value * 100)) s)
        in feed_state_machine now None s)"

definition allow_power_on_flags :: "bool \<Rightarrow> reason \<Rightarrow> iec \<Rightarrow> iec" where
  "allow_power_on_flags value reason s =
     (let s = s\<lparr>power_on_allowed := value, power_on_reason := reason\<rparr>
      in if \<not> power_on_allowed s then call_allow_power_on_bsp False s else s)"

definition allow_power_on :: "nat \<Rightarrow> bool \<Rightarrow> reason \<Rightarrow> iec \<Rightarrow> iec" where
  "allow_power_on now value reason s =
     feed_state_machine now None (allow_power_on_flags value reason s)"

definition pp_value :: "ampacity \<Rightarrow> AcPhases \<Rightarrow> rat" where
  "pp_value pp phases = (case pp of
       A_13 \<Rightarrow> 13
     | A_20 \<Rightarrow> 20
     | A_32 \<Rightarrow> 32
     | A_63_3ph_70_1ph \<Rightarrow> (if phases = SinglePhase then 70 else 63)
     | Ampacity_None \<Rightarrow> 0)"

text \<open>The mutex protected section of \<open>set_pp_ampacity\<close>; it decides about the debounce timer.\<close>

definition set_pp_section :: "ampacity \<Rightarrow> iec \<Rightarrow> iec \<times> TimerControl" where
  "set_pp_section pp s =
     (let plug_was_present = (pp_ampacity s > 0);
          s = s\<lparr>pp_ampacity := pp_value pp (max_phases s)\<rparr>
      in if keep_cable_locked s then
           if pp_ampacity s = 0 then
             (check_connector_lock
                (s\<lparr>captive_unlock_window := False, captive_lock_delay_elapsed := False\<rparr>),
              Timer_stop)
           else if \<not> plug_was_present \<and> \<not> captive_lock_delay_elapsed s then
             (if keep_cable_locked_lock_delay_ms s > 0
              then (check_connector_lock s, Timer_start)
              else (check_connector_lock (s\<lparr>captive_lock_delay_elapsed := True\<rparr>),
                    Timer_do_nothing))
           else (check_connector_lock s, Timer_do_nothing)
         else (s, Timer_do_nothing))"

definition control_captive_timer :: "nat \<Rightarrow> TimerControl \<Rightarrow> iec \<Rightarrow> iec" where
  "control_captive_timer now c s =
     (if keep_cable_locked s
      then s\<lparr>timeout_captive_lock :=
               control_timer now (nat (keep_cable_locked_lock_delay_ms s)) c
                 (timeout_captive_lock s)\<rparr>
      else s)"

definition set_pp_ampacity :: "nat \<Rightarrow> ampacity \<Rightarrow> iec \<Rightarrow> iec" where
  "set_pp_ampacity now pp s =
     (let (s, c) = set_pp_section pp s in control_captive_timer now c s)"

definition read_pp_ampacity :: "iec \<Rightarrow> rat option" where
  "read_pp_ampacity s = (if pp_ampacity s = 0 then None else Some (pp_ampacity s))"

text \<open>The handler of the debounce timer.\<close>

definition captive_lock_debounce_reached :: "iec \<Rightarrow> iec" where
  "captive_lock_debounce_reached s =
     check_connector_lock
       (if pp_ampacity s > 0 then s\<lparr>captive_lock_delay_elapsed := True\<rparr> else s)"

definition switch_three_phases_while_charging :: "bool \<Rightarrow> iec \<Rightarrow> iec" where
  "switch_three_phases_while_charging n s =
     emit (Call_ac_switch_three_phases_while_charging n) s"

definition iec_setup :: "bool \<Rightarrow> iec \<Rightarrow> iec" where
  "iec_setup ventilation s = s\<lparr>has_ventilation := ventilation\<rparr>"

definition enable :: "bool \<Rightarrow> iec \<Rightarrow> iec" where
  "enable en s = emit (Call_enable en) (s\<lparr>enabled := en\<rparr>)"

definition set_overcurrent_limit :: "rat \<Rightarrow> iec \<Rightarrow> iec" where
  "set_overcurrent_limit amps s =
     (if amps \<noteq> last_amps s
      then (emit (Call_ac_set_overcurrent_limit_A amps) s)\<lparr>last_amps := amps\<rparr> else s)"

definition connector_force_unlock :: "iec \<Rightarrow> iec" where
  "connector_force_unlock s =
     (let cp = last_cp_state s;
          s = (if keep_cable_locked s
               then (if pp_ampacity s > 0 then s\<lparr>captive_unlock_window := True\<rparr> else s)
                    \<lparr>captive_latched := False\<rparr>
               else s);
          s = (if \<not> relais_on s then (emit Signal_unlock s)\<lparr>is_locked := False\<rparr> else s)
      in if cp = CP_B \<or> cp = CP_C
         then check_connector_lock (s\<lparr>force_unlocked := True\<rparr>) else s)"

definition set_authorized :: "nat \<Rightarrow> bool \<Rightarrow> iec \<Rightarrow> iec" where
  "set_authorized now a s =
     (if \<not> use_authorized s then s
      else feed_state_machine now None (s\<lparr>authorized := a\<rparr>))"

definition set_keep_cable_locked_section :: "bool \<Rightarrow> iec \<Rightarrow> iec" where
  "set_keep_cable_locked_section en s =
     check_connector_lock
       (s\<lparr>keep_cable_locked := en, captive_unlock_window := False, captive_latched := False,
          captive_lock_delay_elapsed := (pp_ampacity s > 0)\<rparr>)"

definition set_keep_cable_locked :: "bool \<Rightarrow> iec \<Rightarrow> iec" where
  "set_keep_cable_locked en s =
     (if keep_cable_locked s = en then s
      else let s = set_keep_cable_locked_section en s
           in s\<lparr>timeout_captive_lock := timer_stop (timeout_captive_lock s)\<rparr>)"

definition set_max_phases :: "AcPhases \<Rightarrow> iec \<Rightarrow> iec" where
  "set_max_phases phases s = s\<lparr>max_phases := phases\<rparr>"

definition set_ev_simplified_mode_evse_limit :: "bool \<Rightarrow> iec \<Rightarrow> iec" where
  "set_ev_simplified_mode_evse_limit l s = s\<lparr>ev_simplified_mode_evse_limit := l\<rparr>"


subsection \<open>Atomic sections and interleavings\<close>

text \<open>
  The entry points run on several threads (driver callbacks, the charger, the timers). What one
  thread does without another in between is a mutex protected section or a single call or flag
  write outside of it; \<open>iec_atomic\<close> lists them. The two timer controls and the events of a
  section are handled after the mutex is released, so another thread may run in between:
  \<open>Do_control_timers\<close> and \<open>Do_signal\<close> are atoms of their own, with any argument.
\<close>

datatype iec_atomic =
    Do_section nat "RawCPState option"
  | Do_control_timers nat TimerControl TimerControl
  | Do_publish_raw "RawCPState option"
  | Do_signal CPEvent
  | Do_relais_event CPEvent
  | Do_off_flags bool
  | Do_state_E_flags
  | Do_pwm_on_flags
  | Do_cp_output "iec_call"
  | Do_allow_power_on_flags bool reason
  | Do_set_pp_section ampacity
  | Do_control_captive_timer nat TimerControl
  | Do_debounce_reached
  | Do_force_unlock
  | Do_write_authorized bool
  | Do_set_keep_cable_locked_section bool
  | Do_stop_captive_timer
  | Do_enable bool
  | Do_setup bool
  | Do_set_max_phases AcPhases
  | Do_set_evse_limit bool
  | Do_set_overcurrent_limit rat

text \<open>The driver calls and duty cycle signals made outside of any section.\<close>

fun is_cp_output :: "iec_call \<Rightarrow> bool" where
  "is_cp_output Call_cp_state_X1 = True"
| "is_cp_output Call_cp_state_E = True"
| "is_cp_output Call_cp_state_F = True"
| "is_cp_output (Call_pwm_on _) = True"
| "is_cp_output (Signal_pwm_duty_cycle _) = True"
| "is_cp_output (Call_ac_switch_three_phases_while_charging _) = True"
| "is_cp_output _ = False"

fun atomic :: "iec \<Rightarrow> iec_atomic \<Rightarrow> iec" where
  "atomic s (Do_section now cp) = fst (state_machine_section now cp s)"
| "atomic s (Do_control_timers now tC1 tF) = control_timers now tC1 tF s"
| "atomic s (Do_publish_raw cp) = publish_raw_cp_state cp s"
| "atomic s (Do_signal e) = emit (Signal_event e) s"
| "atomic s (Do_relais_event e) = relais_event e s"
| "atomic s (Do_off_flags f) = cp_output_off_flags f s"
| "atomic s Do_state_E_flags = state_E_flags s"
| "atomic s Do_pwm_on_flags = pwm_on_flags s"
| "atomic s (Do_cp_output c) = (if is_cp_output c then emit c s else s)"
| "atomic s (Do_allow_power_on_flags v r) = allow_power_on_flags v r s"
| "atomic s (Do_set_pp_section pp) = fst (set_pp_section pp s)"
| "atomic s (Do_control_captive_timer now c) = control_captive_timer now c s"
| "atomic s Do_debounce_reached = captive_lock_debounce_reached s"
| "atomic s Do_force_unlock = connector_force_unlock s"
| "atomic s (Do_write_authorized a) = (if use_authorized s then s\<lparr>authorized := a\<rparr> else s)"
| "atomic s (Do_set_keep_cable_locked_section en) = set_keep_cable_locked_section en s"
| "atomic s Do_stop_captive_timer =
     s\<lparr>timeout_captive_lock := timer_stop (timeout_captive_lock s)\<rparr>"
| "atomic s (Do_enable en) = enable en s"
| "atomic s (Do_setup v) = iec_setup v s"
| "atomic s (Do_set_max_phases p) = set_max_phases p s"
| "atomic s (Do_set_evse_limit l) = set_ev_simplified_mode_evse_limit l s"
| "atomic s (Do_set_overcurrent_limit a) = set_overcurrent_limit a s"

text \<open>The entry points as one input type, each run to its end by one thread.\<close>

datatype iec_input =
    On_bsp_event bsp_event
  | Set_pwm rat
  | Set_cp_state_X1
  | Set_cp_state_E
  | Set_cp_state_F
  | Allow_power_on bool reason
  | Set_pp_ampacity ampacity
  | Switch_three_phases bool
  | Setup bool
  | Enable bool
  | Set_overcurrent_limit rat
  | Force_unlock
  | Set_authorized bool
  | Set_keep_cable_locked bool
  | Set_max_phases AcPhases
  | Set_evse_limit bool
  | Timer_c1_reached
  | Timer_F_reached
  | Timer_captive_reached

fun iec_step :: "iec \<Rightarrow> nat \<times> iec_input \<Rightarrow> iec" where
  "iec_step s (now, On_bsp_event e) = on_bsp_event now e s"
| "iec_step s (now, Set_pwm v) = set_pwm now v s"
| "iec_step s (now, Set_cp_state_X1) = set_cp_state_X1 now s"
| "iec_step s (now, Set_cp_state_E) = set_cp_state_E now s"
| "iec_step s (now, Set_cp_state_F) = set_cp_state_F now s"
| "iec_step s (now, Allow_power_on v r) = allow_power_on now v r s"
| "iec_step s (now, Set_pp_ampacity pp) = set_pp_ampacity now pp s"
| "iec_step s (now, Switch_three_phases n) = switch_three_phases_while_charging n s"
| "iec_step s (now, Setup v) = iec_setup v s"
| "iec_step s (now, Enable en) = enable en s"
| "iec_step s (now, Set_overcurrent_limit a) = set_overcurrent_limit a s"
| "iec_step s (now, Force_unlock) = connector_force_unlock s"
| "iec_step s (now, Set_authorized a) = set_authorized now a s"
| "iec_step s (now, Set_keep_cable_locked en) = set_keep_cable_locked en s"
| "iec_step s (now, Set_max_phases p) = set_max_phases p s"
| "iec_step s (now, Set_evse_limit l) = set_ev_simplified_mode_evse_limit l s"
| "iec_step s (now, Timer_c1_reached) =
     (if reached now (timeout_state_c1 s) then feed_state_machine now None s else s)"
| "iec_step s (now, Timer_F_reached) =
     (if reached now (timeout_unlock_state_F s) then feed_state_machine now None s else s)"
| "iec_step s (now, Timer_captive_reached) =
     (if reached now (timeout_captive_lock s) then captive_lock_debounce_reached s else s)"

lemma signal_events_atomic: "signal_events es s = run atomic s (map Do_signal es)"
  by (induction es arbitrary: s) auto

lemma feed_atomic: "\<exists>as. feed_state_machine now cp s = run atomic s as"
proof -
  obtain s' events tC1 tF where sec: "state_machine_section now cp s = (s', events, tC1, tF)"
    by (cases "state_machine_section now cp s") auto
  have "feed_state_machine now cp s =
      run atomic s ([Do_section now cp, Do_control_timers now tC1 tF, Do_publish_raw cp]
                    @ map Do_signal events)"
    unfolding run_append
    by (simp add: feed_state_machine_def state_machine_def sec signal_events_atomic)
  then show ?thesis ..
qed

definition atomic_reachable :: "iec \<Rightarrow> iec \<Rightarrow> bool" where
  "atomic_reachable s s' \<longleftrightarrow> (\<exists>as. s' = run atomic s as)"

lemma atomic_reachable_refl [simp]: "atomic_reachable s s"
  unfolding atomic_reachable_def by (rule exI [of _ "[]"]) simp

lemma atomic_reachable_step: "atomic_reachable (atomic s a) s' \<Longrightarrow> atomic_reachable s s'"
  unfolding atomic_reachable_def by (metis run.simps(2))

lemma atomic_reachable_one: "atomic_reachable s (atomic s a)"
  by (rule atomic_reachable_step [of _ a]) simp

lemma atomic_reachable_feed: "atomic_reachable s (feed_state_machine now cp s)"
  using feed_atomic by (auto simp: atomic_reachable_def)


lemma atomic_reachable_trans:
  "atomic_reachable s s' \<Longrightarrow> atomic_reachable s' s'' \<Longrightarrow> atomic_reachable s s''"
  unfolding atomic_reachable_def by (metis run_append)

lemma atomic_reachable_cp_output:
  "is_cp_output c \<Longrightarrow> atomic_reachable s s' \<Longrightarrow> atomic_reachable s (emit c s')"
  using atomic_reachable_one [of s' "Do_cp_output c"]
  by (auto intro: atomic_reachable_trans)

lemma atomic_reachable_via_feed:
  "atomic_reachable s s' \<Longrightarrow> atomic_reachable s (feed_state_machine now cp s')"
  by (rule atomic_reachable_trans [OF _ atomic_reachable_feed])

lemma set_cp_state_X1_atomic: "atomic_reachable s (set_cp_state_X1 now s)"
  using atomic_reachable_one [of s "Do_off_flags False"]
  by (auto simp: set_cp_state_X1_def Let_def
           intro!: atomic_reachable_via_feed atomic_reachable_cp_output)

lemma set_cp_state_F_atomic: "atomic_reachable s (set_cp_state_F now s)"
  using atomic_reachable_one [of s "Do_off_flags True"]
  by (auto simp: set_cp_state_F_def Let_def
           intro!: atomic_reachable_via_feed atomic_reachable_cp_output)

lemma set_cp_state_E_atomic: "atomic_reachable s (set_cp_state_E now s)"
  using atomic_reachable_one [of s "Do_state_E_flags"]
  by (auto simp: set_cp_state_E_def Let_def
           intro!: atomic_reachable_via_feed atomic_reachable_cp_output)

lemma set_pwm_atomic: "atomic_reachable s (set_pwm now v s)"
  using atomic_reachable_one [of s "Do_pwm_on_flags"]
    set_cp_state_X1_atomic set_cp_state_F_atomic
  by (auto simp: set_pwm_def Let_def
           intro!: atomic_reachable_via_feed atomic_reachable_cp_output)

lemma on_bsp_event_atomic: "atomic_reachable s (on_bsp_event now e s)"
proof (cases "from_bsp_event e")
  case (Inl c)
  then show ?thesis
    by (simp add: on_bsp_event_def process_bsp_event_def atomic_reachable_feed)
next
  case (Inr ev)
  have "atomic_reachable s (emit (Signal_event ev) (relais_event ev s))"
    using atomic_reachable_one [of s "Do_relais_event ev"]
      atomic_reachable_one [of "relais_event ev s" "Do_signal ev"]
    by (auto intro: atomic_reachable_trans)
  with Inr show ?thesis by (simp add: on_bsp_event_def process_bsp_event_def)
qed

lemma set_pp_ampacity_atomic: "atomic_reachable s (set_pp_ampacity now pp s)"
proof -
  obtain s' c where sec: "set_pp_section pp s = (s', c)" by fastforce
  then show ?thesis
    using atomic_reachable_one [of s "Do_set_pp_section pp"]
      atomic_reachable_one [of s' "Do_control_captive_timer now c"]
    by (auto simp: set_pp_ampacity_def intro: atomic_reachable_trans)
qed

lemma set_keep_cable_locked_atomic: "atomic_reachable s (set_keep_cable_locked en s)"
  using atomic_reachable_one [of s "Do_set_keep_cable_locked_section en"]
    atomic_reachable_one [of "set_keep_cable_locked_section en s" "Do_stop_captive_timer"]
  by (auto simp: set_keep_cable_locked_def Let_def intro: atomic_reachable_trans)

lemma allow_power_on_atomic: "atomic_reachable s (allow_power_on now v r s)"
  using atomic_reachable_one [of s "Do_allow_power_on_flags v r"]
  by (auto simp: allow_power_on_def intro: atomic_reachable_via_feed)

lemma set_authorized_atomic: "atomic_reachable s (set_authorized now a s)"
  using atomic_reachable_one [of s "Do_write_authorized a"]
  by (auto simp: set_authorized_def intro: atomic_reachable_via_feed)

lemmas iec_op_atomic =
  set_cp_state_X1_atomic set_cp_state_F_atomic set_cp_state_E_atomic set_pwm_atomic
  on_bsp_event_atomic set_pp_ampacity_atomic set_keep_cable_locked_atomic allow_power_on_atomic
  set_authorized_atomic atomic_reachable_feed

lemma iec_step_atomic: "atomic_reachable s (iec_step s (now, i))"
proof (cases i)
  case (Switch_three_phases n)
  then show ?thesis
    by (simp add: switch_three_phases_while_charging_def atomic_reachable_cp_output)
next
  case (Setup v)
  then show ?thesis using atomic_reachable_one [of s "Do_setup v"] by simp
next
  case (Enable en)
  then show ?thesis using atomic_reachable_one [of s "Do_enable en"] by simp
next
  case (Set_overcurrent_limit a)
  then show ?thesis using atomic_reachable_one [of s "Do_set_overcurrent_limit a"] by simp
next
  case Force_unlock
  then show ?thesis using atomic_reachable_one [of s "Do_force_unlock"] by simp
next
  case (Set_max_phases p)
  then show ?thesis using atomic_reachable_one [of s "Do_set_max_phases p"] by simp
next
  case (Set_evse_limit l)
  then show ?thesis using atomic_reachable_one [of s "Do_set_evse_limit l"] by simp
next
  case Timer_captive_reached
  then show ?thesis using atomic_reachable_one [of s "Do_debounce_reached"] by simp
qed (simp_all add: iec_op_atomic)

lemma reach_iec_step_atomic:
  assumes "reach iec_step s0 s"
  shows "reach atomic s0 s"
  using assms
proof (induction rule: reach.induct)
  case reach_init
  show ?case by (rule reach.reach_init)
next
  case (reach_step s i)
  obtain now inp where i: "i = (now, inp)" by fastforce
  from iec_step_atomic [of s now inp] obtain as where "iec_step s i = run atomic s as"
    unfolding i atomic_reachable_def by blast
  with reach_step.IH show ?case by (auto intro: reach_run)
qed

subsection \<open>What the trace says about the lock and the power permission\<close>

fun lock_after :: "iec_call \<Rightarrow> bool \<Rightarrow> bool" where
  "lock_after Signal_lock _ = True"
| "lock_after Signal_unlock _ = False"
| "lock_after _ b = b"

text \<open>The position the lock motor was last commanded to.\<close>

definition lock_commanded :: "iec_call list \<Rightarrow> bool" where
  "lock_commanded tr = fold lock_after tr False"

fun permission_after :: "iec_call \<Rightarrow> bool \<Rightarrow> bool" where
  "permission_after (Call_allow_power_on v _) _ = v"
| "permission_after _ b = b"

text \<open>The last power permission the driver received.\<close>

definition power_permitted :: "iec_call list \<Rightarrow> bool" where
  "power_permitted tr = fold permission_after tr False"

lemma lock_commanded_simps [simp]:
  "lock_commanded [] = False"
  "lock_commanded (tr @ cs) = fold lock_after cs (lock_commanded tr)"
  by (simp_all add: lock_commanded_def)

lemma power_permitted_simps [simp]:
  "power_permitted [] = False"
  "power_permitted (tr @ cs) = fold permission_after cs (power_permitted tr)"
  by (simp_all add: power_permitted_def)

lemma lock_after_cp_output [simp]: "is_cp_output c \<Longrightarrow> lock_after c b = b"
  by (cases c) auto

lemma permission_after_cp_output [simp]: "is_cp_output c \<Longrightarrow> permission_after c b = b"
  by (cases c) auto

lemmas branch_defs =
  branch_Disabled_def branch_A_def branch_B_def branch_C_def branch_D_def branch_E_def branch_F_def

lemmas branch_part_defs =
  B_lock_def B_stop_power_def B_note_plug_in_def
  C_note_plug_in_def C_resume_power_def C_timeout_power_off_def C_power_on_def

lemmas iec_helper_defs =
  emit_def call_allow_power_on_bsp_def connector_lock_def connector_unlock_def reset_X1_unless_F_def

end
