(* ===== verification/IEC_Safety.thy ===== *)
theory IEC_Safety
  imports IEC_State_Machine
begin

text \<open>
  Safety of the control pilot state machine under every interleaving of its atomic sections:
  the connector lock while the relais are closed, the captive cable latch, and the power
  permission given to the driver.
\<close>

subsection \<open>Frame properties of the branches\<close>

text \<open>
  The parts of the branches leave the lock and the inputs of the captive cable rules alone.
  \<open>lock_view\<close> collects the fields that only the lock rules write.
\<close>

definition lock_view ::
  "iec \<Rightarrow> bool \<times> bool \<times> bool \<times> bool \<times> rat \<times> bool \<times> bool \<times> bool \<times> RawCPState \<times> bool
    \<times> RawCPState" where
  "lock_view s =
     (relais_on s, is_locked s, keep_cable_locked s, captive_latched s, pp_ampacity s,
      captive_unlock_window s, captive_lock_delay_elapsed s, lock_commanded (trace s),
      last_cp_state s, has_ventilation s, signalled_raw_cp_state s)"

lemma lock_view_helpers [simp]:
  "lock_view (call_allow_power_on_bsp v s) = lock_view s"
  "lock_view (connector_lock s) = lock_view s"
  "lock_view (connector_unlock s) = lock_view s"
  "lock_view (reset_X1_unless_F s) = lock_view s"
  by (simp_all add: lock_view_def iec_helper_defs Let_def)

lemma lock_view_updates [simp]:
  "lock_view (s\<lparr>pwm_running := b\<rparr>) = lock_view s"
  "lock_view (s\<lparr>ev_simplified_mode := b\<rparr>) = lock_view s"
  "lock_view (s\<lparr>car_plugged_in := b\<rparr>) = lock_view s"
  "lock_view (s\<lparr>state_e_triggered_through_handle := b\<rparr>) = lock_view s"
  by (simp_all add: lock_view_def)

lemma lock_view_parts [simp]:
  "lock_view (B_lock s) = lock_view s"
  "lock_view (B_stop_power s) = lock_view s"
  "lock_view (B_note_plug_in s) = lock_view s"
  "lock_view (C_note_plug_in s) = lock_view s"
  "lock_view (C_resume_power s) = lock_view s"
  "lock_view (C_timeout_power_off now s) = lock_view s"
  "lock_view (C_power_on s) = lock_view s"
  by (simp_all add: branch_part_defs)

lemma lock_view_switch: "lock_view (fst (state_switch now cp s)) = lock_view s"
  by (cases cp) (simp_all add: state_switch_def branch_defs Let_def)

lemma state_switch_frame:
  assumes "state_switch now cp s = (s', ev, tc)"
  shows "relais_on s' = relais_on s" "is_locked s' = is_locked s"
    "keep_cable_locked s' = keep_cable_locked s" "captive_latched s' = captive_latched s"
    "pp_ampacity s' = pp_ampacity s" "captive_unlock_window s' = captive_unlock_window s"
    "captive_lock_delay_elapsed s' = captive_lock_delay_elapsed s"
    "lock_commanded (trace s') = lock_commanded (trace s)"
    "last_cp_state s' = last_cp_state s" "has_ventilation s' = has_ventilation s"
    "signalled_raw_cp_state s' = signalled_raw_cp_state s"
  using lock_view_switch [of now cp s] by (simp_all add: assms lock_view_def)

lemma check_connector_lock_frame [simp]:
  "relais_on (check_connector_lock s) = relais_on s"
  "keep_cable_locked (check_connector_lock s) = keep_cable_locked s"
  "pp_ampacity (check_connector_lock s) = pp_ampacity s"
  "captive_unlock_window (check_connector_lock s) = captive_unlock_window s"
  "captive_lock_delay_elapsed (check_connector_lock s) = captive_lock_delay_elapsed s"
  "last_cp_state (check_connector_lock s) = last_cp_state s"
  "last_power_on_forwarded (check_connector_lock s) = last_power_on_forwarded s"
  "car_plugged_in (check_connector_lock s) = car_plugged_in s"
  "power_permitted (trace (check_connector_lock s)) = power_permitted (trace s)"
  "pwm_running (check_connector_lock s) = pwm_running s"
  "power_on_allowed (check_connector_lock s) = power_on_allowed s"
  "timeout_state_c1 (check_connector_lock s) = timeout_state_c1 s"
  "last_pwm_running (check_connector_lock s) = last_pwm_running s"
  "signalled_raw_cp_state (check_connector_lock s) = signalled_raw_cp_state s"
  by (simp_all add: check_connector_lock_def emit_def Let_def)

lemma check_connector_lock_latched:
  "captive_latched (check_connector_lock s) \<longleftrightarrow>
     captive_latched s \<or> (keep_cable_locked s \<and> pp_ampacity s > 0
       \<and> captive_lock_delay_elapsed s \<and> \<not> captive_unlock_window s)"
  by (simp add: check_connector_lock_def emit_def Let_def)

lemma check_connector_lock_is_locked:
  "is_locked (check_connector_lock s) \<longleftrightarrow>
     relais_on s \<or> (should_be_locked s \<and> \<not> force_unlocked s \<and> authorized s)
     \<or> (keep_cable_locked s \<and> captive_latched (check_connector_lock s))"
  by (auto simp: check_connector_lock_def emit_def Let_def)

lemma check_connector_lock_commanded:
  "lock_commanded (trace s) = is_locked s \<Longrightarrow>
   lock_commanded (trace (check_connector_lock s)) = is_locked (check_connector_lock s)"
  by (auto simp: check_connector_lock_def emit_def Let_def)

subsection \<open>The lock\<close>

definition lock_inv :: "iec \<Rightarrow> bool" where
  "lock_inv s \<longleftrightarrow>
     (relais_on s \<longrightarrow> is_locked s) \<and>
     (captive_latched s \<longrightarrow> keep_cable_locked s \<and> is_locked s) \<and>
     (captive_unlock_window s \<longrightarrow> keep_cable_locked s \<and> pp_ampacity s > 0) \<and>
     (keep_cable_locked s \<and> captive_lock_delay_elapsed s \<longrightarrow> pp_ampacity s > 0) \<and>
     lock_commanded (trace s) = is_locked s"

lemma pp_value_pos [simp]: "pp_value pp ph \<noteq> 0 \<Longrightarrow> 0 < pp_value pp ph"
  by (cases pp) (auto simp: pp_value_def)

text \<open>What \<open>check_connector_lock\<close> needs to establish the invariant.\<close>

definition lock_pre :: "iec \<Rightarrow> bool" where
  "lock_pre s \<longleftrightarrow>
     (captive_latched s \<longrightarrow> keep_cable_locked s) \<and>
     (captive_unlock_window s \<longrightarrow> keep_cable_locked s \<and> pp_ampacity s > 0) \<and>
     (keep_cable_locked s \<and> captive_lock_delay_elapsed s \<longrightarrow> pp_ampacity s > 0) \<and>
     lock_commanded (trace s) = is_locked s"

lemma lock_inv_pre: "lock_inv s \<Longrightarrow> lock_pre s"
  by (simp add: lock_inv_def lock_pre_def)

lemma lock_inv_check: "lock_pre s \<Longrightarrow> lock_inv (check_connector_lock s)"
  using check_connector_lock_commanded [of s]
  by (auto simp: lock_inv_def lock_pre_def check_connector_lock_is_locked
      check_connector_lock_latched)

lemma lock_inv_section:
  assumes "lock_inv s"
  shows "lock_inv (fst (state_machine_section now cp s))"
proof -
  define c where "c = (case cp of Some x \<Rightarrow> x | None \<Rightarrow> last_cp_state s)"
  obtain s' ev tc where sw: "state_switch now c s = (s', ev, tc)"
    by (cases "state_switch now c s") auto
  have "lock_inv (check_connector_lock s')"
    using assms
    by (intro lock_inv_check) (simp add: lock_inv_def lock_pre_def state_switch_frame [OF sw])
  then show ?thesis
    by (simp add: state_machine_section_def Let_def c_def [symmetric] sw lock_inv_def)
qed

lemma lock_inv_force_unlock:
  assumes "lock_inv s"
  shows "lock_inv (connector_force_unlock s)"
proof -
  define s1 where "s1 = (if keep_cable_locked s
               then (if pp_ampacity s > 0 then s\<lparr>captive_unlock_window := True\<rparr> else s)
                    \<lparr>captive_latched := False\<rparr>
               else s)"
  define s2 where
    "s2 = (if \<not> relais_on s1 then (emit Signal_unlock s1)\<lparr>is_locked := False\<rparr> else s1)"
  have s1: "lock_inv s1" "\<not> captive_latched s1"
    using assms by (auto simp: lock_inv_def s1_def)
  then have s2: "lock_inv s2" by (simp add: lock_inv_def emit_def s2_def)
  then have "lock_inv (check_connector_lock (s2\<lparr>force_unlocked := True\<rparr>))"
    by (intro lock_inv_check) (simp add: lock_inv_def lock_pre_def)
  with s2 show ?thesis
    by (simp add: connector_force_unlock_def Let_def s1_def [symmetric] s2_def [symmetric])
qed

lemma lock_inv_relais_event: "lock_inv s \<Longrightarrow> lock_inv (relais_event e s)"
  by (simp add: relais_event_def Let_def)
    (intro conjI impI; rule lock_inv_check; simp add: lock_inv_def lock_pre_def)

lemma lock_inv_set_pp_section: "lock_inv s \<Longrightarrow> lock_inv (fst (set_pp_section pp s))"
  by (simp add: set_pp_section_def Let_def)
    (intro conjI impI; (rule lock_inv_check)?; auto simp: lock_inv_def lock_pre_def)

lemma lock_inv_debounce: "lock_inv s \<Longrightarrow> lock_inv (captive_lock_debounce_reached s)"
  by (simp add: captive_lock_debounce_reached_def)
    (intro conjI impI; rule lock_inv_check; simp add: lock_inv_def lock_pre_def)

lemma lock_inv_set_keep: "lock_inv s \<Longrightarrow> lock_inv (set_keep_cable_locked_section en s)"
  unfolding set_keep_cable_locked_section_def
  by (rule lock_inv_check) (simp add: lock_inv_def lock_pre_def)

lemmas iec_plain_section_defs =
  control_timers_def publish_raw_cp_state_def emit_def cp_output_off_flags_def state_E_flags_def
  pwm_on_flags_def allow_power_on_flags_def call_allow_power_on_bsp_def control_captive_timer_def
  enable_def iec_setup_def set_max_phases_def set_ev_simplified_mode_evse_limit_def
  set_overcurrent_limit_def Let_def

lemma lock_inv_atomic:
  assumes "lock_inv s"
  shows "lock_inv (atomic s a)"
  using assms
  by (cases a)
    (simp_all add: lock_inv_section lock_inv_force_unlock lock_inv_relais_event
      lock_inv_set_pp_section lock_inv_debounce lock_inv_set_keep,
     auto simp: lock_inv_def iec_plain_section_defs split: option.split)


interpretation iec_lock: machine_invariant atomic "IECStateMachine lock_b use_auth keep delay" lock_inv
  for lock_b use_auth keep delay
proof
  show "lock_inv (IECStateMachine lock_b use_auth keep delay)"
    by (simp add: lock_inv_def IECStateMachine_def)
qed (rule lock_inv_atomic)

subsection \<open>The power permission\<close>

text \<open>
  The driver may only hold the permission to close the contactors while the last measured control
  pilot state is one in which the EV asks for power.
\<close>

definition power_inv :: "iec \<Rightarrow> bool" where
  "power_inv s \<longleftrightarrow>
     last_power_on_forwarded s = power_permitted (trace s) \<and>
     (power_permitted (trace s) \<longrightarrow> last_cp_state s = CP_C \<or> last_cp_state s = CP_D) \<and>
     (car_plugged_in s \<longrightarrow> last_cp_state s \<noteq> CP_A)"

lemma call_allow_power_on_bsp_facts [simp]:
  "last_power_on_forwarded (call_allow_power_on_bsp v s) = v"
  "power_permitted (trace (call_allow_power_on_bsp v s)) = v"
  "power_on_allowed (call_allow_power_on_bsp v s) \<longleftrightarrow> v \<and> power_on_allowed s"
  "last_cp_state (call_allow_power_on_bsp v s) = last_cp_state s"
  "pwm_running (call_allow_power_on_bsp v s) = pwm_running s"
  "last_pwm_running (call_allow_power_on_bsp v s) = last_pwm_running s"
  "car_plugged_in (call_allow_power_on_bsp v s) = car_plugged_in s"
  "power_on_reason (call_allow_power_on_bsp v s) = (if v then power_on_reason s else Reason_PowerOff)"
  by (auto simp: call_allow_power_on_bsp_def emit_def Let_def)

lemma connector_lock_unlock_facts [simp]:
  "power_permitted (trace (connector_lock s)) = power_permitted (trace s)"
  "power_permitted (trace (connector_unlock s)) = power_permitted (trace s)"
  "last_power_on_forwarded (connector_lock s) = last_power_on_forwarded s"
  "last_power_on_forwarded (connector_unlock s) = last_power_on_forwarded s"
  "last_cp_state (connector_lock s) = last_cp_state s"
  "last_cp_state (connector_unlock s) = last_cp_state s"
  "car_plugged_in (connector_lock s) = car_plugged_in s"
  "car_plugged_in (connector_unlock s) = car_plugged_in s"
  by (simp_all add: connector_lock_def connector_unlock_def)

lemma reset_X1_unless_F_facts [simp]:
  "power_permitted (trace (reset_X1_unless_F s)) = power_permitted (trace s)"
  "last_power_on_forwarded (reset_X1_unless_F s) = last_power_on_forwarded s"
  "last_cp_state (reset_X1_unless_F s) = last_cp_state s"
  "car_plugged_in (reset_X1_unless_F s) = car_plugged_in s"
  by (simp_all add: reset_X1_unless_F_def emit_def)

lemma power_inv_switch:
  assumes "power_inv s" and "state_switch now cp s = (s', ev, tc)"
  shows "last_power_on_forwarded s' = power_permitted (trace s')"
    and "power_permitted (trace s') \<longrightarrow> cp = CP_C \<or> cp = CP_D"
    and "car_plugged_in s' \<longrightarrow> cp \<noteq> CP_A"
proof -
  have s': "s' = fst (state_switch now cp s)" by (simp add: assms(2))
  show "last_power_on_forwarded s' = power_permitted (trace s')"
    using assms(1) unfolding s'
    by (cases cp) (simp_all add: state_switch_def branch_defs branch_part_defs Let_def power_inv_def)
  show "power_permitted (trace s') \<longrightarrow> cp = CP_C \<or> cp = CP_D"
    using assms(1) unfolding s'
    by (cases cp)
      (auto simp: state_switch_def branch_defs branch_part_defs Let_def power_inv_def
        B_stops_power_def)
  show "car_plugged_in s' \<longrightarrow> cp \<noteq> CP_A"
    using assms(1) unfolding s'
    by (cases cp) (auto simp: state_switch_def branch_A_def Let_def power_inv_def)
qed

lemma power_inv_section:
  assumes "power_inv s"
  shows "power_inv (fst (state_machine_section now cp s))"
proof -
  define c where "c = (case cp of Some x \<Rightarrow> x | None \<Rightarrow> last_cp_state s)"
  obtain s' ev tc where sw: "state_switch now c s = (s', ev, tc)"
    by (cases "state_switch now c s") auto
  from power_inv_switch [OF assms sw] show ?thesis
    by (simp add: state_machine_section_def Let_def c_def [symmetric] sw power_inv_def)
qed

lemma power_inv_check: "power_inv s \<Longrightarrow> power_inv (check_connector_lock s)"
  by (simp add: power_inv_def)

lemma power_inv_force_unlock: "power_inv s \<Longrightarrow> power_inv (connector_force_unlock s)"
  by (simp add: connector_force_unlock_def Let_def)
    (intro conjI impI; (rule power_inv_check)?; simp add: power_inv_def emit_def)

lemma power_inv_atomic:
  assumes "power_inv s"
  shows "power_inv (atomic s a)"
  using assms
  by (cases a)
    (simp_all add: power_inv_section power_inv_force_unlock,
     auto simp: power_inv_def iec_plain_section_defs relais_event_def set_pp_section_def
       captive_lock_debounce_reached_def set_keep_cable_locked_section_def
       split: option.split)

interpretation iec_power: machine_invariant atomic "IECStateMachine lock_b use_auth keep delay" power_inv
  for lock_b use_auth keep delay
proof
  show "power_inv (IECStateMachine lock_b use_auth keep delay)"
    by (simp add: power_inv_def IECStateMachine_def)
qed (rule power_inv_atomic)


subsection \<open>New calls of a step\<close>

text \<open>\<open>emits Q s s'\<close>: from \<open>s\<close> to \<open>s'\<close> only calls that satisfy \<open>Q\<close> were made.\<close>

definition emits :: "(iec_call \<Rightarrow> bool) \<Rightarrow> iec \<Rightarrow> iec \<Rightarrow> bool" where
  "emits Q s s' \<longleftrightarrow> (\<exists>cs. trace s' = trace s @ cs \<and> (\<forall>c \<in> set cs. Q c))"

definition new_calls :: "iec \<Rightarrow> iec \<Rightarrow> iec_call list" where
  "new_calls s s' = drop (length (trace s)) (trace s')"

lemma emits_new_calls: "emits Q s s' \<Longrightarrow> c \<in> set (new_calls s s') \<Longrightarrow> Q c"
  by (auto simp: emits_def new_calls_def)

lemma emits_same: "trace s' = trace s \<Longrightarrow> emits Q s s'"
  by (simp add: emits_def)

lemma emits_one: "trace s' = trace s @ [c] \<Longrightarrow> Q c \<Longrightarrow> emits Q s s'"
  by (simp add: emits_def)

lemma emits_two: "trace s' = trace s @ [c, d] \<Longrightarrow> Q c \<Longrightarrow> Q d \<Longrightarrow> emits Q s s'"
  by (simp add: emits_def)

lemma emits_trans: "emits Q s s' \<Longrightarrow> emits Q s' s'' \<Longrightarrow> emits Q s s''"
  by (auto simp: emits_def)

lemma trace_helpers:
  "trace (connector_lock s) = trace s"
  "trace (connector_unlock s) = trace s"
  "trace (call_allow_power_on_bsp v s) =
     trace s @ [Call_allow_power_on v (if v then power_on_reason s else Reason_PowerOff)]"
  by (simp_all add: iec_helper_defs Let_def)

text \<open>A permission to switch on is only ever given with the permission of the charger, under PWM.\<close>

definition power_on_guarded :: "iec \<Rightarrow> iec_call \<Rightarrow> bool" where
  "power_on_guarded s c \<longleftrightarrow>
     (\<forall>r. c = Call_allow_power_on True r \<longrightarrow>
        pwm_running s \<and> power_on_allowed s \<and> r = power_on_reason s)"

definition no_power_on :: "iec_call \<Rightarrow> bool" where
  "no_power_on c \<longleftrightarrow> (\<forall>r. c \<noteq> Call_allow_power_on True r)"

lemma emits_mono: "emits Q s s' \<Longrightarrow> (\<And>c. Q c \<Longrightarrow> Q' c) \<Longrightarrow> emits Q' s s'"
  by (auto simp: emits_def)

lemma emits_check: "emits no_power_on s (check_connector_lock s)"
  by (auto simp: check_connector_lock_def emits_def emit_def Let_def no_power_on_def)

lemma emits_reset_X1: "emits no_power_on s (reset_X1_unless_F s)"
  by (auto simp: emits_def iec_helper_defs no_power_on_def)

lemma branch_no_power_on:
  "emits no_power_on s (fst (branch_Disabled s))"
  "emits no_power_on s (fst (branch_A s))"
  "emits no_power_on s (fst (branch_B s))"
  "emits no_power_on s (fst (branch_E s))"
  "emits no_power_on s (fst (branch_F now s))"
  by (auto simp: branch_defs branch_part_defs iec_helper_defs Let_def emits_def no_power_on_def)

lemma branch_C_guarded: "emits (power_on_guarded s) s (fst (branch_C now s))"
proof -
  define s1 where "s1 = C_note_plug_in (connector_lock s)"
  define s2 where "s2 = C_resume_power s1"
  define s3 where "s3 = C_timeout_power_off now s2"
  have s1: "trace s1 = trace s" "pwm_running s1 = pwm_running s"
    "power_on_allowed s1 = power_on_allowed s" "power_on_reason s1 = power_on_reason s"
    by (simp_all add: s1_def C_note_plug_in_def connector_lock_def)
  have e2: "emits (power_on_guarded s) s1 s2"
    using s1 by (auto simp: s2_def C_resume_power_def emits_def trace_helpers power_on_guarded_def)
  have s2: "pwm_running s2 = pwm_running s" "power_on_allowed s2 = power_on_allowed s"
    "power_on_reason s2 = power_on_reason s"
    using s1 by (auto simp: s2_def C_resume_power_def)
  have e3: "emits (power_on_guarded s) s2 s3"
    by (auto simp: s3_def C_timeout_power_off_def emits_def trace_helpers power_on_guarded_def)
  have s3: "pwm_running s3 = pwm_running s" "power_on_allowed s3 \<Longrightarrow> power_on_allowed s"
    "power_on_allowed s3 \<Longrightarrow> power_on_reason s3 = power_on_reason s"
    using s2 by (auto simp: s3_def C_timeout_power_off_def split: if_splits)
  have e4: "emits (power_on_guarded s) s3 (C_power_on s3)"
    using s3 by (auto simp: C_power_on_def emits_def trace_helpers power_on_guarded_def)
  have "fst (branch_C now s) = C_power_on s3"
    by (simp add: branch_C_def Let_def s1_def s2_def s3_def)
  with emits_same [OF s1(1)] e2 e3 e4 show ?thesis
    by (auto intro: emits_trans)
qed

lemma branch_D_guarded:
  "emits (power_on_guarded s) s (fst (branch_D now s))"
  "\<not> has_ventilation s \<Longrightarrow> emits no_power_on s (fst (branch_D now s))"
proof -
  have "emits (power_on_guarded s) s (fst (branch_C now (connector_lock s)))"
    using branch_C_guarded [of "connector_lock s" now]
    by (auto simp: emits_def power_on_guarded_def connector_lock_def)
  then show "emits (power_on_guarded s) s (fst (branch_D now s))"
    by (auto simp: branch_D_def emits_def trace_helpers power_on_guarded_def Let_def)
  show "\<not> has_ventilation s \<Longrightarrow> emits no_power_on s (fst (branch_D now s))"
    by (auto simp: branch_D_def emits_def iec_helper_defs no_power_on_def Let_def)
qed

definition power_on_justified :: "RawCPState \<Rightarrow> iec \<Rightarrow> iec_call \<Rightarrow> bool" where
  "power_on_justified cp s c \<longleftrightarrow>
     (\<forall>r. c = Call_allow_power_on True r \<longrightarrow>
        pwm_running s \<and> power_on_allowed s \<and> r = power_on_reason s
        \<and> (cp = CP_C \<or> (cp = CP_D \<and> has_ventilation s)))"

lemma no_power_on_justified: "no_power_on c \<Longrightarrow> power_on_justified cp s c"
  by (simp add: no_power_on_def power_on_justified_def)

lemma state_switch_justified:
  "emits (power_on_justified cp s) s (fst (state_switch now cp s))"
proof (cases cp)
  case CP_C
  show ?thesis unfolding CP_C state_switch_def
    by (simp, rule emits_mono [OF branch_C_guarded])
      (simp add: power_on_justified_def power_on_guarded_def)
next
  case CP_D
  show ?thesis
  proof (cases "has_ventilation s")
    case True
    then show ?thesis unfolding CP_D state_switch_def
      by (simp, intro emits_mono [OF branch_D_guarded(1)])
        (simp add: power_on_justified_def power_on_guarded_def)
  next
    case False
    then show ?thesis unfolding CP_D state_switch_def
      by (simp, intro emits_mono [OF branch_D_guarded(2)] no_power_on_justified)
  qed
qed (auto simp: state_switch_def intro: emits_mono [OF branch_no_power_on(1) no_power_on_justified]
       emits_mono [OF branch_no_power_on(2) no_power_on_justified]
       emits_mono [OF branch_no_power_on(3) no_power_on_justified]
       emits_mono [OF branch_no_power_on(4) no_power_on_justified]
       emits_mono [OF branch_no_power_on(5) no_power_on_justified])

lemma section_justified:
  "emits (power_on_justified (case cp of Some x \<Rightarrow> x | None \<Rightarrow> last_cp_state s) s) s
     (fst (state_machine_section now cp s))"
proof -
  define c where "c = (case cp of Some x \<Rightarrow> x | None \<Rightarrow> last_cp_state s)"
  obtain s' ev tc where sw: "state_switch now c s = (s', ev, tc)"
    by (cases "state_switch now c s") auto
  have "emits (power_on_justified c s) s s'"
    using state_switch_justified [of c s now] by (simp add: sw)
  moreover have "emits (power_on_justified c s) s' (check_connector_lock s')"
    by (rule emits_mono [OF emits_check no_power_on_justified])
  ultimately have "emits (power_on_justified c s) s (check_connector_lock s')"
    by (rule emits_trans)
  then show ?thesis
    by (simp add: state_machine_section_def Let_def c_def [symmetric] sw emits_def)
qed

lemma force_unlock_no_power_on: "emits no_power_on s (connector_force_unlock s)"
proof -
  define s1 where "s1 = (if keep_cable_locked s
               then (if pp_ampacity s > 0 then s\<lparr>captive_unlock_window := True\<rparr> else s)
                    \<lparr>captive_latched := False\<rparr>
               else s)"
  define s2 where
    "s2 = (if \<not> relais_on s1 then (emit Signal_unlock s1)\<lparr>is_locked := False\<rparr> else s1)"
  have "emits no_power_on s s2"
    by (simp add: emits_def s2_def s1_def emit_def no_power_on_def)
  moreover have "emits no_power_on s2 (check_connector_lock (s2\<lparr>force_unlocked := True\<rparr>))"
    using emits_check [of "s2\<lparr>force_unlocked := True\<rparr>"] by (simp add: emits_def)
  ultimately show ?thesis
    by (auto simp: connector_force_unlock_def Let_def s1_def [symmetric] s2_def [symmetric]
        intro: emits_trans)
qed

lemma check_updated_no_power_on:
  "trace s' = trace s \<Longrightarrow> emits no_power_on s (check_connector_lock s')"
  using emits_check [of s'] by (simp add: emits_def)

lemma no_power_on_cp_output: "is_cp_output c \<Longrightarrow> no_power_on c"
  by (cases c) (auto simp: no_power_on_def)

lemma atomic_no_power_on:
  assumes "\<And>now cp. a \<noteq> Do_section now cp"
  shows "emits no_power_on s (atomic s a)"
proof (cases a)
  case (Do_publish_raw cp)
  then show ?thesis
    by (auto simp: publish_raw_cp_state_def emits_def emit_def no_power_on_def split: option.split)
next
  case (Do_cp_output c)
  then show ?thesis by (auto simp: emits_def emit_def no_power_on_cp_output)
qed (use assms in \<open>auto simp: force_unlock_no_power_on check_updated_no_power_on emits_same
       relais_event_def set_pp_section_def captive_lock_debounce_reached_def
       set_keep_cable_locked_section_def Let_def\<close>,
     auto simp: emits_def iec_plain_section_defs no_power_on_def)


subsection \<open>Power off under load\<close>

text \<open>The charger stopped PWM at \<open>t0\<close> and the EV has not left state C.\<close>

definition c1_waiting :: "nat \<Rightarrow> iec \<Rightarrow> bool" where
  "c1_waiting t0 s \<longleftrightarrow>
     last_cp_state s = CP_C \<and> \<not> pwm_running s \<and> \<not> last_pwm_running s \<and>
     timeout_state_c1 s =
       \<lparr>running = True, duration = power_off_under_load_in_c1_timeout, start_time = t0\<rparr>"

text \<open>Everything but a reported change of the pilot state and a new duty cycle.\<close>

fun keeps_c1_waiting :: "iec_input \<Rightarrow> bool" where
  "keeps_c1_waiting (On_bsp_event e) \<longleftrightarrow> e = Bsp_C \<or> e = Bsp_PowerOn \<or> e = Bsp_PowerOff"
| "keeps_c1_waiting (Set_pwm v) \<longleftrightarrow> v \<ge> 1 \<or> v \<le> 0"
| "keeps_c1_waiting _ \<longleftrightarrow> True"

definition c1_view :: "iec \<Rightarrow> RawCPState \<times> bool \<times> bool \<times> AsyncTimeout" where
  "c1_view s = (last_cp_state s, pwm_running s, last_pwm_running s, timeout_state_c1 s)"

lemma c1_view_simps [simp]:
  "c1_view (emit c s) = c1_view s"
  "c1_view (call_allow_power_on_bsp v s) = c1_view s"
  "c1_view (connector_lock s) = c1_view s"
  "c1_view (check_connector_lock s) = c1_view s"
  "c1_view (C_note_plug_in s) = c1_view s"
  by (simp_all add: c1_view_def iec_helper_defs check_connector_lock_def C_note_plug_in_def Let_def)

lemma c1_view_parts [simp]:
  "c1_view (C_resume_power s) = c1_view s"
  "c1_view (C_timeout_power_off now s) = c1_view s"
  "c1_view (C_power_on s) = c1_view s"
  "c1_view (publish_raw_cp_state cp s) = c1_view s"
  "c1_view (relais_event e s) = c1_view s"
  by (simp_all add: C_resume_power_def C_timeout_power_off_def C_power_on_def
      publish_raw_cp_state_def relais_event_def Let_def split: option.split)
    (simp_all add: c1_view_def)

lemma c1_view_signal_events [simp]: "c1_view (signal_events es s) = c1_view s"
  by (induction es arbitrary: s) simp_all

lemma power_signal_events [simp]:
  "power_permitted (trace (signal_events es s)) = power_permitted (trace s)"
  "power_on_allowed (signal_events es s) = power_on_allowed s"
  by (induction es arbitrary: s) (simp_all add: emit_def)

lemma power_publish_raw [simp]:
  "power_permitted (trace (publish_raw_cp_state cp s)) = power_permitted (trace s)"
  "power_on_allowed (publish_raw_cp_state cp s) = power_on_allowed s"
  by (simp_all add: publish_raw_cp_state_def emit_def split: option.split)

lemma c1_waiting_view:
  "c1_waiting t0 s \<longleftrightarrow> c1_view s =
     (CP_C, False, False,
      \<lparr>running = True, duration = power_off_under_load_in_c1_timeout, start_time = t0\<rparr>)"
  by (auto simp: c1_waiting_def c1_view_def)

lemma c1_waiting_emit [simp]: "c1_waiting t0 (emit c s) \<longleftrightarrow> c1_waiting t0 s"
  by (simp add: c1_waiting_view)

lemma branch_C_c1_view: "c1_view (fst (branch_C now s)) = c1_view s"
  by (simp add: branch_C_def Let_def)

text \<open>With PWM off, the only thing state C can still do is to switch off.\<close>

lemma branch_C_pwm_off:
  assumes "\<not> pwm_running s" and "reached now (timeout_state_c1 s)"
  shows "\<not> power_permitted (trace (fst (branch_C now s)))"
    and "\<not> power_on_allowed (fst (branch_C now s))"
proof -
  define s1 where "s1 = C_note_plug_in (connector_lock s)"
  have view: "c1_view s1 = c1_view s" by (simp add: s1_def)
  with assms have s1: "\<not> pwm_running s1" "reached now (timeout_state_c1 s1)"
    by (simp_all add: c1_view_def)
  then have "fst (branch_C now s) = call_allow_power_on_bsp False s1"
    by (simp add: branch_C_def Let_def s1_def [symmetric] C_resume_power_def
        C_timeout_power_off_def C_power_on_def)
  then show "\<not> power_permitted (trace (fst (branch_C now s)))"
    and "\<not> power_on_allowed (fst (branch_C now s))" by simp_all
qed

lemma feed_in_C:
  assumes "last_cp_state s = CP_C" and "cp = None \<or> cp = Some CP_C"
  shows "\<exists>ev. feed_state_machine now cp s =
    signal_events ev (publish_raw_cp_state cp
      (control_timers now (snd (snd (branch_C now s))) Timer_do_nothing
        ((check_connector_lock (fst (branch_C now s)))
           \<lparr>last_cp_state := CP_C,
             last_pwm_running := pwm_running (fst (branch_C now s)),
             last_power_on_allowed := power_on_allowed (fst (branch_C now s))\<rparr>)))"
proof -
  have "(case cp of Some c \<Rightarrow> c | None \<Rightarrow> last_cp_state s) = CP_C"
    using assms by auto
  then show ?thesis
    using assms(1)
    by (cases "branch_C now s")
      (auto simp: feed_state_machine_def state_machine_def state_machine_section_def
        state_switch_def unlock_F_timer_control_def Let_def)
qed

lemma feed_c1_waiting:
  assumes w: "c1_waiting t0 s" and cp: "cp = None \<or> cp = Some CP_C"
  shows "c1_waiting t0 (feed_state_machine now cp s)"
    and "t0 + power_off_under_load_in_c1_timeout < now \<Longrightarrow>
      \<not> power_permitted (trace (feed_state_machine now cp s))
      \<and> \<not> power_on_allowed (feed_state_machine now cp s)"
proof -
  from w have last: "last_cp_state s = CP_C" by (simp add: c1_waiting_def)
  from feed_in_C [OF last cp, of now] obtain ev where feed:
    "feed_state_machine now cp s =
      signal_events ev (publish_raw_cp_state cp
        (control_timers now (snd (snd (branch_C now s))) Timer_do_nothing
          ((check_connector_lock (fst (branch_C now s)))
             \<lparr>last_cp_state := CP_C,
               last_pwm_running := pwm_running (fst (branch_C now s)),
               last_power_on_allowed := power_on_allowed (fst (branch_C now s))\<rparr>)))" ..
  have tc: "snd (snd (branch_C now s)) = Timer_do_nothing"
    using w by (simp add: branch_C_def Let_def c1_waiting_def)
  have "c1_view (check_connector_lock (fst (branch_C now s))) = c1_view s"
    by (simp add: branch_C_c1_view)
  with w show "c1_waiting t0 (feed_state_machine now cp s)"
    by (simp add: feed tc c1_waiting_view)
      (simp add: c1_view_def control_timers_def control_timer_def)
  show "t0 + power_off_under_load_in_c1_timeout < now \<Longrightarrow>
      \<not> power_permitted (trace (feed_state_machine now cp s))
      \<and> \<not> power_on_allowed (feed_state_machine now cp s)"
    using w branch_C_pwm_off [of s now]
    by (simp add: feed control_timers_def c1_waiting_def reached_def)
qed


lemma c1_waiting_set_cp_state:
  assumes "c1_waiting t0 s"
  shows "c1_waiting t0 (set_cp_state_X1 now s)" "c1_waiting t0 (set_cp_state_F now s)"
    "c1_waiting t0 (set_cp_state_E now s)"
proof -
  from assms have "c1_waiting t0 (cp_output_off_flags b s)" "c1_waiting t0 (state_E_flags s)" for b
    by (simp_all add: c1_waiting_def cp_output_off_flags_def state_E_flags_def)
  then show "c1_waiting t0 (set_cp_state_X1 now s)" "c1_waiting t0 (set_cp_state_F now s)"
    "c1_waiting t0 (set_cp_state_E now s)"
    by (simp_all add: set_cp_state_X1_def set_cp_state_F_def set_cp_state_E_def Let_def
        feed_c1_waiting(1))
qed

lemma c1_waiting_bsp_event:
  assumes "c1_waiting t0 s" and "e = Bsp_C \<or> e = Bsp_PowerOn \<or> e = Bsp_PowerOff"
  shows "c1_waiting t0 (on_bsp_event now e s)"
  using assms(2)
proof (elim disjE)
  assume "e = Bsp_C"
  with assms(1) show ?thesis
    by (simp add: on_bsp_event_def process_bsp_event_def from_bsp_event_def feed_c1_waiting(1))
qed (use assms(1) in \<open>simp_all add: on_bsp_event_def process_bsp_event_def from_bsp_event_def
      c1_waiting_view\<close>)

lemma c1_waiting_lock_ops:
  "c1_waiting t0 s \<Longrightarrow> c1_waiting t0 (set_pp_ampacity now pp s)"
  "c1_waiting t0 s \<Longrightarrow> c1_waiting t0 (set_keep_cable_locked en s)"
  "c1_waiting t0 s \<Longrightarrow> c1_waiting t0 (captive_lock_debounce_reached s)"
  "c1_waiting t0 s \<Longrightarrow> c1_waiting t0 (connector_force_unlock s)"
  by (auto simp: c1_waiting_def set_pp_ampacity_def set_pp_section_def control_captive_timer_def
      set_keep_cable_locked_def set_keep_cable_locked_section_def captive_lock_debounce_reached_def
      connector_force_unlock_def emit_def Let_def)

lemma c1_waiting_step:
  assumes w: "c1_waiting t0 s" and k: "keeps_c1_waiting i"
  shows "c1_waiting t0 (iec_step s (now, i))"
proof (cases i)
  case (On_bsp_event e)
  with assms show ?thesis by (simp add: c1_waiting_bsp_event)
next
  case (Set_pwm v)
  with assms show ?thesis by (auto simp: set_pwm_def c1_waiting_set_cp_state)
next
  case (Allow_power_on v r)
  have "c1_waiting t0 (allow_power_on_flags v r s)"
    using w by (simp add: allow_power_on_flags_def c1_waiting_def call_allow_power_on_bsp_def
        emit_def Let_def)
  with Allow_power_on show ?thesis by (simp add: allow_power_on_def feed_c1_waiting(1))
next
  case (Set_authorized a)
  have "c1_waiting t0 (s\<lparr>authorized := a\<rparr>)" using w by (simp add: c1_waiting_def)
  with Set_authorized w show ?thesis by (simp add: set_authorized_def feed_c1_waiting(1))
qed (use w in \<open>simp_all add: c1_waiting_set_cp_state c1_waiting_lock_ops feed_c1_waiting(1)\<close>,
     simp_all add: c1_waiting_def switch_three_phases_while_charging_def iec_setup_def enable_def
       set_overcurrent_limit_def set_max_phases_def set_ev_simplified_mode_evse_limit_def emit_def)

lemma c1_waiting_run:
  "c1_waiting t0 s \<Longrightarrow> list_all (\<lambda>(now, i). keeps_c1_waiting i) ins \<Longrightarrow>
   c1_waiting t0 (run iec_step s ins)"
  by (induction ins arbitrary: s) (auto simp: c1_waiting_step)

lemma set_cp_state_X1_starts_c1:
  assumes "last_cp_state s = CP_C" and "last_pwm_running s"
  shows "c1_waiting t0 (set_cp_state_X1 t0 s)"
proof -
  define s1 where
    "s1 = emit (Signal_pwm_duty_cycle 100) (emit Call_cp_state_X1 (cp_output_off_flags False s))"
  have s1: "last_cp_state s1 = CP_C" "\<not> pwm_running s1" "last_pwm_running s1"
    using assms by (simp_all add: s1_def emit_def cp_output_off_flags_def)
  have tc: "snd (snd (branch_C t0 s1)) = Timer_start"
    using s1 by (simp add: branch_C_def Let_def)
  have view: "c1_view (fst (branch_C t0 s1)) = c1_view s1" by (rule branch_C_c1_view)
  from feed_in_C [OF s1(1), of None t0] view s1(2) tc
  show ?thesis
    by (auto simp: set_cp_state_X1_def s1_def [symmetric] Let_def c1_waiting_view)
      (simp_all add: c1_view_def control_timers_def control_timer_def timer_start_def
        publish_raw_cp_state_def)
qed


subsection \<open>Order of the published signals\<close>

definition internal_call :: "iec_call \<Rightarrow> bool" where
  "internal_call c \<longleftrightarrow> (\<forall>e. c \<noteq> Signal_event e) \<and> (\<forall>r. c \<noteq> Signal_raw_cp_state_changed r)"

lemma internal_parts:
  "emits internal_call s (check_connector_lock s)"
  "emits internal_call s (fst (branch_Disabled s))"
  "emits internal_call s (fst (branch_A s))"
  "emits internal_call s (fst (branch_B s))"
  "emits internal_call s (fst (branch_E s))"
  "emits internal_call s (fst (branch_F now s))"
  by (auto simp: check_connector_lock_def branch_defs branch_part_defs iec_helper_defs Let_def
      emits_def internal_call_def)

lemma internal_C_parts:
  "emits internal_call s (C_note_plug_in (connector_lock s))"
  "emits internal_call s (C_resume_power s)"
  "emits internal_call s (C_timeout_power_off now s)"
  "emits internal_call s (C_power_on s)"
  by (auto simp: branch_part_defs iec_helper_defs Let_def emits_def internal_call_def)

lemma internal_branch_C: "emits internal_call s (fst (branch_C now s))"
  unfolding branch_C_def Let_def fst_conv by (intro emits_trans [OF _ internal_C_parts(4)]
      emits_trans [OF _ internal_C_parts(3)] emits_trans [OF _ internal_C_parts(2)]
      internal_C_parts(1))

lemma internal_branch_D: "emits internal_call s (fst (branch_D now s))"
  using internal_branch_C [of "connector_lock s" now]
  by (auto simp: branch_D_def Let_def emits_def trace_helpers internal_call_def)

lemma internal_section: "emits internal_call s (fst (state_machine_section now cp s))"
proof -
  define c where "c = (case cp of Some x \<Rightarrow> x | None \<Rightarrow> last_cp_state s)"
  obtain s' ev tc where sw: "state_switch now c s = (s', ev, tc)"
    by (cases "state_switch now c s") auto
  have "emits internal_call s (fst (state_switch now c s))"
    by (cases c) (simp_all add: state_switch_def internal_parts internal_branch_C internal_branch_D)
  then have "emits internal_call s (check_connector_lock s')"
    unfolding sw fst_conv by (rule emits_trans [OF _ internal_parts(1)])
  then show ?thesis
    by (simp add: state_machine_section_def Let_def c_def [symmetric] sw emits_def)
qed

lemma trace_signal_events: "trace (signal_events es s) = trace s @ map Signal_event es"
  by (induction es arbitrary: s) (simp_all add: emit_def)

subsection \<open>Properties\<close>

text \<open>
  C1. While the driver reports closed relais, the connector is locked: in every state reached by
  any interleaving of the atomic sections, closed relais imply that the lock is engaged and that
  the last command given to the lock motor was to lock.
\<close>

theorem relais_closed_connector_locked:
  assumes "reach atomic (IECStateMachine lock_b use_auth keep delay) s"
    and "relais_on s"
  shows "is_locked s \<and> lock_commanded (trace s)"
  using iec_lock.inv_reach [OF assms(1)] assms(2) by (simp add: lock_inv_def)

definition demo_relais :: iec where
  "demo_relais = run atomic (IECStateMachine True False False 500)
     [Do_section 0 (Some CP_B), Do_relais_event PowerOn, Do_force_unlock]"

theorem relais_closed_connector_locked_witness:
  "relais_on demo_relais \<and> is_locked demo_relais \<and> lock_commanded (trace demo_relais)"
proof -
  have r: "reach atomic (IECStateMachine True False False 500) demo_relais"
    unfolding demo_relais_def by (rule reach_run [OF reach.reach_init])
  have on: "relais_on demo_relais" by code_simp
  show ?thesis using relais_closed_connector_locked [OF r on] on by simp
qed


text \<open>
  C2. The permission to close the contactors is held only while the EV asks for power: in every
  reachable state, if the last \<open>allow_power_on\<close> the driver received was true, the last measured
  control pilot state is C or D. Unplugging, a fault state and a disabled pilot therefore always
  leave the driver with power off.
\<close>

theorem power_permission_only_in_C_or_D:
  assumes "reach atomic (IECStateMachine lock_b use_auth keep delay) s"
    and "power_permitted (trace s)"
  shows "last_cp_state s = CP_C \<or> last_cp_state s = CP_D"
  using iec_power.inv_reach [OF assms(1)] assms(2) by (simp add: power_inv_def)

definition demo_power :: iec where
  "demo_power = run atomic (IECStateMachine True False False 500)
     [Do_section 0 (Some CP_B), Do_pwm_on_flags, Do_section 0 None,
      Do_allow_power_on_flags True FullPowerCharging, Do_section 1 (Some CP_C)]"

theorem power_permission_only_in_C_or_D_witness:
  "power_permitted (trace demo_power) \<and>
   (last_cp_state demo_power = CP_C \<or> last_cp_state demo_power = CP_D)"
proof -
  have r: "reach atomic (IECStateMachine True False False 500) demo_power"
    unfolding demo_power_def by (rule reach_run [OF reach.reach_init])
  have p: "power_permitted (trace demo_power)" by code_simp
  show ?thesis using power_permission_only_in_C_or_D [OF r p] p by simp
qed

text \<open>
  C3. Every single permission to switch on is justified at the moment it is given: it comes from
  the state machine section, in state C or in state D of a ventilated installation, with PWM
  running, with the permission of the charger and with the charger's reason.
\<close>

theorem power_on_call_justified:
  assumes "Call_allow_power_on True r \<in> set (new_calls s (atomic s a))"
  shows "\<exists>now cp. a = Do_section now cp \<and> pwm_running s \<and> power_on_allowed s
    \<and> r = power_on_reason s
    \<and> (case cp of Some x \<Rightarrow> x | None \<Rightarrow> last_cp_state s) \<in> {CP_C, CP_D}
    \<and> ((case cp of Some x \<Rightarrow> x | None \<Rightarrow> last_cp_state s) = CP_D \<longrightarrow> has_ventilation s)"
proof -
  have "\<exists>now cp. a = Do_section now cp"
  proof (rule ccontr)
    assume "\<nexists>now cp. a = Do_section now cp"
    then have "emits no_power_on s (atomic s a)" by (intro atomic_no_power_on) blast
    from emits_new_calls [OF this assms] show False by (simp add: no_power_on_def)
  qed
  then obtain now cp where a: "a = Do_section now cp" by blast
  with assms have "Call_allow_power_on True r
      \<in> set (new_calls s (fst (state_machine_section now cp s)))" by simp
  from emits_new_calls [OF section_justified this] a show ?thesis
    by (auto simp: power_on_justified_def)
qed

definition demo_ready :: iec where
  "demo_ready = run atomic (IECStateMachine True False False 500)
     [Do_section 0 (Some CP_B), Do_pwm_on_flags, Do_section 0 None,
      Do_allow_power_on_flags True FullPowerCharging]"

theorem power_on_call_justified_witness:
  "\<exists>now cp. Do_section 1 (Some CP_C) = Do_section now cp \<and> pwm_running demo_ready
    \<and> power_on_allowed demo_ready \<and> FullPowerCharging = power_on_reason demo_ready
    \<and> (case cp of Some x \<Rightarrow> x | None \<Rightarrow> last_cp_state demo_ready) \<in> {CP_C, CP_D}
    \<and> ((case cp of Some x \<Rightarrow> x | None \<Rightarrow> last_cp_state demo_ready) = CP_D
        \<longrightarrow> has_ventilation demo_ready)"
proof (rule power_on_call_justified)
  show "Call_allow_power_on True FullPowerCharging
      \<in> set (new_calls demo_ready (atomic demo_ready (Do_section 1 (Some CP_C))))"
    by code_simp
qed

text \<open>
  C15. Power off under load (IEC 61851-1 table A.6, sequence 10.2): the EV charges in state C, the
  charger switches PWM off at \<open>t0\<close> and the EV ignores it. Whatever else is called in between,
  short of a changed pilot state or a new duty cycle, the timer handler that runs more than six
  seconds later withdraws the permission from the driver.
\<close>

theorem power_off_under_load:
  assumes "last_cp_state s = CP_C" and "last_pwm_running s"
    and "list_all (\<lambda>(now, i). keeps_c1_waiting i) ins"
    and "t0 + power_off_under_load_in_c1_timeout < t"
  shows "\<not> power_permitted (trace
           (iec_step (run iec_step (set_cp_state_X1 t0 s) ins) (t, Timer_c1_reached)))
    \<and> \<not> power_on_allowed
           (iec_step (run iec_step (set_cp_state_X1 t0 s) ins) (t, Timer_c1_reached))"
proof -
  have w: "c1_waiting t0 (run iec_step (set_cp_state_X1 t0 s) ins)"
    by (rule c1_waiting_run [OF set_cp_state_X1_starts_c1 [OF assms(1,2)] assms(3)])
  with assms(4) have "reached t (timeout_state_c1 (run iec_step (set_cp_state_X1 t0 s) ins))"
    by (simp add: c1_waiting_def reached_def)
  with feed_c1_waiting(2) [OF w _ assms(4)] show ?thesis by simp
qed

theorem power_off_under_load_witness:
  "power_permitted (trace demo_power) \<and>
   \<not> power_permitted (trace (iec_step
        (run iec_step (set_cp_state_X1 10 demo_power) [(20, On_bsp_event Bsp_C)])
        (7000, Timer_c1_reached))) \<and>
   \<not> power_on_allowed (iec_step
        (run iec_step (set_cp_state_X1 10 demo_power) [(20, On_bsp_event Bsp_C)])
        (7000, Timer_c1_reached))"
proof -
  have "last_cp_state demo_power = CP_C" by code_simp
  moreover have "last_pwm_running demo_power" by code_simp
  moreover have "list_all (\<lambda>(now, i). keeps_c1_waiting i) [(20::nat, On_bsp_event Bsp_C)]"
    by simp
  moreover have "10 + power_off_under_load_in_c1_timeout < (7000::nat)"
    by (simp add: power_off_under_load_in_c1_timeout_def)
  ultimately have "\<not> power_permitted (trace (iec_step
        (run iec_step (set_cp_state_X1 10 demo_power) [(20, On_bsp_event Bsp_C)])
        (7000, Timer_c1_reached))) \<and>
   \<not> power_on_allowed (iec_step
        (run iec_step (set_cp_state_X1 10 demo_power) [(20, On_bsp_event Bsp_C)])
        (7000, Timer_c1_reached))"
    by (rule power_off_under_load)
  moreover have "power_permitted (trace demo_power)" by code_simp
  ultimately show ?thesis by blast
qed

text \<open>
  C18. A captive cable stays locked: once the captive mode has latched a seated plug, only a force
  unlock or a change of the mode can release it. Every other atomic section keeps the latch and
  the lock, and the captive unlock window is open only while a plug is present.
\<close>

theorem captive_cable_held:
  assumes "reach atomic (IECStateMachine lock_b use_auth keep delay) s"
    and "captive_latched s"
    and "a \<noteq> Do_force_unlock" and "\<forall>en. a \<noteq> Do_set_keep_cable_locked_section en"
  shows "captive_latched (atomic s a) \<and> is_locked (atomic s a)
    \<and> (captive_unlock_window (atomic s a) \<longrightarrow> pp_ampacity (atomic s a) > 0)"
proof -
  have "captive_latched (fst (state_machine_section now cp s))" for now cp
  proof -
    define c where "c = (case cp of Some x \<Rightarrow> x | None \<Rightarrow> last_cp_state s)"
    obtain s' ev tc where sw: "state_switch now c s = (s', ev, tc)"
      by (cases "state_switch now c s") auto
    then show ?thesis
      using assms(2)
      by (simp add: state_machine_section_def Let_def c_def [symmetric] check_connector_lock_latched
          state_switch_frame [OF sw])
  qed
  with assms(2-4) have "captive_latched (atomic s a)"
    by (cases a) (auto simp: iec_plain_section_defs relais_event_def set_pp_section_def
        captive_lock_debounce_reached_def check_connector_lock_latched split: option.split)
  moreover have "lock_inv (atomic s a)"
    by (rule lock_inv_atomic [OF iec_lock.inv_reach [OF assms(1)]])
  ultimately show ?thesis by (simp add: lock_inv_def)
qed

definition demo_captive :: iec where
  "demo_captive = run atomic (IECStateMachine False False True 0)
     [Do_set_pp_section A_32, Do_section 0 (Some CP_A)]"

theorem captive_cable_held_witness:
  "captive_latched demo_captive
   \<and> captive_latched (atomic demo_captive (Do_set_pp_section Ampacity_None))
   \<and> is_locked (atomic demo_captive (Do_set_pp_section Ampacity_None))"
proof -
  have r: "reach atomic (IECStateMachine False False True 0) demo_captive"
    unfolding demo_captive_def by (rule reach_run [OF reach.reach_init])
  have l: "captive_latched demo_captive" by code_simp
  show ?thesis
    using captive_cable_held [OF r l, of "Do_set_pp_section Ampacity_None"] l by simp
qed

text \<open>
  C36. The raw control pilot state is published before the events derived from it: the calls of one
  \<open>feed_state_machine\<close> are the driver and lock calls of the section, then the raw state if it
  changed, then the events.
\<close>

theorem raw_state_published_before_events:
  "\<exists>cs events. new_calls s (feed_state_machine now (Some c) s) =
      cs @ (if c \<noteq> signalled_raw_cp_state s then [Signal_raw_cp_state_changed c] else [])
         @ map Signal_event events
    \<and> list_all internal_call cs"
proof -
  obtain s1 events tC1 tF where sec: "state_machine_section now (Some c) s = (s1, events, tC1, tF)"
    by (cases "state_machine_section now (Some c) s") auto
  from internal_section [of s now "Some c"] obtain cs where
    cs: "trace s1 = trace s @ cs" "list_all internal_call cs"
    by (auto simp: emits_def sec list_all_iff)
  have "signalled_raw_cp_state (fst (state_machine_section now (Some c) s)) = signalled_raw_cp_state s"
  proof -
    obtain s' ev tc where sw: "state_switch now c s = (s', ev, tc)"
      by (cases "state_switch now c s") auto
    then show ?thesis
      by (simp add: state_machine_section_def Let_def state_switch_frame [OF sw])
  qed
  then have sig: "signalled_raw_cp_state s1 = signalled_raw_cp_state s" by (simp add: sec)
  have "trace (feed_state_machine now (Some c) s) =
      trace s @ cs
        @ (if c \<noteq> signalled_raw_cp_state s then [Signal_raw_cp_state_changed c] else [])
        @ map Signal_event events"
    by (simp add: feed_state_machine_def state_machine_def sec trace_signal_events
        publish_raw_cp_state_def emit_def control_timers_def cs(1) sig)
  then have "new_calls s (feed_state_machine now (Some c) s) =
      cs @ (if c \<noteq> signalled_raw_cp_state s then [Signal_raw_cp_state_changed c] else [])
        @ map Signal_event events"
    by (simp add: new_calls_def)
  with cs(2) show ?thesis by blast
qed

end
