(* ===== verification/Auth_Types.thy ===== *)
theory Auth_Types
  imports Prelude
begin

text \<open>
  The data of the authorization module (\<^verbatim>\<open>src/modules/EVSE/Auth\<close>): the types the build
  generates from \<^verbatim>\<open>src/types/authorization.yaml\<close>, \<^verbatim>\<open>reservation.yaml\<close> and
  \<^verbatim>\<open>evse_manager.yaml\<close>, and the case insensitive comparison of
  \<^verbatim>\<open>src/lib/everest/helpers/src/helpers.cpp\<close>.

  Representation. Machine integers that are only compared and stored are \<open>int\<close>; the casts between
  \<open>int32_t\<close> and \<open>uint32_t\<close> are written out (\<open>to_u32\<close>, \<open>to_s32\<close>). Time points are integers, with
  the RFC 3339 text already read. Fields that no code of the module reads and that are only passed
  on (certificates and their hash data, energy transfer modes) are left out of the token and of the
  validation result; a text message is its content.
\<close>

subsection \<open>Casts between signed and unsigned 32 bit integers\<close>

definition to_u32 :: "int \<Rightarrow> int" where
  "to_u32 x = x mod 2 ^ 32"

definition to_s32 :: "int \<Rightarrow> int" where
  "to_s32 x = (x + 2 ^ 31) mod 2 ^ 32 - 2 ^ 31"

definition s32_range :: "int \<Rightarrow> bool" where
  "s32_range x \<longleftrightarrow> - (2 ^ 31) \<le> x \<and> x < 2 ^ 31"

lemma to_u32_nonneg [simp]: "0 \<le> x \<Longrightarrow> s32_range x \<Longrightarrow> to_u32 x = x"
  by (simp add: to_u32_def s32_range_def)

lemma to_s32_in_range [simp]: "s32_range x \<Longrightarrow> to_s32 x = x"
  by (simp add: to_s32_def s32_range_def)

lemma to_s32_range: "s32_range (to_s32 x)"
  unfolding to_s32_def s32_range_def
  using pos_mod_bound [of "2 ^ 32" "x + 2 ^ 31"] pos_mod_sign [of "2 ^ 32" "x + 2 ^ 31"] by simp

lemma to_s32_to_u32 [simp]: "to_s32 (to_u32 x) = to_s32 x"
  by (simp add: to_s32_def to_u32_def mod_simps)

lemma to_u32_to_s32 [simp]: "to_u32 (to_s32 x) = to_u32 x"
proof -
  have "to_u32 (to_s32 x) = ((x + 2 ^ 31) mod 2 ^ 32 - 2 ^ 31) mod 2 ^ 32"
    by (simp add: to_u32_def to_s32_def)
  also have "\<dots> = (x + 2 ^ 31 - 2 ^ 31) mod 2 ^ 32" by (rule mod_diff_left_eq)
  finally show ?thesis by (simp add: to_u32_def)
qed

subsection \<open>Enumerations\<close>

datatype ConnectorTypeEnum =
    cCCS1 | cCCS2 | cG105 | cMCS | cTesla | cType1 | cType2
  | s309_1P_16A | s309_1P_32A | s309_3P_16A | s309_3P_32A | sBS1361 | sCEE_7_7 | sType2 | sType3
  | Other1PhMax16A | Other1PhOver16A | Other3Ph | Pan | wInductive | wResonant
  | Undetermined | UnknownType

text \<open>The enumerators are compared by their position, as the enumeration type of C++ does.\<close>

primrec connector_type_rank :: "ConnectorTypeEnum \<Rightarrow> nat" where
  "connector_type_rank cCCS1 = 0"
| "connector_type_rank cCCS2 = 1"
| "connector_type_rank cG105 = 2"
| "connector_type_rank cMCS = 3"
| "connector_type_rank cTesla = 4"
| "connector_type_rank cType1 = 5"
| "connector_type_rank cType2 = 6"
| "connector_type_rank s309_1P_16A = 7"
| "connector_type_rank s309_1P_32A = 8"
| "connector_type_rank s309_3P_16A = 9"
| "connector_type_rank s309_3P_32A = 10"
| "connector_type_rank sBS1361 = 11"
| "connector_type_rank sCEE_7_7 = 12"
| "connector_type_rank sType2 = 13"
| "connector_type_rank sType3 = 14"
| "connector_type_rank Other1PhMax16A = 15"
| "connector_type_rank Other1PhOver16A = 16"
| "connector_type_rank Other3Ph = 17"
| "connector_type_rank Pan = 18"
| "connector_type_rank wInductive = 19"
| "connector_type_rank wResonant = 20"
| "connector_type_rank Undetermined = 21"
| "connector_type_rank UnknownType = 22"

lemma connector_type_rank_inject: "connector_type_rank a = connector_type_rank b \<Longrightarrow> a = b"
  by (cases a; cases b; simp)

instantiation ConnectorTypeEnum :: linorder
begin

definition less_eq_ConnectorTypeEnum :: "ConnectorTypeEnum \<Rightarrow> ConnectorTypeEnum \<Rightarrow> bool" where
  "a \<le> b \<longleftrightarrow> connector_type_rank a \<le> connector_type_rank b"

definition less_ConnectorTypeEnum :: "ConnectorTypeEnum \<Rightarrow> ConnectorTypeEnum \<Rightarrow> bool" where
  "a < b \<longleftrightarrow> connector_type_rank a < connector_type_rank b"

instance
  by intro_classes
    (auto simp: less_eq_ConnectorTypeEnum_def less_ConnectorTypeEnum_def
      intro: connector_type_rank_inject)

end

datatype ReservationResult = RAccepted | RFaulted | ROccupied | RRejected | RUnavailable

datatype ReservationEndReason =
  Expired | Cancelled | UsedToStartCharging | GlobalReservationRequirementDropped

datatype ReservationCheckStatus =
  NotReserved | ReservedForToken | ReservedForOtherToken | ReservedForOtherTokenAndHasParentToken

datatype AuthorizationStatus =
    AuthAccepted | Blocked | ConcurrentTx | AuthExpired | Invalid | NoCredit
  | NotAllowedTypeEVSE | NotAtThisLocation | NotAtThisTime | UnknownStatus | PinRequired | Timeout

datatype TokenValidationStatus =
    TokProcessing | TokAccepted | TokRejected | TokTimedOut | TokUsedToStart | TokUsedToStop
  | TokWithdrawn | TokUsedToReauthorize

datatype AuthorizationType = OCPP | RFID | Autocharge | PlugAndCharge | BankCard

datatype IdTokenType =
  Central | eMAID | MacAddress | ISO14443 | ISO15693 | KeyCode | Local | NoAuthorization

datatype SelectionAlgorithm = UserInput | PlugEvents | PlugEventsLIFO | FindFirst

datatype WithdrawAuthorizationResult =
  WAccepted | WAuthorizationNotFound | WEvseNotFound | WRejected

datatype StopTransactionReason = LocalStop | MasterPass | DeAuthorized

subsection \<open>Tokens, validation results, reservations\<close>

record IdToken =
  tok_value :: string
  tok_type :: IdTokenType

record ProvidedIdToken =
  pt_request_id :: "int option"
  pt_id_token :: IdToken
  pt_parent_id_token :: "IdToken option"
  pt_authorization_type :: AuthorizationType
  pt_connectors :: "int list option"
  pt_prevalidated :: "bool option"

record ValidationResult =
  vr_authorization_status :: AuthorizationStatus
  vr_tariff_messages :: "string list"
  vr_expiry_time :: "string option"
  vr_parent_id_token :: "IdToken option"
  vr_evse_ids :: "int list option"
  vr_reservation_id :: "int option"

record WithdrawAuthorizationRequest =
  wr_evse_id :: "int option"
  wr_id_token :: "IdToken option"

record StopTransactionRequest =
  stop_reason :: StopTransactionReason
  stop_id_tag :: "ProvidedIdToken option"

text \<open>
  The expiry time is the time point that \<^verbatim>\<open>Everest::Date::from_rfc3339\<close> gives for the text in the
  request; it gives one for every text.
\<close>

record Reservation =
  res_evse_id :: "int option"
  res_reservation_id :: int
  res_id_token :: string
  res_expiry_time :: int
  res_parent_id_token :: "string option"
  res_connector_type :: "ConnectorTypeEnum option"

text \<open>\<open>value_or(ConnectorTypeEnum::Unknown)\<close> of a reservation's connector type.\<close>

definition requested_type :: "Reservation \<Rightarrow> ConnectorTypeEnum" where
  "requested_type r = (case res_connector_type r of Some t \<Rightarrow> t | None \<Rightarrow> UnknownType)"

subsection \<open>Comparison of tokens\<close>

definition tolower :: "char \<Rightarrow> char" where
  "tolower c = (let n = of_char c :: nat in if 65 \<le> n \<and> n \<le> 90 then char_of (n + 32) else c)"

definition is_equal_case_insensitive :: "string \<Rightarrow> string \<Rightarrow> bool" where
  "is_equal_case_insensitive str1 str2 \<longleftrightarrow>
     length str1 = length str2 \<and> list_all2 (\<lambda>a b. tolower a = tolower b) str1 str2"

definition id_token_equal :: "IdToken \<Rightarrow> IdToken \<Rightarrow> bool" where
  "id_token_equal t1 t2 \<longleftrightarrow>
     is_equal_case_insensitive (tok_value t1) (tok_value t2) \<and> tok_type t1 = tok_type t2"

lemma is_equal_case_insensitive_iff:
  "is_equal_case_insensitive s t \<longleftrightarrow> map tolower s = map tolower t"
proof -
  have "map tolower s = map tolower t \<longleftrightarrow> list_all2 (\<lambda>a b. tolower a = tolower b) s t"
    by (simp flip: list.rel_eq add: list.rel_map)
  then show ?thesis
    by (auto simp: is_equal_case_insensitive_def dest: list_all2_lengthD)
qed

end
