(* ===== verification/Connector.thy ===== *)
theory Connector
  imports Auth_Types
begin

text \<open>
  Connectors and EVSEs of the authorization module:
  \<^verbatim>\<open>ConnectorStateMachine.cpp\<close>, \<^verbatim>\<open>Connector.cpp\<close> and their headers under
  \<^verbatim>\<open>src/modules/EVSE/Auth\<close>.

  The six connector states encode three facts (enabled, faulted, occupied); the refinement lemma
  states what the transition table does in terms of these facts. The EVSE's availability test is
  compared with what it is meant to test.
\<close>

subsection \<open>The connector state machine\<close>

datatype ConnectorEvent =
    ENABLE | DISABLE | ERROR_CLEARED | FAULTED_EVENT | TRANSACTION_STARTED | SESSION_FINISHED

datatype ConnectorState =
    AVAILABLE | UNAVAILABLE | FAULTED | OCCUPIED | UNAVAILABLE_FAULTED | FAULTED_OCCUPIED

primrec connector_state_rank :: "ConnectorState \<Rightarrow> nat" where
  "connector_state_rank AVAILABLE = 0"
| "connector_state_rank UNAVAILABLE = 1"
| "connector_state_rank FAULTED = 2"
| "connector_state_rank OCCUPIED = 3"
| "connector_state_rank UNAVAILABLE_FAULTED = 4"
| "connector_state_rank FAULTED_OCCUPIED = 5"

lemma connector_state_rank_inject: "connector_state_rank a = connector_state_rank b \<Longrightarrow> a = b"
  by (cases a; cases b; simp)

instantiation ConnectorState :: linorder
begin

definition less_eq_ConnectorState :: "ConnectorState \<Rightarrow> ConnectorState \<Rightarrow> bool" where
  "a \<le> b \<longleftrightarrow> connector_state_rank a \<le> connector_state_rank b"

definition less_ConnectorState :: "ConnectorState \<Rightarrow> ConnectorState \<Rightarrow> bool" where
  "a < b \<longleftrightarrow> connector_state_rank a < connector_state_rank b"

instance
  by intro_classes
    (auto simp: less_eq_ConnectorState_def less_ConnectorState_def
      intro: connector_state_rank_inject)

end

text \<open>The next state, and whether the event was handled.\<close>

fun handle_event :: "ConnectorState \<Rightarrow> ConnectorEvent \<Rightarrow> ConnectorState \<times> bool" where
  "handle_event AVAILABLE TRANSACTION_STARTED = (OCCUPIED, True)"
| "handle_event AVAILABLE DISABLE = (UNAVAILABLE, True)"
| "handle_event AVAILABLE FAULTED_EVENT = (FAULTED, True)"
| "handle_event AVAILABLE _ = (AVAILABLE, False)"
| "handle_event UNAVAILABLE ENABLE = (AVAILABLE, True)"
| "handle_event UNAVAILABLE FAULTED_EVENT = (UNAVAILABLE_FAULTED, True)"
| "handle_event UNAVAILABLE _ = (UNAVAILABLE, False)"
| "handle_event FAULTED ERROR_CLEARED = (AVAILABLE, True)"
| "handle_event FAULTED DISABLE = (UNAVAILABLE_FAULTED, True)"
| "handle_event FAULTED _ = (FAULTED, False)"
| "handle_event OCCUPIED SESSION_FINISHED = (AVAILABLE, True)"
| "handle_event OCCUPIED FAULTED_EVENT = (FAULTED_OCCUPIED, True)"
| "handle_event OCCUPIED _ = (OCCUPIED, False)"
| "handle_event FAULTED_OCCUPIED ERROR_CLEARED = (OCCUPIED, True)"
| "handle_event FAULTED_OCCUPIED SESSION_FINISHED = (FAULTED, True)"
| "handle_event FAULTED_OCCUPIED _ = (FAULTED_OCCUPIED, False)"
| "handle_event UNAVAILABLE_FAULTED ENABLE = (FAULTED, True)"
| "handle_event UNAVAILABLE_FAULTED ERROR_CLEARED = (UNAVAILABLE, True)"
| "handle_event UNAVAILABLE_FAULTED _ = (UNAVAILABLE_FAULTED, False)"

subsection \<open>Connectors and EVSE contexts\<close>

record Identifier =
  ident_id_token :: IdToken
  ident_type :: AuthorizationType
  ident_authorization_status :: "AuthorizationStatus option"
  ident_expiry_time :: "string option"
  ident_parent_id_token :: "IdToken option"

record Connector =
  conn_id :: int
  conn_transaction_active :: bool
  conn_state :: ConnectorState
  conn_type :: ConnectorTypeEnum

definition new_connector :: "int \<Rightarrow> ConnectorTypeEnum \<Rightarrow> Connector" where
  "new_connector i t =
     \<lparr>conn_id = i, conn_transaction_active = False, conn_state = AVAILABLE, conn_type = t\<rparr>"

definition submit_event :: "ConnectorEvent \<Rightarrow> Connector \<Rightarrow> Connector" where
  "submit_event e c = c\<lparr>conn_state := fst (handle_event (conn_state c) e)\<rparr>"

definition connector_is_unavailable :: "Connector \<Rightarrow> bool" where
  "connector_is_unavailable c \<longleftrightarrow> conn_state c = UNAVAILABLE \<or> conn_state c = UNAVAILABLE_FAULTED"

text \<open>
  The timer of an EVSE is armed with one of two tasks (\<^verbatim>\<open>AuthHandler.cpp\<close>): the timeout of a
  granted authorization, which holds the token it was granted for, and the timeout of a plug in.
\<close>

datatype timeout_task = Auth_Timeout ProvidedIdToken | Plug_In_Timeout

record EVSEContext =
  ec_evse_id :: int
  ec_evse_index :: int
  ec_transaction_active :: bool
  ec_identifier :: "Identifier option"
  ec_connectors :: "Connector list"
  ec_timeout_timer :: "timeout_task option"
  ec_timeout_in_progress :: "timeout_task option"
  ec_plugged_in :: bool
  ec_plug_in_timeout :: bool
  ec_reported_enabled :: bool

definition new_evse_context :: "int \<Rightarrow> int \<Rightarrow> Connector list \<Rightarrow> EVSEContext" where
  "new_evse_context evse_id evse_index connectors =
     \<lparr>ec_evse_id = evse_id, ec_evse_index = evse_index, ec_transaction_active = False,
      ec_identifier = None, ec_connectors = connectors, ec_timeout_timer = None,
      ec_timeout_in_progress = None, ec_plugged_in = False, ec_plug_in_timeout = False,
      ec_reported_enabled = False\<rparr>"

text \<open>The loop of \<open>is_available\<close> over the connectors, with its two flags.\<close>

fun availability_flags :: "Connector list \<Rightarrow> bool \<times> bool \<Rightarrow> bool \<times> bool" where
  "availability_flags [] (occupied, available) = (occupied, available)"
| "availability_flags (c # cs) (occupied, available) =
     availability_flags cs
       (if conn_state c = OCCUPIED \<or> conn_state c = FAULTED_OCCUPIED then True else occupied,
        if conn_state c \<noteq> UNAVAILABLE \<and> conn_state c \<noteq> FAULTED then True else available)"

definition evse_is_available :: "EVSEContext \<Rightarrow> bool" where
  "evse_is_available ec =
     (if ec_plug_in_timeout ec then False
      else if ec_identifier ec \<noteq> None then False
      else let (occupied, available) = availability_flags (ec_connectors ec) (False, False)
           in if occupied then False else available)"

definition evse_is_unavailable :: "EVSEContext \<Rightarrow> bool" where
  "evse_is_unavailable ec \<longleftrightarrow> list_all connector_is_unavailable (ec_connectors ec)"

subsection \<open>Specification: three facts about a connector\<close>

record connector_facts =
  is_enabled :: bool
  is_faulted :: bool
  is_occupied :: bool

definition facts_of :: "ConnectorState \<Rightarrow> connector_facts" where
  "facts_of s = \<lparr>is_enabled = s \<notin> {UNAVAILABLE, UNAVAILABLE_FAULTED},
     is_faulted = s \<in> {FAULTED, UNAVAILABLE_FAULTED, FAULTED_OCCUPIED},
     is_occupied = s \<in> {OCCUPIED, FAULTED_OCCUPIED}\<rparr>"

text \<open>
  A transaction starts only on a connector that is enabled and free of faults, an occupied connector
  is not disabled, everything else only records the fact it reports.
\<close>

fun facts_step :: "connector_facts \<Rightarrow> ConnectorEvent \<Rightarrow> connector_facts" where
  "facts_step f ENABLE = f\<lparr>is_enabled := True\<rparr>"
| "facts_step f DISABLE = (if is_occupied f then f else f\<lparr>is_enabled := False\<rparr>)"
| "facts_step f FAULTED_EVENT = f\<lparr>is_faulted := True\<rparr>"
| "facts_step f ERROR_CLEARED = f\<lparr>is_faulted := False\<rparr>"
| "facts_step f TRANSACTION_STARTED =
     (if is_enabled f \<and> \<not> is_faulted f then f\<lparr>is_occupied := True\<rparr> else f)"
| "facts_step f SESSION_FINISHED = f\<lparr>is_occupied := False\<rparr>"

definition connector_step :: "ConnectorState \<Rightarrow> ConnectorEvent \<Rightarrow> ConnectorState" where
  "connector_step s e = fst (handle_event s e)"

lemma facts_of_step: "facts_of (connector_step s e) = facts_step (facts_of s) e"
  by (cases s; cases e; simp add: facts_of_def connector_step_def)

interpretation connector_facts: machine_simulation connector_step facts_step facts_of
  by unfold_locales (rule facts_of_step)

lemma facts_of_inject: "facts_of s = facts_of t \<Longrightarrow> s = t"
  by (cases s; cases t; simp add: facts_of_def)

lemma handle_event_result: "snd (handle_event s e) \<longleftrightarrow> connector_step s e \<noteq> s"
  by (cases s; cases e; simp add: connector_step_def)

text \<open>
  C33. The connector state machine keeps exactly three facts: whether the connector is enabled,
  faulted and occupied. For every sequence of events, the state reached is the encoding of the facts
  the specification reaches, and the handler reports true exactly when the state changes.
\<close>

theorem connector_state_refines_facts:
  "facts_of (run connector_step s events) = run facts_step (facts_of s) events \<and>
   (snd (handle_event s e) \<longleftrightarrow> facts_step (facts_of s) e \<noteq> facts_of s)"
  using connector_facts.abs_run [of s events] handle_event_result [of s e]
    facts_of_step [of s e] facts_of_inject [of "connector_step s e" s]
  by metis

subsection \<open>Availability of an EVSE\<close>

lemma availability_flags_eq:
  "availability_flags cs (occ, av) =
     (occ \<or> (\<exists>c\<in>set cs. conn_state c \<in> {OCCUPIED, FAULTED_OCCUPIED}),
      av \<or> (\<exists>c\<in>set cs. conn_state c \<notin> {UNAVAILABLE, FAULTED}))"
  by (induction cs arbitrary: occ av) auto

lemma evse_is_available_iff:
  "evse_is_available ec \<longleftrightarrow>
     \<not> ec_plug_in_timeout ec \<and> ec_identifier ec = None \<and>
     (\<forall>c\<in>set (ec_connectors ec). conn_state c \<notin> {OCCUPIED, FAULTED_OCCUPIED}) \<and>
     (\<exists>c\<in>set (ec_connectors ec). conn_state c \<in> {AVAILABLE, UNAVAILABLE_FAULTED})"
proof -
  have "conn_state c \<notin> {OCCUPIED, FAULTED_OCCUPIED} \<Longrightarrow>
      conn_state c \<notin> {UNAVAILABLE, FAULTED} \<longleftrightarrow> conn_state c \<in> {AVAILABLE, UNAVAILABLE_FAULTED}"
    for c :: Connector by (cases "conn_state c") auto
  then show ?thesis
    unfolding evse_is_available_def availability_flags_eq by (auto split: if_splits) (blast+)?
qed

text \<open>
  An EVSE that the availability test accepts has no authorization, no expired plug in and no
  occupied connector. It has a connector that is free, or one that is both disabled and faulted; so
  the test is exact where no connector is disabled and faulted at once.
\<close>

lemma evse_is_available_exact:
  assumes "\<forall>c\<in>set (ec_connectors ec). conn_state c \<noteq> UNAVAILABLE_FAULTED"
  shows "evse_is_available ec \<longleftrightarrow>
    \<not> ec_plug_in_timeout ec \<and> ec_identifier ec = None \<and>
    (\<forall>c\<in>set (ec_connectors ec). \<not> is_occupied (facts_of (conn_state c))) \<and>
    (\<exists>c\<in>set (ec_connectors ec). conn_state c = AVAILABLE)"
  using assms unfolding evse_is_available_iff by (auto simp: facts_of_def)

text \<open>
  The availability test also accepts an EVSE on which no transaction can start: one connector is
  disabled and faulted, the other one faulted. The unavailability test, which decides whether a
  token refers to the EVSE at all, does not filter it out.
\<close>

lemma evse_available_without_usable_connector:
  "let ec = new_evse_context i n
       [submit_event FAULTED_EVENT (submit_event DISABLE (new_connector c t)),
        submit_event FAULTED_EVENT (new_connector d u)]
   in evse_is_available ec \<and> \<not> evse_is_unavailable ec \<and>
      list_all (\<lambda>k. \<not> snd (handle_event (conn_state k) TRANSACTION_STARTED)) (ec_connectors ec)"
  by (simp add: Let_def evse_is_available_iff evse_is_unavailable_def new_evse_context_def
      new_connector_def submit_event_def connector_is_unavailable_def)

end
