(* ===== verification/Permutation_Order.thy ===== *)
theory Permutation_Order
  imports Prelude "HOL-Library.Multiset"
begin

text \<open>
  The enumeration of arrival orders in \<^verbatim>\<open>ReservationHandler::get_all_possible_orders\<close>
  (\<^verbatim>\<open>modules/EVSE/Auth/lib/ReservationHandler.cpp\<close>), with the standard library's
  \<open>std::next_permutation\<close> and \<open>std::prev_permutation\<close>, which are one algorithm for an order and
  its converse: find the longest non-increasing tail, exchange the element before it with the
  rightmost greater one of the tail and reverse the tail.

  The enumeration starts at the list as given, not at the sorted list: the loop forward finds the
  list and the greater permutations, the loop backward the smaller ones. Together they are all
  permutations, each once.
\<close>

subsection \<open>Definitions\<close>

text \<open>\<open>None\<close> where the standard function returns false.\<close>

fun permute_step :: "('a \<Rightarrow> 'a \<Rightarrow> bool) \<Rightarrow> 'a list \<Rightarrow> 'a list option" where
  "permute_step lt [] = None"
| "permute_step lt (x # xs) = (case permute_step lt xs of
       Some ys \<Rightarrow> Some (x # ys)
     | None \<Rightarrow>
         (let greater = takeWhile (lt x) xs;
              rest = dropWhile (lt x) xs
          in if greater = [] then None
             else Some (last greater # rev (butlast greater @ x # rest))))"

fun lex_lt :: "('a \<Rightarrow> 'a \<Rightarrow> bool) \<Rightarrow> 'a list \<Rightarrow> 'a list \<Rightarrow> bool" where
  "lex_lt lt (x # xs) (y # ys) \<longleftrightarrow> lt x y \<or> (x = y \<and> lex_lt lt xs ys)"
| "lex_lt lt _ _ \<longleftrightarrow> False"

definition same_elements :: "'a list \<Rightarrow> 'a list set" where
  "same_elements xs = {ys. mset ys = mset xs}"

locale strict_order =
  fixes lt :: "'a \<Rightarrow> 'a \<Rightarrow> bool"
  assumes irrefl: "\<not> lt x x"
    and trans: "lt x y \<Longrightarrow> lt y z \<Longrightarrow> lt x z"
    and total: "x \<noteq> y \<Longrightarrow> lt x y \<or> lt y x"
begin

lemma asym: "lt x y \<Longrightarrow> \<not> lt y x"
  using irrefl trans by blast

lemma lex_irrefl: "\<not> lex_lt lt xs xs"
  by (induction xs) (auto simp: irrefl)

lemma lex_trans: "lex_lt lt xs ys \<Longrightarrow> lex_lt lt ys zs \<Longrightarrow> lex_lt lt xs zs"
proof (induction xs arbitrary: ys zs)
  case (Cons x xs)
  then obtain y ys' z zs' where "ys = y # ys'" "zs = z # zs'"
    by (cases ys; cases zs) auto
  with Cons show ?case by (auto dest: trans)
qed simp

lemma lex_total: "length xs = length ys \<Longrightarrow> xs \<noteq> ys \<Longrightarrow> lex_lt lt xs ys \<or> lex_lt lt ys xs"
  by (induction xs ys rule: list_induct2) (auto dest: total)

text \<open>A list without a successor is non-increasing.\<close>

lemma permute_step_None:
  "permute_step lt xs = None \<Longrightarrow> sorted_wrt (\<lambda>a b. \<not> lt a b) xs"
proof (induction xs)
  case (Cons x xs)
  then have none: "permute_step lt xs = None" "takeWhile (lt x) xs = []"
    by (auto split: option.splits if_splits simp: Let_def)
  from Cons.IH [OF none(1)] have sorted: "sorted_wrt (\<lambda>a b. \<not> lt a b) xs" .
  have "\<not> lt x y" if "y \<in> set xs" for y
  proof (cases xs)
    case (Cons z zs)
    then have "\<not> lt x z" using none(2) by (auto split: if_splits)
    with that sorted Cons show ?thesis using total trans by (cases "y = z") (auto, blast)
  qed (use that in simp)
  with sorted show ?case by simp
qed simp

text \<open>The tail of a non-increasing list from the first element that is not greater on.\<close>

lemma takeWhile_nonincreasing:
  assumes "sorted_wrt (\<lambda>a b. \<not> lt a b) xs"
  shows "y \<in> set (takeWhile (lt x) xs) \<Longrightarrow> lt x y"
    and "y \<in> set (dropWhile (lt x) xs) \<Longrightarrow> \<not> lt x y"
proof -
  show "y \<in> set (takeWhile (lt x) xs) \<Longrightarrow> lt x y" by (rule set_takeWhileD [THEN conjunct2])
  show "y \<in> set (dropWhile (lt x) xs) \<Longrightarrow> \<not> lt x y"
    using assms
  proof (induction xs)
    case (Cons z zs)
    show ?case
    proof (cases "lt x z")
      case True
      with Cons show ?thesis by auto
    next
      case False
      with Cons.prems have "y = z \<or> (y \<in> set zs \<and> \<not> lt z y)" by auto
      with False show ?thesis using total trans by metis
    qed
  qed simp
qed

lemma nonincreasing_greatest:
  assumes "sorted_wrt (\<lambda>a b. \<not> lt a b) xs" and "mset zs = mset xs"
  shows "\<not> lex_lt lt xs zs"
  using assms
proof (induction xs arbitrary: zs)
  case (Cons x xs)
  then obtain z zs' where zs: "zs = z # zs'" by (cases zs) auto
  with Cons.prems(2) have "z \<in> set (x # xs)"
    by (metis list.set_intros(1) set_mset_mset)
  with Cons.prems(1) have "\<not> lt x z" using irrefl by auto
  moreover have "\<not> lex_lt lt xs zs'" if "x = z"
    using Cons.prems zs that by (intro Cons.IH) auto
  ultimately show ?case using zs by auto
qed simp

lemma nondecreasing_least:
  assumes "sorted_wrt (\<lambda>a b. \<not> lt b a) ws" and "mset zs = mset ws"
  shows "\<not> lex_lt lt zs ws"
  using assms
proof (induction ws arbitrary: zs)
  case (Cons w ws)
  then obtain z zs' where zs: "zs = z # zs'" by (cases zs) auto
  with Cons.prems(2) have "z \<in> set (w # ws)"
    by (metis list.set_intros(1) set_mset_mset)
  with Cons.prems(1) have "\<not> lt z w" using irrefl by auto
  moreover have "\<not> lex_lt lt zs' ws" if "z = w"
    using Cons.prems zs that by (intro Cons.IH) auto
  ultimately show ?case using zs by auto
qed simp

lemma permute_step_last:
  "permute_step lt xs = None \<Longrightarrow> mset zs = mset xs \<Longrightarrow> \<not> lex_lt lt xs zs"
  by (rule nonincreasing_greatest [OF permute_step_None])

text \<open>The exchange at the pivot.\<close>

lemma pivot:
  assumes sorted: "sorted_wrt (\<lambda>a b. \<not> lt a b) xs" and g: "takeWhile (lt x) xs \<noteq> []"
  defines "y \<equiv> last (takeWhile (lt x) xs)"
    and "ws \<equiv> rev (butlast (takeWhile (lt x) xs) @ x # dropWhile (lt x) xs)"
  shows "mset (y # ws) = mset (x # xs)" "lt x y" "sorted_wrt (\<lambda>a b. \<not> lt b a) ws"
    "\<And>z. z \<in> set xs \<Longrightarrow> lt x z \<Longrightarrow> \<not> lt z y"
proof -
  let ?g = "takeWhile (lt x) xs" and ?r = "dropWhile (lt x) xs"
  have split: "xs = butlast ?g @ y # ?r"
    using g unfolding y_def by (metis append.assoc append_Cons append_Nil append_butlast_last_id
        takeWhile_dropWhile_id)
  then have "mset xs = mset (butlast ?g) + mset (y # ?r)" by (metis mset_append)
  then show "mset (y # ws) = mset (x # xs)" by (simp add: ws_def)
  have y: "y \<in> set ?g" using g unfolding y_def by (rule last_in_set)
  then show "lt x y" by (rule takeWhile_nonincreasing(1) [OF sorted])
  have "sorted_wrt (\<lambda>a b. \<not> lt a b) (butlast ?g @ y # ?r)"
    using sorted split by metis
  then have parts: "sorted_wrt (\<lambda>a b. \<not> lt a b) (butlast ?g)"
    "sorted_wrt (\<lambda>a b. \<not> lt a b) ?r" "\<forall>a\<in>set (butlast ?g). \<forall>b\<in>set (y # ?r). \<not> lt a b"
    by (auto simp: sorted_wrt_append)
  have "\<forall>a\<in>set (butlast ?g). \<not> lt a x"
    using takeWhile_nonincreasing(1) [OF sorted] asym by (blast dest: in_set_butlastD)
  moreover have "\<forall>b\<in>set ?r. \<not> lt x b"
    using takeWhile_nonincreasing(2) [OF sorted] by blast
  ultimately have "sorted_wrt (\<lambda>a b. \<not> lt a b) (butlast ?g @ x # ?r)"
    using parts by (auto simp: sorted_wrt_append)
  then show "sorted_wrt (\<lambda>a b. \<not> lt b a) ws"
    unfolding ws_def sorted_wrt_rev by simp
  fix z assume "z \<in> set xs" "lt x z"
  then have "z \<in> set (butlast ?g) \<or> z = y \<or> z \<in> set ?r"
    using split by (metis Un_iff set_ConsD set_append)
  moreover have "z \<notin> set ?r" using \<open>lt x z\<close> takeWhile_nonincreasing(2) [OF sorted] by blast
  ultimately show "\<not> lt z y" using parts(3) irrefl by auto
qed

lemma permute_step_Cons_None:
  assumes "permute_step lt xs = None" and "permute_step lt (x # xs) = Some ys"
  shows "takeWhile (lt x) xs \<noteq> []"
    "ys = last (takeWhile (lt x) xs)
       # rev (butlast (takeWhile (lt x) xs) @ x # dropWhile (lt x) xs)"
  using assms by (auto simp: Let_def split: if_splits)

lemma permute_step_Some:
  "permute_step lt xs = Some ys \<Longrightarrow> mset ys = mset xs \<and> lex_lt lt xs ys"
proof (induction xs arbitrary: ys)
  case (Cons x xs)
  show ?case
  proof (cases "permute_step lt xs")
    case None
    note ys = permute_step_Cons_None [OF None Cons.prems]
    from pivot(1,2) [OF permute_step_None [OF None] ys(1)] show ?thesis
      unfolding ys(2) by simp
  next
    case (Some ys')
    with Cons show ?thesis by auto
  qed
qed simp

lemma permute_step_successor:
  "permute_step lt xs = Some ys \<Longrightarrow> mset zs = mset xs \<Longrightarrow> lex_lt lt xs zs \<Longrightarrow>
   zs = ys \<or> lex_lt lt ys zs"
proof (induction xs arbitrary: ys zs)
  case (Cons x xs)
  from Cons.prems(2) obtain z zs' where zs: "zs = z # zs'" by (cases zs) auto
  show ?case
  proof (cases "permute_step lt xs")
    case (Some ys')
    with Cons.prems zs Cons.IH [OF Some, of zs'] show ?thesis by auto
  next
    case None
    note ys = permute_step_Cons_None [OF None Cons.prems(1)]
    note p = pivot [OF permute_step_None [OF None] ys(1)]
    define y ws where "y = last (takeWhile (lt x) xs)"
      and "ws = rev (butlast (takeWhile (lt x) xs) @ x # dropWhile (lt x) xs)"
    note p = p [folded y_def ws_def]
    have "x \<noteq> z"
      using Cons.prems(2,3) zs permute_step_last [OF None, of zs'] irrefl by auto
    with Cons.prems(3) zs have xz: "lt x z" by auto
    moreover have "z \<in> set xs"
      using \<open>x \<noteq> z\<close> Cons.prems(2) zs by (metis list.set_intros(1) mset_eq_setD set_ConsD)
    ultimately have "\<not> lt z y" by (intro p(4))
    then consider "lt y z" | "y = z" using total by blast
    then show ?thesis
    proof cases
      case 1
      then show ?thesis unfolding ys(2) zs by (simp add: y_def)
    next
      case 2
      with p(1) Cons.prems(2) zs have "add_mset z (mset zs') = add_mset z (mset ws)" by simp
      then have m: "mset zs' = mset ws" by simp
      from nondecreasing_least [OF p(3) m] lex_total [of ws zs'] m
      have "zs' = ws \<or> lex_lt lt ws zs'" by (metis size_mset)
      with 2 show ?thesis unfolding ys(2) zs by (auto simp: y_def ws_def)
    qed
  qed
qed simp

lemma greater_permutations_Some:
  assumes "permute_step lt xs = Some ys"
  shows "{zs \<in> same_elements xs. lex_lt lt xs zs} =
    insert ys {zs \<in> same_elements ys. lex_lt lt ys zs}"
  using permute_step_Some [OF assms] permute_step_successor [OF assms] lex_trans
  by (auto simp: same_elements_def)

lemma greater_permutations_None:
  "permute_step lt xs = None \<Longrightarrow> {zs \<in> same_elements xs. lex_lt lt xs zs} = {}"
  using permute_step_last by (auto simp: same_elements_def)

lemma finite_same_elements: "finite (same_elements xs)"
proof (rule finite_subset)
  show "same_elements xs \<subseteq> {ys. set ys \<subseteq> set xs \<and> length ys = length xs}"
    by (auto simp: same_elements_def dest: mset_eq_setD mset_eq_length)
qed (simp add: finite_lists_length_eq)

lemma greater_permutations_decrease:
  assumes "permute_step lt xs = Some ys"
  shows "card {zs \<in> same_elements ys. lex_lt lt ys zs}
    < card {zs \<in> same_elements xs. lex_lt lt xs zs}"
  unfolding greater_permutations_Some [OF assms]
  using lex_irrefl finite_same_elements [of ys] by simp

end

interpretation ascending: strict_order "(<) :: 'a::linorder \<Rightarrow> 'a \<Rightarrow> bool"
  by unfold_locales auto

interpretation descending: strict_order "(>) :: 'a::linorder \<Rightarrow> 'a \<Rightarrow> bool"
  by unfold_locales auto

subsection \<open>The two loops\<close>

definition next_permutation :: "'a::linorder list \<Rightarrow> 'a list option" where
  "next_permutation xs = permute_step (<) xs"

definition prev_permutation :: "'a::linorder list \<Rightarrow> 'a list option" where
  "prev_permutation xs = permute_step (>) xs"

function next_permutations :: "'a::linorder list \<Rightarrow> 'a list list" where
  "next_permutations xs =
     xs # (case next_permutation xs of Some ys \<Rightarrow> next_permutations ys | None \<Rightarrow> [])"
  by pat_completeness auto
termination
  by (relation "measure (\<lambda>xs. card {zs \<in> same_elements xs. lex_lt (<) xs zs})")
    (auto simp: next_permutation_def ascending.greater_permutations_decrease)

function prev_permutations :: "'a::linorder list \<Rightarrow> 'a list list" where
  "prev_permutations xs =
     (case prev_permutation xs of Some ys \<Rightarrow> ys # prev_permutations ys | None \<Rightarrow> [])"
  by pat_completeness auto
termination
  by (relation "measure (\<lambda>xs. card {zs \<in> same_elements xs. lex_lt (>) xs zs})")
    (auto simp: prev_permutation_def descending.greater_permutations_decrease)

declare next_permutations.simps [simp del] prev_permutations.simps [simp del]

definition get_all_possible_orders :: "'a::linorder list \<Rightarrow> 'a list list" where
  "get_all_possible_orders connectors =
     (if connectors = [] then []
      else next_permutations connectors @ prev_permutations connectors)"

subsection \<open>The loops enumerate every permutation once\<close>

lemma set_next_permutations:
  "set (next_permutations xs) = insert xs {zs \<in> same_elements xs. lex_lt (<) xs zs}"
proof (induction xs rule: next_permutations.induct)
  case (1 xs)
  show ?case
  proof (cases "next_permutation xs")
    case None
    then show ?thesis
      using ascending.greater_permutations_None [of xs]
      by (auto simp: next_permutations.simps [of xs] next_permutation_def)
  next
    case (Some ys)
    then show ?thesis
      using ascending.greater_permutations_Some [of xs ys] "1.IH" [OF Some]
      by (simp add: next_permutations.simps [of xs] next_permutation_def)
  qed
qed

lemma set_prev_permutations:
  "set (prev_permutations xs) = {zs \<in> same_elements xs. lex_lt (>) xs zs}"
proof (induction xs rule: prev_permutations.induct)
  case (1 xs)
  show ?case
  proof (cases "prev_permutation xs")
    case None
    then show ?thesis
      using descending.greater_permutations_None [of xs]
      by (auto simp: prev_permutations.simps [of xs] prev_permutation_def)
  next
    case (Some ys)
    then show ?thesis
      using descending.greater_permutations_Some [of xs ys] "1.IH" [OF Some]
      by (simp add: prev_permutations.simps [of xs] prev_permutation_def)
  qed
qed

lemma lex_lt_converse: "lex_lt (>) xs ys \<longleftrightarrow> lex_lt (<) ys (xs :: 'a::linorder list)"
  by (induction "(>) :: 'a \<Rightarrow> 'a \<Rightarrow> bool" xs ys rule: lex_lt.induct) auto

lemma same_elements_split:
  "same_elements xs = insert xs ({zs \<in> same_elements xs. lex_lt (<) xs zs}
     \<union> {zs \<in> same_elements xs. lex_lt (>) xs (zs :: 'a::linorder list)})"
proof -
  have "zs = xs \<or> lex_lt (<) xs zs \<or> lex_lt (<) zs xs" if "mset zs = mset xs" for zs
    using ascending.lex_total [of xs zs] that by (metis size_mset)
  then show ?thesis by (auto simp: same_elements_def lex_lt_converse)
qed

lemma set_get_all_possible_orders:
  "connectors \<noteq> [] \<Longrightarrow> set (get_all_possible_orders connectors) = same_elements connectors"
  by (subst same_elements_split)
    (simp add: get_all_possible_orders_def set_next_permutations set_prev_permutations)

lemma distinct_next_permutations: "distinct (next_permutations xs)"
proof (induction xs rule: next_permutations.induct)
  case (1 xs)
  show ?case
  proof (cases "next_permutation xs")
    case (Some ys)
    then have "lex_lt (<) xs ys"
      using ascending.permute_step_Some [of xs ys] by (simp add: next_permutation_def)
    then have "xs \<notin> set (next_permutations ys)"
      using ascending.lex_irrefl ascending.lex_trans
      by (auto simp: set_next_permutations)
    with "1.IH" [OF Some] Some show ?thesis
      by (simp add: next_permutations.simps [of xs])
  qed (simp add: next_permutations.simps [of xs])
qed

lemma distinct_prev_permutations: "distinct (prev_permutations xs)"
proof (induction xs rule: prev_permutations.induct)
  case (1 xs)
  then show ?case
    using descending.lex_irrefl
    by (cases "prev_permutation xs")
      (auto simp: prev_permutations.simps [of xs] set_prev_permutations)
qed

lemma distinct_get_all_possible_orders: "distinct (get_all_possible_orders connectors)"
proof -
  have "zs \<notin> set (prev_permutations connectors)" if "zs \<in> set (next_permutations connectors)" for zs
    using that ascending.lex_irrefl ascending.lex_trans [of connectors zs connectors]
    by (auto simp: set_next_permutations set_prev_permutations lex_lt_converse)
  then show ?thesis
    by (auto simp: get_all_possible_orders_def distinct_next_permutations distinct_prev_permutations)
qed

end
