(* ===== verification/Reservation.thy ===== *)
theory Reservation
  imports Connector Permutation_Order
begin

text \<open>
  The reservation handler: \<^verbatim>\<open>src/modules/EVSE/Auth/lib/ReservationHandler.cpp\<close>.

  Every public member function holds the handler's recursive mutex for its whole body, so each is
  one atomic operation on the state. The state is extensible: the authorization handler's own
  members are added to it in \<open>Auth_Handler\<close>, because the two objects share the map of EVSEs.

  Calls that leave the module are appended to the trace \<open>calls\<close>. The answer of the EVSE manager to
  a reserve call is \<open>manager_accepts\<close>, an arbitrary function of the calls made so far. The
  key-value store is \<open>None\<close> where none is configured.

  The callback that the authorization handler registers for a cancelled reservation runs inside
  \<open>cancel_reservation\<close> and calls back into the reservation handler; it is therefore part of this
  theory (\<open>call_reservation_cancelled\<close>, \<open>check_evse_reserved_and_send_updates\<close> of
  \<^verbatim>\<open>AuthHandler.cpp\<close>).
\<close>

subsection \<open>State\<close>

datatype auth_call =
    Reservation_Cancelled_Call "int option" int ReservationEndReason bool
  | Reserved_Call "int option" int "Reservation option"
  | Notify_Evse int ProvidedIdToken ValidationResult
  | Withdraw_Authorization int
  | Stop_Transaction int StopTransactionRequest
  | Publish_Status ProvidedIdToken TokenValidationStatus "string list"

text \<open>An entry of the stored array, and the value kept under the handler's key.\<close>

datatype stored_entry = Stored "int option" Reservation | Malformed_Entry

datatype stored_value = Stored_Array "stored_entry list" | Stored_Other

record reservation_handler =
  evses :: "(int, EVSEContext) omap"
  evse_reservations :: "(int, Reservation) omap"
  global_reservations :: "Reservation list"
  restored_reservations :: "(int, int) omap"
  reservation_timers :: "(int, int) omap"
  last_reserved_status :: "int list"
  kvs :: "stored_value option"
  manager_accepts :: "auth_call list \<Rightarrow> bool"
  calls :: "auth_call list"

definition emit :: "auth_call \<Rightarrow> 'a reservation_handler_scheme \<Rightarrow> 'a reservation_handler_scheme" where
  "emit c s = s\<lparr>calls := calls s @ [c]\<rparr>"

definition evse_at :: "'a reservation_handler_scheme \<Rightarrow> int \<Rightarrow> EVSEContext option" where
  "evse_at s evse_id = map_of (evses s) (to_s32 evse_id)"

text \<open>\<^verbatim>\<open>AuthHandler::init_evse\<close>: EVSEs are added before the handler is used.\<close>

definition init_evse ::
  "int \<Rightarrow> int \<Rightarrow> Connector list \<Rightarrow> 'a reservation_handler_scheme \<Rightarrow> 'a reservation_handler_scheme"
where
  "init_evse evse_id evse_index connectors s =
     (if evse_id \<le> 0 then s
      else s\<lparr>evses := omap_insert evse_id (new_evse_context evse_id evse_index connectors) (evses s)\<rparr>)"

subsection \<open>Availability of EVSEs and connectors\<close>

fun connector_state_to_reservation_result :: "ConnectorState \<Rightarrow> ReservationResult" where
  "connector_state_to_reservation_result AVAILABLE = RAccepted"
| "connector_state_to_reservation_result UNAVAILABLE = RUnavailable"
| "connector_state_to_reservation_result FAULTED = RFaulted"
| "connector_state_to_reservation_result UNAVAILABLE_FAULTED = RFaulted"
| "connector_state_to_reservation_result FAULTED_OCCUPIED = RFaulted"
| "connector_state_to_reservation_result OCCUPIED = ROccupied"

definition has_evse_connector_type :: "Connector list \<Rightarrow> ConnectorTypeEnum \<Rightarrow> bool" where
  "has_evse_connector_type evse_connectors connector_type =
     (if connector_type = UnknownType then True
      else list_ex (\<lambda>c. conn_type c = UnknownType \<or> conn_type c = connector_type) evse_connectors)"

definition does_evse_connector_type_exist ::
  "'a reservation_handler_scheme \<Rightarrow> ConnectorTypeEnum \<Rightarrow> bool" where
  "does_evse_connector_type_exist s connector_type =
     list_ex (\<lambda>(_, evse). has_evse_connector_type (ec_connectors evse) connector_type) (evses s)"

definition get_evse_connector_state_reservation_result ::
  "'a reservation_handler_scheme \<Rightarrow> int \<Rightarrow> (int, Reservation) omap \<Rightarrow> ReservationResult" where
  "get_evse_connector_state_reservation_result s evse_id evse_specific_reservations =
     (case evse_at s evse_id of
        None \<Rightarrow> RRejected
      | Some evse \<Rightarrow>
          if ec_plugged_in evse then connector_state_to_reservation_result OCCUPIED
          else (case find (\<lambda>c. conn_state c = OCCUPIED \<or> conn_state c = FAULTED_OCCUPIED)
                       (ec_connectors evse) of
                  Some c \<Rightarrow> connector_state_to_reservation_result (conn_state c)
                | None \<Rightarrow>
                    if map_of evse_specific_reservations evse_id \<noteq> None then ROccupied
                    else RAccepted))"

definition get_new_connector_state :: "ConnectorState \<Rightarrow> ConnectorState \<Rightarrow> ConnectorState" where
  "get_new_connector_state current_state new_state =
     (if new_state = OCCUPIED then OCCUPIED
      else if new_state > current_state then
        (if new_state > OCCUPIED then
           (if new_state = FAULTED_OCCUPIED then OCCUPIED
            else if new_state = UNAVAILABLE_FAULTED then
              (if current_state \<noteq> OCCUPIED then FAULTED else current_state)
            else current_state)
         else new_state)
      else current_state)"

definition connector_type_matches :: "ConnectorTypeEnum \<Rightarrow> Connector \<Rightarrow> bool" where
  "connector_type_matches connector_type c \<longleftrightarrow>
     conn_type c = connector_type \<or> conn_type c = UnknownType \<or> connector_type = UnknownType"

fun connector_availability_loop ::
  "ConnectorTypeEnum \<Rightarrow> ConnectorState \<Rightarrow> Connector list \<Rightarrow> ReservationResult" where
  "connector_availability_loop connector_type connector_state [] =
     connector_state_to_reservation_result connector_state"
| "connector_availability_loop connector_type connector_state (c # cs) =
     (if connector_type_matches connector_type c then
        (if conn_state c = AVAILABLE then RAccepted
         else connector_availability_loop connector_type
                (get_new_connector_state connector_state (conn_state c)) cs)
      else connector_availability_loop connector_type connector_state cs)"

definition get_connector_availability_reservation_result ::
  "'a reservation_handler_scheme \<Rightarrow> int \<Rightarrow> ConnectorTypeEnum \<Rightarrow> ReservationResult" where
  "get_connector_availability_reservation_result s evse_id connector_type =
     (case evse_at s evse_id of
        None \<Rightarrow> RRejected
      | Some evse \<Rightarrow> connector_availability_loop connector_type UNAVAILABLE (ec_connectors evse))"

definition get_all_evses_with_connector_type ::
  "'a reservation_handler_scheme \<Rightarrow> ConnectorTypeEnum \<Rightarrow> EVSEContext list" where
  "get_all_evses_with_connector_type s connector_type =
     [evse. (_, evse) \<leftarrow> evses s, has_evse_connector_type (ec_connectors evse) connector_type]"

fun worst_connector_state ::
  "ConnectorTypeEnum \<Rightarrow> ConnectorState \<Rightarrow> Connector list \<Rightarrow> ConnectorState" where
  "worst_connector_state connector_type state [] = state"
| "worst_connector_state connector_type state (c # cs) =
     (if \<not> connector_type_matches connector_type c \<or> conn_state c = AVAILABLE
      then worst_connector_state connector_type state cs
      else worst_connector_state connector_type
             (get_new_connector_state state (conn_state c)) cs)"

definition get_reservation_evse_connector_state ::
  "'a reservation_handler_scheme \<Rightarrow> ConnectorTypeEnum \<Rightarrow> ReservationResult" where
  "get_reservation_evse_connector_state s connector_type =
     (if global_reservations s \<noteq> [] \<or> evse_reservations s \<noteq> [] then ROccupied
      else
        let found_state = list_ex (\<lambda>(_, evse). ec_plugged_in evse) (evses s);
            state = foldl (\<lambda>state (_, evse).
                if ec_plugged_in evse then get_new_connector_state state OCCUPIED else state)
              UNAVAILABLE (evses s)
        in if found_state then connector_state_to_reservation_result state
           else
             let with_type = get_all_evses_with_connector_type s connector_type
             in if with_type = [] then RRejected
                else connector_state_to_reservation_result
                       (foldl (\<lambda>state evse.
                            worst_connector_state connector_type state (ec_connectors evse))
                          state with_type))"

subsection \<open>Feasibility of the reservations\<close>

definition can_park ::
  "'a reservation_handler_scheme \<Rightarrow> (int, Reservation) omap \<Rightarrow> ConnectorTypeEnum \<Rightarrow>
     int \<times> EVSEContext \<Rightarrow> bool" where
  "can_park s evse_specific_reservations car e \<longleftrightarrow>
     get_evse_connector_state_reservation_result s (to_u32 (fst e)) evse_specific_reservations
       = RAccepted \<and>
     has_evse_connector_type (ec_connectors (snd e)) car \<and>
     get_connector_availability_reservation_result s (to_u32 (fst e)) car = RAccepted"

text \<open>
  The loop over the EVSEs in \<open>can_virtual_car_arrive\<close>. The argument \<open>next_level\<close> is the recursive
  call, absent when the car is the last of the order.
\<close>

fun arrival_loop ::
  "(int \<times> EVSEContext \<Rightarrow> bool) \<Rightarrow> (int list \<Rightarrow> bool) option \<Rightarrow> int list \<Rightarrow>
     (int \<times> EVSEContext) list \<Rightarrow> bool \<Rightarrow> bool" where
  "arrival_loop parks next_level used_evse_ids [] is_possible = is_possible"
| "arrival_loop parks next_level used_evse_ids (e # es) is_possible =
     (if to_u32 (fst e) \<in> set used_evse_ids
      then arrival_loop parks next_level used_evse_ids es is_possible
      else if parks e then
        (case next_level of
           None \<Rightarrow> True
         | Some arrive \<Rightarrow>
             if \<not> arrive (used_evse_ids @ [to_u32 (fst e)]) then False
             else arrival_loop parks next_level used_evse_ids es True)
      else arrival_loop parks next_level used_evse_ids es is_possible)"

text \<open>The order is never empty (see \<open>orders_nonempty\<close>).\<close>

fun can_virtual_car_arrive ::
  "'a reservation_handler_scheme \<Rightarrow> int list \<Rightarrow> ConnectorTypeEnum list \<Rightarrow>
     (int, Reservation) omap \<Rightarrow> bool" where
  "can_virtual_car_arrive s used_evse_ids [] evse_specific_reservations = False"
| "can_virtual_car_arrive s used_evse_ids (car # order) evse_specific_reservations =
     arrival_loop (can_park s evse_specific_reservations car)
       (if order = [] then None
        else Some (\<lambda>used. can_virtual_car_arrive s used order evse_specific_reservations))
       used_evse_ids (evses s) False"

definition is_reservation_possible ::
  "'a reservation_handler_scheme \<Rightarrow> ConnectorTypeEnum option \<Rightarrow> Reservation list \<Rightarrow>
     (int, Reservation) omap \<Rightarrow> bool" where
  "is_reservation_possible s global_reservation_type reservations_no_evse evse_specific_reservations =
     (let types = map requested_type reservations_no_evse @
            (case global_reservation_type of Some t \<Rightarrow> [t] | None \<Rightarrow> [])
      in if length types + length evse_specific_reservations > length (evses s) then False
         else list_all (\<lambda>order. can_virtual_car_arrive s [] order evse_specific_reservations)
                (get_all_possible_orders types))"

subsection \<open>Global reservations and the EVSEs they occupy\<close>

record ReservationEvseStatus =
  status_reserved :: "int list"
  status_available :: "int list"

definition get_evse_global_reserved_status_and_set_new_status ::
  "'a reservation_handler_scheme \<Rightarrow> int list \<Rightarrow> int list \<Rightarrow>
     ReservationEvseStatus \<times> 'a reservation_handler_scheme" where
  "get_evse_global_reserved_status_and_set_new_status s currently_available_evses reserved_evses =
     (\<lparr>status_reserved = filter (\<lambda>e. e \<notin> set (last_reserved_status s)) reserved_evses,
       status_available = filter (\<lambda>e. e \<notin> set reserved_evses \<and> e \<in> set (last_reserved_status s))
         currently_available_evses\<rparr>,
      s\<lparr>last_reserved_status := reserved_evses\<rparr>)"

definition available_evse_ids :: "'a reservation_handler_scheme \<Rightarrow> int list" where
  "available_evse_ids s = map fst (filter (\<lambda>e.
       get_evse_connector_state_reservation_result s (to_u32 (fst e)) (evse_reservations s)
         = RAccepted \<and>
       get_connector_availability_reservation_result s (to_u32 (fst e)) UnknownType = RAccepted)
     (evses s))"

fun evses_claimed_by_types ::
  "'a reservation_handler_scheme \<Rightarrow> int list \<Rightarrow> Reservation list \<Rightarrow> int list \<Rightarrow> int list" where
  "evses_claimed_by_types s available_evses [] claimed = claimed"
| "evses_claimed_by_types s available_evses (r # rs) claimed =
     evses_claimed_by_types s available_evses rs
       (if \<not> is_reservation_possible s (res_connector_type r) (global_reservations s)
              (evse_reservations s)
        then foldl (\<lambda>acc e.
               if fst e \<in> set available_evses \<and>
                  has_evse_connector_type (ec_connectors (snd e)) (requested_type r)
               then insort_insert (fst e) acc else acc) claimed (evses s)
        else claimed)"

definition check_number_global_reservations_match_number_available_evses ::
  "'a reservation_handler_scheme \<Rightarrow> ReservationEvseStatus \<times> 'a reservation_handler_scheme" where
  "check_number_global_reservations_match_number_available_evses s =
     (let available_evses = available_evse_ids s
      in if length available_evses = length (global_reservations s)
         then get_evse_global_reserved_status_and_set_new_status s available_evses available_evses
         else get_evse_global_reserved_status_and_set_new_status s available_evses
                (evses_claimed_by_types s available_evses (global_reservations s) []))"

definition check_evse_reserved_and_send_updates ::
  "'a reservation_handler_scheme \<Rightarrow> 'a reservation_handler_scheme" where
  "check_evse_reserved_and_send_updates s =
     (let (status, s) = check_number_global_reservations_match_number_available_evses s;
          s = fold (\<lambda>e. emit (Reservation_Cancelled_Call (Some e) (- 1)
                 GlobalReservationRequirementDropped False)) (status_available status) s
      in fold (\<lambda>e. emit (Reserved_Call (Some e) (- 1) None)) (status_reserved status) s)"

definition call_reservation_cancelled ::
  "'a reservation_handler_scheme \<Rightarrow> int \<Rightarrow> ReservationEndReason \<Rightarrow> int option \<Rightarrow> bool \<Rightarrow>
     'a reservation_handler_scheme" where
  "call_reservation_cancelled s reservation_id reason evse_id send_reservation_update =
     check_evse_reserved_and_send_updates
       (emit (Reservation_Cancelled_Call evse_id reservation_id reason send_reservation_update) s)"

text \<open>The function that the authorization handler registers with the reservation handler.\<close>

definition reservation_cancelled_callback ::
  "'a reservation_handler_scheme \<Rightarrow> int option \<Rightarrow> int \<Rightarrow> ReservationEndReason \<Rightarrow> bool \<Rightarrow>
     'a reservation_handler_scheme" where
  "reservation_cancelled_callback s evse_id reservation_id reason send_reservation_update =
     (let evse_id = map_option to_s32 evse_id
      in if (case evse_id of Some e \<Rightarrow> e < 0 | None \<Rightarrow> False) then s
         else call_reservation_cancelled s reservation_id reason evse_id send_reservation_update)"

subsection \<open>Placing and cancelling reservations\<close>

definition stored_reservations :: "'a reservation_handler_scheme \<Rightarrow> stored_entry list" where
  "stored_reservations s =
     map (\<lambda>(evse_id, r). Stored (Some evse_id) r) (evse_reservations s) @
     map (Stored None) (global_reservations s)"

definition store_reservations ::
  "'a reservation_handler_scheme \<Rightarrow> 'a reservation_handler_scheme" where
  "store_reservations s =
     (if kvs s = None then s else s\<lparr>kvs := Some (Stored_Array (stored_reservations s))\<rparr>)"

definition set_reservation_timer ::
  "Reservation \<Rightarrow> 'a reservation_handler_scheme \<Rightarrow> 'a reservation_handler_scheme" where
  "set_reservation_timer r s = s\<lparr>reservation_timers :=
     omap_insert (res_reservation_id r) (res_expiry_time r) (reservation_timers s)\<rparr>"

fun erase_first :: "('v \<Rightarrow> bool) \<Rightarrow> 'v list \<Rightarrow> 'v list" where
  "erase_first P [] = []"
| "erase_first P (x # xs) = (if P x then xs else x # erase_first P xs)"

text \<open>The loop over the EVSE reservations keeps the last match.\<close>

definition evse_of_reservation :: "'a reservation_handler_scheme \<Rightarrow> int \<Rightarrow> int option" where
  "evse_of_reservation s reservation_id =
     foldl (\<lambda>evse_id (e, r). if res_reservation_id r = reservation_id then Some e else evse_id)
       None (evse_reservations s)"

definition erase_reservation ::
  "int \<Rightarrow> int option \<Rightarrow> 'a reservation_handler_scheme \<Rightarrow> 'a reservation_handler_scheme" where
  "erase_reservation reservation_id evse_id s =
     (case evse_id of
        Some e \<Rightarrow> s\<lparr>evse_reservations := omap_erase e (evse_reservations s)\<rparr>
      | None \<Rightarrow> s\<lparr>global_reservations :=
          erase_first (\<lambda>r. res_reservation_id r = reservation_id) (global_reservations s)\<rparr>)"

definition cancel_reservation ::
  "'a reservation_handler_scheme \<Rightarrow> int \<Rightarrow> bool \<Rightarrow> ReservationEndReason \<Rightarrow>
     (bool \<times> int option) \<times> 'a reservation_handler_scheme" where
  "cancel_reservation s reservation_id execute_callback reason =
     (if map_of (reservation_timers s) reservation_id = None then ((False, None), s)
      else
        let s = s\<lparr>reservation_timers := omap_erase reservation_id (reservation_timers s)\<rparr>;
            evse_id = evse_of_reservation s reservation_id;
            s = store_reservations (erase_reservation reservation_id evse_id s);
            s = (if execute_callback
                 then reservation_cancelled_callback s evse_id reservation_id reason execute_callback
                 else s)
        in ((True, evse_id), s))"

definition cancel_evse_reservation ::
  "'a reservation_handler_scheme \<Rightarrow> int \<Rightarrow> bool \<Rightarrow> bool \<times> 'a reservation_handler_scheme" where
  "cancel_evse_reservation s evse_id execute_callback =
     (case map_of (evse_reservations s) evse_id of
        Some r \<Rightarrow>
          (let (result, s) = cancel_reservation s (res_reservation_id r) execute_callback Cancelled
           in (fst result, s))
      | None \<Rightarrow> (False, s))"

text \<open>The task of a reservation timer.\<close>

definition reservation_expired ::
  "'a reservation_handler_scheme \<Rightarrow> int \<Rightarrow> 'a reservation_handler_scheme" where
  "reservation_expired s reservation_id = snd (cancel_reservation s reservation_id True Expired)"

definition on_reservation_used ::
  "'a reservation_handler_scheme \<Rightarrow> int \<Rightarrow> 'a reservation_handler_scheme" where
  "on_reservation_used s reservation_id =
     snd (cancel_reservation s reservation_id False UsedToStartCharging)"

definition make_evse_reservation ::
  "'a reservation_handler_scheme \<Rightarrow> int \<Rightarrow> Reservation \<Rightarrow>
     ReservationResult \<times> 'a reservation_handler_scheme" where
  "make_evse_reservation s evse_id reservation =
     (if map_of (evse_reservations s) evse_id \<noteq> None then (ROccupied, s)
      else case evse_at s evse_id of
        None \<Rightarrow> (RRejected, s)
      | Some evse \<Rightarrow>
          let connector_type = requested_type reservation;
              evse_state = get_evse_connector_state_reservation_result s evse_id (evse_reservations s);
              connector_state = get_connector_availability_reservation_result s evse_id connector_type;
              new_reservations = omap_insert evse_id reservation (evse_reservations s)
          in if \<not> has_evse_connector_type (ec_connectors evse) connector_type then (RRejected, s)
             else if evse_state \<noteq> RAccepted then (evse_state, s)
             else if connector_state \<noteq> RAccepted then (connector_state, s)
             else if global_reservations s = [] then
               (RAccepted, store_reservations
                  ((set_reservation_timer reservation s)\<lparr>evse_reservations := new_reservations\<rparr>))
             else if \<not> is_reservation_possible s None (global_reservations s) new_reservations then
               (get_reservation_evse_connector_state s connector_type, s)
             else
               (RAccepted, set_reservation_timer reservation
                  (store_reservations (s\<lparr>evse_reservations := new_reservations\<rparr>))))"

definition make_global_reservation ::
  "'a reservation_handler_scheme \<Rightarrow> Reservation \<Rightarrow>
     ReservationResult \<times> 'a reservation_handler_scheme" where
  "make_global_reservation s reservation =
     (if (case res_connector_type reservation of
            Some t \<Rightarrow> \<not> does_evse_connector_type_exist s t | None \<Rightarrow> False)
      then (RRejected, s)
      else if \<not> is_reservation_possible s (Some (requested_type reservation))
                  (global_reservations s) (evse_reservations s)
      then (get_reservation_evse_connector_state s (requested_type reservation), s)
      else (RAccepted, set_reservation_timer reservation (store_reservations
              (s\<lparr>global_reservations := global_reservations s @ [reservation]\<rparr>))))"

definition make_reservation ::
  "'a reservation_handler_scheme \<Rightarrow> int \<Rightarrow> int option \<Rightarrow> Reservation \<Rightarrow>
     ReservationResult \<times> 'a reservation_handler_scheme" where
  "make_reservation s now evse_id reservation =
     (if now > res_expiry_time reservation then (RRejected, s)
      else
        let s = snd (cancel_reservation s (res_reservation_id reservation) False Cancelled)
        in case evse_id of
             Some e \<Rightarrow> make_evse_reservation s e reservation
           | None \<Rightarrow> make_global_reservation s reservation)"

subsection \<open>Loading and applying stored reservations\<close>

text \<open>
  The conversions of a reservation to JSON and back are generated from the type definitions. The
  argument \<open>from_store\<close> is what they yield for a reservation that has been stored, \<open>None\<close> where reading it
  throws; such an entry is skipped, like one that holds no reservation. The EVSE id of an entry is an
  integer, if there is one.
\<close>

fun load_entry ::
  "(Reservation \<Rightarrow> Reservation option) \<Rightarrow> int \<Rightarrow> stored_entry \<Rightarrow> 'a reservation_handler_scheme \<Rightarrow>
     'a reservation_handler_scheme" where
  "load_entry from_store now Malformed_Entry s = s"
| "load_entry from_store now (Stored evse_id stored) s =
     (case from_store stored of
        None \<Rightarrow> s
      | Some r \<Rightarrow>
          (let evse_id = map_option to_u32 evse_id;
               (result, s) = make_reservation s now evse_id r
           in if result = RAccepted \<and> evse_id \<noteq> None
              then s\<lparr>restored_reservations :=
                     omap_insert (the evse_id) (res_reservation_id r) (restored_reservations s)\<rparr>
              else if result \<noteq> RAccepted
              then reservation_cancelled_callback s evse_id (res_reservation_id r) Cancelled True
              else s))"

definition load_reservations ::
  "(Reservation \<Rightarrow> Reservation option) \<Rightarrow> 'a reservation_handler_scheme \<Rightarrow> int \<Rightarrow>
     'a reservation_handler_scheme" where
  "load_reservations from_store s now =
     (case kvs s of
        None \<Rightarrow> s
      | Some Stored_Other \<Rightarrow> s
      | Some (Stored_Array entries) \<Rightarrow> fold (load_entry from_store now) entries s)"

definition is_evse_reserved :: "'a reservation_handler_scheme \<Rightarrow> int \<Rightarrow> bool" where
  "is_evse_reserved s evse_id \<longleftrightarrow> map_of (evse_reservations s) evse_id \<noteq> None"

definition is_evse_reserved_by :: "'a reservation_handler_scheme \<Rightarrow> int \<Rightarrow> int \<Rightarrow> bool" where
  "is_evse_reserved_by s evse_id reservation_id =
     (case map_of (evse_reservations s) evse_id of
        Some r \<Rightarrow> res_reservation_id r = reservation_id | None \<Rightarrow> False)"

definition take_restored_reservation ::
  "'a reservation_handler_scheme \<Rightarrow> int \<Rightarrow> int option \<times> 'a reservation_handler_scheme" where
  "take_restored_reservation s evse_id =
     (case map_of (restored_reservations s) evse_id of
        None \<Rightarrow> (None, s)
      | Some reservation_id \<Rightarrow>
          let s = s\<lparr>restored_reservations := omap_erase evse_id (restored_reservations s)\<rparr>
          in if \<not> is_evse_reserved_by s evse_id reservation_id then (None, s)
             else (Some reservation_id, s))"

definition get_evse_reservation ::
  "'a reservation_handler_scheme \<Rightarrow> int \<Rightarrow> int \<Rightarrow> Reservation option" where
  "get_evse_reservation s evse_id reservation_id =
     (case map_of (evse_reservations s) evse_id of
        None \<Rightarrow> None
      | Some r \<Rightarrow> if res_reservation_id r \<noteq> reservation_id then None else Some r)"

definition get_evse_id_of_reservation ::
  "'a reservation_handler_scheme \<Rightarrow> int \<Rightarrow> int option" where
  "get_evse_id_of_reservation s reservation_id =
     map_option fst (find (\<lambda>(_, r). res_reservation_id r = reservation_id) (evse_reservations s))"

subsection \<open>Reaction to state changes\<close>

fun keep_evse_reservations ::
  "'a reservation_handler_scheme \<Rightarrow> (int, Reservation) omap \<Rightarrow> (int, Reservation) omap \<Rightarrow>
     int list \<Rightarrow> (int, Reservation) omap \<times> int list" where
  "keep_evse_reservations s [] kept to_cancel = (kept, to_cancel)"
| "keep_evse_reservations s ((evse_id, r) # rest) kept to_cancel =
     (let kept' = omap_insert evse_id r kept
      in if \<not> is_reservation_possible s None [] kept'
         then keep_evse_reservations s rest (omap_erase evse_id kept')
                (to_cancel @ [res_reservation_id r])
         else keep_evse_reservations s rest kept' to_cancel)"

fun keep_global_reservations ::
  "'a reservation_handler_scheme \<Rightarrow> (int, Reservation) omap \<Rightarrow> Reservation list \<Rightarrow>
     Reservation list \<Rightarrow> int list \<Rightarrow> Reservation list \<times> int list" where
  "keep_global_reservations s specific [] kept to_cancel = (kept, to_cancel)"
| "keep_global_reservations s specific (r # rest) kept to_cancel =
     (if is_reservation_possible s (res_connector_type r) kept specific
      then keep_global_reservations s specific rest (kept @ [r]) to_cancel
      else keep_global_reservations s specific rest kept (to_cancel @ [res_reservation_id r]))"

definition check_reservations_and_cancel_if_not_possible ::
  "'a reservation_handler_scheme \<Rightarrow> 'a reservation_handler_scheme" where
  "check_reservations_and_cancel_if_not_possible s =
     (let (specific, to_cancel) = keep_evse_reservations s (evse_reservations s) [] [];
          (_, to_cancel) = keep_global_reservations s specific (global_reservations s) [] to_cancel
      in fold (\<lambda>reservation_id s. snd (cancel_reservation s reservation_id True Cancelled))
           to_cancel s)"

definition on_connector_state_changed ::
  "'a reservation_handler_scheme \<Rightarrow> ConnectorState \<Rightarrow> int \<Rightarrow> int \<Rightarrow>
     'a reservation_handler_scheme" where
  "on_connector_state_changed s connector_state evse_id connector_id =
     (if connector_state = AVAILABLE then s
      else case evse_at s evse_id of
        None \<Rightarrow> s
      | Some evse \<Rightarrow>
          (case find (\<lambda>c. connector_id = to_u32 (conn_id c)) (ec_connectors evse) of
             None \<Rightarrow> s
           | Some connector \<Rightarrow>
               (case map_of (evse_reservations s) evse_id of
                  Some r \<Rightarrow>
                    (case res_connector_type r of
                       Some t \<Rightarrow>
                         if connector_type_matches t connector
                         then snd (cancel_reservation s (res_reservation_id r) True Cancelled)
                         else check_reservations_and_cancel_if_not_possible s
                     | None \<Rightarrow> check_reservations_and_cancel_if_not_possible s)
                | None \<Rightarrow> check_reservations_and_cancel_if_not_possible s)))"

subsection \<open>Queries of the authorization handler\<close>

text \<open>The content of the dummy reservation is not used.\<close>

definition dummy_reservation :: Reservation where
  "dummy_reservation = \<lparr>res_evse_id = None, res_reservation_id = 0, res_id_token = [],
     res_expiry_time = 0, res_parent_id_token = None, res_connector_type = None\<rparr>"

definition is_charging_possible :: "'a reservation_handler_scheme \<Rightarrow> int \<Rightarrow> bool" where
  "is_charging_possible s evse_id =
     (if map_of (evse_reservations s) evse_id \<noteq> None then False
      else if evse_at s evse_id = None then False
      else is_reservation_possible s None (global_reservations s)
             (omap_insert evse_id dummy_reservation (evse_reservations s)))"

definition reservation_matches_token :: "string \<Rightarrow> string option \<Rightarrow> Reservation \<Rightarrow> bool" where
  "reservation_matches_token id_token parent_id_token r \<longleftrightarrow>
     is_equal_case_insensitive (res_id_token r) id_token \<or>
     (case (parent_id_token, res_parent_id_token r) of
        (Some p, Some q) \<Rightarrow> is_equal_case_insensitive p q | _ \<Rightarrow> False)"

definition matches_reserved_identifier ::
  "'a reservation_handler_scheme \<Rightarrow> string \<Rightarrow> int option \<Rightarrow> string option \<Rightarrow> int option" where
  "matches_reserved_identifier s id_token evse_id parent_id_token =
     (case Option.bind evse_id (map_of (evse_reservations s)) of
        Some r \<Rightarrow>
          if reservation_matches_token id_token parent_id_token r then Some (res_reservation_id r)
          else None
      | None \<Rightarrow>
          map_option res_reservation_id
            (find (reservation_matches_token id_token parent_id_token) (global_reservations s)))"

definition has_reservation_parent_id ::
  "'a reservation_handler_scheme \<Rightarrow> int option \<Rightarrow> bool" where
  "has_reservation_parent_id s evse_id =
     (let any_global = list_ex (\<lambda>r. res_parent_id_token r \<noteq> None) (global_reservations s)
      in case evse_id of
           None \<Rightarrow> any_global
         | Some e \<Rightarrow>
             if evse_at s e = None then False
             else (case map_of (evse_reservations s) e of
                     Some r \<Rightarrow> res_parent_id_token r \<noteq> None
                   | None \<Rightarrow> any_global))"

end
