(* ===== verification/Reservation_Feasible.thy ===== *)
theory Reservation_Feasible
  imports Reservation
begin

text \<open>
  What the feasibility test of the reservation handler decides. The handler simulates the arrival of
  the reserved cars in every order and at every EVSE they may choose; this is shown to be the
  property a driver with a reservation relies on: whichever of the other reserved cars have arrived,
  and wherever they have parked, the car still finds a free EVSE with a usable connector of its
  type. The property is monotone: it survives the removal of a reservation.
\<close>

subsection \<open>Which EVSE serves which car\<close>

definition suits ::
  "'a reservation_handler_scheme \<Rightarrow> (int, Reservation) omap \<Rightarrow> ConnectorTypeEnum \<Rightarrow> int \<Rightarrow> bool" where
  "suits s specific car e \<longleftrightarrow>
     (\<exists>entry\<in>set (evses s). to_u32 (fst entry) = e \<and> can_park s specific car entry)"

definition every_car_served ::
  "'a reservation_handler_scheme \<Rightarrow> (int, Reservation) omap \<Rightarrow> ConnectorTypeEnum list \<Rightarrow> bool" where
  "every_car_served s specific cars \<longleftrightarrow>
     (\<forall>car parked places.
        mset (car # parked) \<subseteq># mset cars \<and> list_all2 (suits s specific) parked places \<and>
        distinct places \<longrightarrow>
        (\<exists>e. e \<notin> set places \<and> suits s specific car e))"

lemma evse_at_cong: "evses s = evses t \<Longrightarrow> evse_at s = evse_at t"
  by (simp add: evse_at_def fun_eq_iff)

lemma evse_result_cong:
  "evses s = evses t \<Longrightarrow> get_evse_connector_state_reservation_result s =
     get_evse_connector_state_reservation_result t"
  by (simp add: get_evse_connector_state_reservation_result_def fun_eq_iff evse_at_cong [of s t])

lemma connector_result_cong:
  "evses s = evses t \<Longrightarrow> get_connector_availability_reservation_result s =
     get_connector_availability_reservation_result t"
  by (simp add: get_connector_availability_reservation_result_def fun_eq_iff evse_at_cong [of s t])

lemma can_park_cong: "evses s = evses t \<Longrightarrow> can_park s = can_park t"
  by (simp add: can_park_def fun_eq_iff evse_result_cong [of s t] connector_result_cong [of s t])

lemma suits_cong: "evses s = evses t \<Longrightarrow> suits s = suits t"
  by (simp add: suits_def fun_eq_iff can_park_cong [of s t])

lemma find_None_iff_ball: "find P xs = None \<longleftrightarrow> (\<forall>x\<in>set xs. \<not> P x)"
  by (auto simp: find_None_iff)

lemma evse_result_Accepted:
  "get_evse_connector_state_reservation_result s e specific = RAccepted \<longleftrightarrow>
     get_evse_connector_state_reservation_result s e [] = RAccepted \<and> map_of specific e = None"
  by (auto simp: get_evse_connector_state_reservation_result_def find_Some_iff
      split: option.splits if_splits)

lemma suits_specific:
  "suits s specific car e \<longleftrightarrow> suits s [] car e \<and> map_of specific e = None"
  unfolding suits_def can_park_def
  by (subst evse_result_Accepted) auto

subsection \<open>The simulated arrivals\<close>

lemma arrival_loop_last:
  "arrival_loop parks None used es possible \<longleftrightarrow>
     possible \<or> (\<exists>e\<in>set es. to_u32 (fst e) \<notin> set used \<and> parks e)"
  by (induction es arbitrary: possible) auto

lemma arrival_loop_next:
  "arrival_loop parks (Some f) used es possible \<longleftrightarrow>
     (possible \<or> (\<exists>e\<in>set es. to_u32 (fst e) \<notin> set used \<and> parks e)) \<and>
     (\<forall>e\<in>set es. to_u32 (fst e) \<notin> set used \<and> parks e \<longrightarrow> f (used @ [to_u32 (fst e)]))"
  by (induction es arbitrary: possible) auto

lemma can_virtual_car_arrive_Cons:
  "can_virtual_car_arrive s used (car # order) specific \<longleftrightarrow>
     (\<exists>e. e \<notin> set used \<and> suits s specific car e) \<and>
     (\<forall>e. e \<notin> set used \<and> suits s specific car e \<longrightarrow>
        order = [] \<or> can_virtual_car_arrive s (used @ [e]) order specific)"
  by (cases "order = []") (auto simp: arrival_loop_last arrival_loop_next suits_def)

lemma can_virtual_car_arrive_iff:
  "order \<noteq> [] \<Longrightarrow> can_virtual_car_arrive s used order specific \<longleftrightarrow>
     (\<forall>n<length order. \<forall>places.
        list_all2 (suits s specific) (take n order) places \<and> distinct places \<and>
        set places \<inter> set used = {} \<longrightarrow>
        (\<exists>e. e \<notin> set used \<union> set places \<and> suits s specific (order ! n) e))"
proof (induction order arbitrary: used)
  case (Cons car order)
  let ?ok = "\<lambda>used order n places. list_all2 (suits s specific) (take n order) places \<and>
    distinct places \<and> set places \<inter> set used = {} \<longrightarrow>
    (\<exists>e. e \<notin> set used \<union> set places \<and> suits s specific (order ! n) e)"
  have rest: "(\<forall>n<length order. \<forall>places. ?ok used (car # order) (Suc n) places) \<longleftrightarrow>
    (\<forall>e. e \<notin> set used \<and> suits s specific car e \<longrightarrow>
       (\<forall>n<length order. \<forall>places. ?ok (used @ [e]) order n places))"
    by (auto simp: list_all2_Cons1)
      (metis (no_types, lifting) Int_insert_left_if0 distinct.simps(2) insert_iff list.simps(15))+
  have "(\<forall>n<length (car # order). \<forall>places. ?ok used (car # order) n places) \<longleftrightarrow>
    (\<exists>e. e \<notin> set used \<and> suits s specific car e) \<and>
    (\<forall>n<length order. \<forall>places. ?ok used (car # order) (Suc n) places)"
    by (simp add: All_less_Suc2)
  also have "\<dots> \<longleftrightarrow> can_virtual_car_arrive s used (car # order) specific"
    unfolding rest can_virtual_car_arrive_Cons using Cons.IH by (cases "order = []") auto
  finally show ?case by simp
qed simp

lemma orders_nonempty: "order \<in> set (get_all_possible_orders cars) \<Longrightarrow> order \<noteq> []"
  using set_get_all_possible_orders [of cars]
  by (cases "cars = []") (auto simp: same_elements_def get_all_possible_orders_def [of "[]"])

lemma order_prefix:
  "mset order = mset cars \<Longrightarrow> n < length order \<Longrightarrow>
   mset (order ! n # take n order) \<subseteq># mset cars"
proof -
  assume "mset order = mset cars" "n < length order"
  moreover from this have "order = take n order @ order ! n # drop (Suc n) order"
    by (simp add: id_take_nth_drop)
  then have "mset order = mset (order ! n # take n order) + mset (drop (Suc n) order)"
    by (metis (no_types, lifting) mset.simps(2) mset_append union_mset_add_mset_left
        union_mset_add_mset_right)
  ultimately show ?thesis by (metis mset_subset_eq_add_left)
qed

lemma order_extension:
  assumes "mset (car # parked) \<subseteq># mset cars"
  obtains rest where "mset (parked @ car # rest) = mset cars"
proof -
  from assms obtain M where "mset cars = mset (car # parked) + M"
    by (metis subset_mset.le_iff_add)
  moreover obtain rest where "M = mset rest" by (metis ex_mset)
  ultimately show ?thesis using that by simp
qed

lemma every_car_served_orders:
  "every_car_served s specific cars \<longleftrightarrow>
     (\<forall>order. mset order = mset cars \<longrightarrow> order \<noteq> [] \<longrightarrow>
        can_virtual_car_arrive s [] order specific)"
  (is "?served \<longleftrightarrow> ?orders")
proof
  assume ?served
  then show ?orders
    by (auto simp: can_virtual_car_arrive_iff every_car_served_def dest: order_prefix)
next
  assume orders: ?orders
  show ?served unfolding every_car_served_def
  proof (intro allI impI, elim conjE)
    fix car parked places
    assume sub: "mset (car # parked) \<subseteq># mset cars"
      and places: "list_all2 (suits s specific) parked places" "distinct places"
    obtain rest where rest: "mset (parked @ car # rest) = mset cars"
      using sub by (rule order_extension)
    with orders have "can_virtual_car_arrive s [] (parked @ car # rest) specific" by blast
    then have "list_all2 (suits s specific) (take (length parked) (parked @ car # rest)) places \<and>
        distinct places \<longrightarrow> (\<exists>e. e \<notin> set places \<and>
          suits s specific ((parked @ car # rest) ! length parked) e)"
      by (subst (asm) can_virtual_car_arrive_iff) (auto dest!: spec [of _ "length parked"])
    then show "\<exists>e. e \<notin> set places \<and> suits s specific car e" using places by simp
  qed
qed

lemma all_orders_arrive:
  "list_all (\<lambda>order. can_virtual_car_arrive s [] order specific) (get_all_possible_orders cars)
     \<longleftrightarrow> every_car_served s specific cars"
proof (cases "cars = []")
  case True
  then show ?thesis by (simp add: get_all_possible_orders_def every_car_served_def)
next
  case False
  then show ?thesis
    by (auto simp: list_all_iff set_get_all_possible_orders same_elements_def
        every_car_served_orders)
qed

definition cars_of :: "Reservation list \<Rightarrow> ConnectorTypeEnum option \<Rightarrow> ConnectorTypeEnum list" where
  "cars_of rs extra = map requested_type rs @ (case extra of Some t \<Rightarrow> [t] | None \<Rightarrow> [])"

lemma is_reservation_possible_iff:
  "is_reservation_possible s extra rs specific \<longleftrightarrow>
     length (cars_of rs extra) + length specific \<le> length (evses s) \<and>
     every_car_served s specific (cars_of rs extra)"
  by (simp add: is_reservation_possible_def all_orders_arrive Let_def cars_of_def not_less)

lemma is_reservation_possible_cong:
  "evses s = evses t \<Longrightarrow> is_reservation_possible s = is_reservation_possible t"
  by (simp add: is_reservation_possible_iff every_car_served_def fun_eq_iff suits_cong [of s t])

text \<open>
  C6. The feasibility test accepts a set of reservations if and only if there are at least as many
  EVSEs as reservations and every reserved car is served: whichever other cars with a global
  reservation have already arrived, and wherever each of them has parked, the car finds a free EVSE
  that is not reserved for somebody else and has a usable connector of the requested type. The test
  simulates all arrival orders and all choices of EVSEs; nothing is missed because the orders are
  started from the unsorted list of requests.
\<close>

theorem is_reservation_possible_serves_every_car:
  "is_reservation_possible s extra rs specific \<longleftrightarrow>
     length (cars_of rs extra) + length specific \<le> length (evses s) \<and>
     every_car_served s specific (cars_of rs extra)"
  by (rule is_reservation_possible_iff)

text \<open>
  C29. The enumeration of arrival orders yields every permutation of the requested connector types,
  although it starts at the list as it is and not at the sorted one; no order is simulated twice.
\<close>

theorem all_possible_orders_complete:
  fixes connectors :: "ConnectorTypeEnum list"
  assumes "connectors \<noteq> []"
  shows "set (get_all_possible_orders connectors) = {order. mset order = mset connectors} \<and>
    distinct (get_all_possible_orders connectors)"
  using set_get_all_possible_orders [OF assms] distinct_get_all_possible_orders
  by (simp add: same_elements_def)

theorem all_possible_orders_complete_witness:
  "[cType2, cCCS2] \<noteq> [] \<and> [cCCS2, cType2] \<in> set (get_all_possible_orders [cType2, cCCS2])"
  using all_possible_orders_complete [of "[cType2, cCCS2]"] by simp

subsection \<open>Monotonicity\<close>

lemma every_car_served_mono:
  "every_car_served s specific cars \<Longrightarrow> mset cars' \<subseteq># mset cars \<Longrightarrow>
   every_car_served s specific cars'"
  unfolding every_car_served_def by (blast intro: subset_mset.order_trans)

text \<open>
  Releasing an EVSE: the car that takes the released EVSE, if any, can be thought to arrive last.
\<close>

lemma list_all2_remove:
  assumes "list_all2 P xs ys" and "y \<in> set ys"
  obtains xs1 x xs2 ys1 ys2 where "xs = xs1 @ x # xs2" "ys = ys1 @ y # ys2" "P x y"
    "list_all2 P (xs1 @ xs2) (ys1 @ ys2)"
proof -
  from assms(2) obtain ys1 ys2 where ys: "ys = ys1 @ y # ys2" by (meson split_list)
  with assms(1) obtain xs1 x xs2 where "xs = xs1 @ x # xs2" "list_all2 P xs1 ys1" "P x y"
      "list_all2 P xs2 ys2"
    by (auto simp: list_all2_append2 list_all2_Cons2)
  then show ?thesis using ys by (intro that) (auto intro: list_all2_appendI)
qed

lemma every_car_served_release:
  assumes served: "every_car_served s specific cars"
    and fewer: "\<And>e. e \<noteq> e0 \<Longrightarrow> map_of specific' e = map_of specific e"
    and released: "map_of specific' e0 = None"
  shows "every_car_served s specific' cars"
  unfolding every_car_served_def
proof (intro allI impI, elim conjE)
  fix car parked places
  assume cars: "mset (car # parked) \<subseteq># mset cars"
    and places: "list_all2 (suits s specific') parked places" "distinct places"
  have up: "suits s specific' c e" if "suits s specific c e" for c e
    using that fewer released unfolding suits_specific [of s specific] suits_specific [of s specific']
    by (cases "e = e0") auto
  have down: "suits s specific c e" if "suits s specific' c e" "e \<noteq> e0" for c e
    using that fewer unfolding suits_specific [of s specific] suits_specific [of s specific'] by auto
  have down_all: "list_all2 (suits s specific) ps qs"
    if "list_all2 (suits s specific') ps qs" "e0 \<notin> set qs" for ps qs
    using that by (induction rule: list_all2_induct) (auto intro: down)
  show "\<exists>e. e \<notin> set places \<and> suits s specific' car e"
  proof (cases "e0 \<in> set places")
    case False
    then have "list_all2 (suits s specific) parked places"
      using places(1) by (intro down_all)
    with served cars places(2) up show ?thesis unfolding every_car_served_def by blast
  next
    case True
    obtain p1 p p2 q1 q2 where parts: "parked = p1 @ p # p2" "places = q1 @ e0 # q2"
      "list_all2 (suits s specific') (p1 @ p2) (q1 @ q2)"
      using places(1) True by (rule list_all2_remove)
    with places(2) have "e0 \<notin> set (q1 @ q2)" "distinct (q1 @ q2)" by auto
    then have "list_all2 (suits s specific) (p1 @ p2) (q1 @ q2)"
      using parts(3) by (intro down_all)
    moreover have "mset (car # p1 @ p2) \<subseteq># mset (car # parked)"
      using parts(1) by simp
    then have "mset (car # p1 @ p2) \<subseteq># mset cars"
      using cars by (rule subset_mset.order_trans)
    ultimately obtain e where "e \<notin> set (q1 @ q2)" "suits s specific car e"
      using served \<open>distinct (q1 @ q2)\<close> unfolding every_car_served_def by metis
    show ?thesis
    proof (cases "map_of specific e0 = None")
      case True
      then have "suits s specific' = suits s specific"
        using fewer released unfolding fun_eq_iff suits_specific [of s specific]
          suits_specific [of s specific'] by metis
      with served cars places show ?thesis unfolding every_car_served_def by metis
    next
      case False
      with \<open>suits s specific car e\<close> have "e \<noteq> e0" unfolding suits_specific [of s specific] by metis
      with \<open>e \<notin> set (q1 @ q2)\<close> \<open>suits s specific car e\<close> parts(2) up show ?thesis by auto
    qed
  qed
qed

lemma mset_cars_of_filter:
  "mset (cars_of (filter P rs) None) \<subseteq># mset (cars_of rs None)"
  by (simp add: cars_of_def image_mset_subseteq_mono multiset_filter_subset mset_filter)

lemma is_reservation_possible_filter:
  "is_reservation_possible s None rs specific \<Longrightarrow>
   is_reservation_possible s None (filter P rs) specific"
  unfolding is_reservation_possible_iff
  using every_car_served_mono [OF _ mset_cars_of_filter, of s specific rs P]
  by (auto simp: cars_of_def intro: order_trans [OF add_right_mono [OF length_filter_le]])

lemma length_omap_erase: "length (omap_erase e m) \<le> length m"
  by (simp add: omap_erase_def)

lemma is_reservation_possible_erase:
  "is_reservation_possible s None rs specific \<Longrightarrow>
   is_reservation_possible s None rs (omap_erase e specific)"
  unfolding is_reservation_possible_iff
  using every_car_served_release [of s specific _ e "omap_erase e specific"]
    order_trans [OF add_left_mono [OF length_omap_erase]]
  by (auto simp: omap_lookup_erase)

lemma is_reservation_possible_snoc:
  "is_reservation_possible s (Some (requested_type r)) rs specific \<longleftrightarrow>
   is_reservation_possible s None (rs @ [r]) specific"
  by (simp add: is_reservation_possible_iff cars_of_def)

end
