(* ===== verification/Reservation_Safety.thy ===== *)
theory Reservation_Safety
  imports Reservation_Feasible
begin

text \<open>
  Safety of the reservation handler over every sequence of its operations: each reservation has one
  id, one timer and at most one EVSE; the key-value store mirrors the reservations; what has been
  accepted can be served; cancelling one reservation never endangers another; and a restart restores
  what was stored.
\<close>

subsection \<open>What the operations leave alone\<close>

lemma emit_fields [simp]:
  "evses (emit c s) = evses s"
  "evse_reservations (emit c s) = evse_reservations s"
  "global_reservations (emit c s) = global_reservations s"
  "restored_reservations (emit c s) = restored_reservations s"
  "reservation_timers (emit c s) = reservation_timers s"
  "kvs (emit c s) = kvs s"
  "last_reserved_status (emit c s) = last_reserved_status s"
  "manager_accepts (emit c s) = manager_accepts s"
  "calls (emit c s) = calls s @ [c]"
  by (simp_all add: emit_def)

lemma emit_calls_only: "emit c s = s\<lparr>calls := calls (emit c s)\<rparr>"
  by (simp add: emit_def)

lemma fold_emit: "fold (\<lambda>x. emit (f x)) xs s = s\<lparr>calls := calls s @ map f xs\<rparr>"
  by (induction xs arbitrary: s) (simp_all add: emit_def)

text \<open>The cancellation callback only writes the trace and the last reported status.\<close>

lemma check_number_writes:
  obtains status l where "check_number_global_reservations_match_number_available_evses s =
    (status, s\<lparr>last_reserved_status := l\<rparr>)"
proof (cases "length (available_evse_ids s) = length (global_reservations s)")
  case True
  with that show ?thesis
    by (simp add: check_number_global_reservations_match_number_available_evses_def Let_def
        get_evse_global_reserved_status_and_set_new_status_def)
next
  case False
  with that show ?thesis
    by (simp add: check_number_global_reservations_match_number_available_evses_def Let_def
        get_evse_global_reserved_status_and_set_new_status_def)
qed

lemma send_updates_writes:
  obtains l c where "check_evse_reserved_and_send_updates s =
    s\<lparr>last_reserved_status := l, calls := calls s @ c\<rparr>"
proof -
  obtain status l where "check_number_global_reservations_match_number_available_evses s =
      (status, s\<lparr>last_reserved_status := l\<rparr>)" by (rule check_number_writes)
  with that show ?thesis
    by (simp add: check_evse_reserved_and_send_updates_def fold_emit)
qed

lemma cancelled_callback_writes:
  obtains l c where "reservation_cancelled_callback s evse_id i reason upd =
    s\<lparr>last_reserved_status := l, calls := calls s @ c\<rparr>"
proof (cases "case map_option to_s32 evse_id of Some e \<Rightarrow> e < 0 | None \<Rightarrow> False")
  case True
  then show ?thesis
    using that [where l = "last_reserved_status s" and c = "[]"]
    by (simp add: reservation_cancelled_callback_def)
next
  case False
  let ?s = "emit (Reservation_Cancelled_Call (map_option to_s32 evse_id) i reason upd) s"
  obtain l c where "check_evse_reserved_and_send_updates ?s =
      ?s\<lparr>last_reserved_status := l, calls := calls ?s @ c\<rparr>"
    by (rule send_updates_writes)
  then show ?thesis
    using that [where l = l and
        c = "Reservation_Cancelled_Call (map_option to_s32 evse_id) i reason upd # c"] False
    by (simp add: reservation_cancelled_callback_def call_reservation_cancelled_def Let_def)
      (simp add: emit_def)
qed

lemma cancelled_callback_fields [simp]:
  "evses (reservation_cancelled_callback s evse_id i reason upd) = evses s"
  "evse_reservations (reservation_cancelled_callback s evse_id i reason upd) = evse_reservations s"
  "global_reservations (reservation_cancelled_callback s evse_id i reason upd) = global_reservations s"
  "restored_reservations (reservation_cancelled_callback s evse_id i reason upd) =
     restored_reservations s"
  "reservation_timers (reservation_cancelled_callback s evse_id i reason upd) = reservation_timers s"
  "kvs (reservation_cancelled_callback s evse_id i reason upd) = kvs s"
  "manager_accepts (reservation_cancelled_callback s evse_id i reason upd) = manager_accepts s"
  by (rule cancelled_callback_writes [of s evse_id i reason upd], simp)+

lemma send_updates_fields [simp]:
  "evses (check_evse_reserved_and_send_updates s) = evses s"
  "evse_reservations (check_evse_reserved_and_send_updates s) = evse_reservations s"
  "global_reservations (check_evse_reserved_and_send_updates s) = global_reservations s"
  "restored_reservations (check_evse_reserved_and_send_updates s) = restored_reservations s"
  "reservation_timers (check_evse_reserved_and_send_updates s) = reservation_timers s"
  "kvs (check_evse_reserved_and_send_updates s) = kvs s"
  "manager_accepts (check_evse_reserved_and_send_updates s) = manager_accepts s"
  by (rule send_updates_writes [of s], simp)+

lemma store_fields [simp]:
  "evses (store_reservations s) = evses s"
  "evse_reservations (store_reservations s) = evse_reservations s"
  "global_reservations (store_reservations s) = global_reservations s"
  "restored_reservations (store_reservations s) = restored_reservations s"
  "reservation_timers (store_reservations s) = reservation_timers s"
  by (simp_all add: store_reservations_def)

lemma timer_fields [simp]:
  "evses (set_reservation_timer r s) = evses s"
  "evse_reservations (set_reservation_timer r s) = evse_reservations s"
  "global_reservations (set_reservation_timer r s) = global_reservations s"
  "restored_reservations (set_reservation_timer r s) = restored_reservations s"
  "reservation_timers (set_reservation_timer r s) =
     omap_insert (res_reservation_id r) (res_expiry_time r) (reservation_timers s)"
  "kvs (set_reservation_timer r s) = kvs s"
  by (simp_all add: set_reservation_timer_def)

lemma erase_reservation_fields [simp]:
  "evses (erase_reservation i e s) = evses s"
  "restored_reservations (erase_reservation i e s) = restored_reservations s"
  "reservation_timers (erase_reservation i e s) = reservation_timers s"
  "kvs (erase_reservation i e s) = kvs s"
  by (simp_all add: erase_reservation_def split: option.splits)

subsection \<open>Invariant\<close>

definition all_reservations :: "'a reservation_handler_scheme \<Rightarrow> Reservation list" where
  "all_reservations s = map snd (evse_reservations s) @ global_reservations s"

definition evses_wf :: "'a reservation_handler_scheme \<Rightarrow> bool" where
  "evses_wf s \<longleftrightarrow> omap_wf (evses s) \<and> fst ` set (evses s) \<subseteq> {k. 0 < k \<and> s32_range k}"

definition reservations_wf :: "'a reservation_handler_scheme \<Rightarrow> bool" where
  "reservations_wf s \<longleftrightarrow>
     omap_wf (evse_reservations s) \<and> fst ` set (evse_reservations s) \<subseteq> fst ` set (evses s) \<and>
     distinct (map res_reservation_id (all_reservations s)) \<and>
     omap_wf (reservation_timers s) \<and>
     fst ` set (reservation_timers s) = res_reservation_id ` set (all_reservations s)"

definition stored_current :: "'a reservation_handler_scheme \<Rightarrow> bool" where
  "stored_current s \<longleftrightarrow> kvs s = None \<or> kvs s = Some (Stored_Array (stored_reservations s))"

text \<open>
  The handler's own test on the reservations in force. It places the global reservations on the EVSEs
  that are not reserved; of the reservations for an EVSE it looks at their number and at the EVSEs they
  take, not at whether these can still serve them.
\<close>

definition feasible :: "'a reservation_handler_scheme \<Rightarrow> bool" where
  "feasible s \<longleftrightarrow> is_reservation_possible s None (global_reservations s) (evse_reservations s)"

lemma store_reservations_current: "stored_current (store_reservations s)"
  by (simp add: stored_current_def store_reservations_def stored_reservations_def)

lemma stored_current_cong:
  "kvs t = kvs s \<Longrightarrow> evse_reservations t = evse_reservations s \<Longrightarrow>
   global_reservations t = global_reservations s \<Longrightarrow> stored_current t = stored_current s"
  by (simp add: stored_current_def stored_reservations_def)

lemma feasible_cong:
  "evses t = evses s \<Longrightarrow> evse_reservations t = evse_reservations s \<Longrightarrow>
   global_reservations t = global_reservations s \<Longrightarrow> feasible t = feasible s"
  by (simp add: feasible_def is_reservation_possible_cong [of t s])

lemma reservations_wf_cong:
  "evses t = evses s \<Longrightarrow> evse_reservations t = evse_reservations s \<Longrightarrow>
   global_reservations t = global_reservations s \<Longrightarrow>
   reservation_timers t = reservation_timers s \<Longrightarrow> reservations_wf t = reservations_wf s"
  by (simp add: reservations_wf_def all_reservations_def)

lemma evses_wf_cong: "evses t = evses s \<Longrightarrow> evses_wf t = evses_wf s"
  by (simp add: evses_wf_def)

subsection \<open>Cancelling removes exactly one reservation\<close>

lemma erase_first_filter:
  "distinct (map f xs) \<Longrightarrow> erase_first (\<lambda>x. f x = i) xs = filter (\<lambda>x. f x \<noteq> i) xs"
proof (induction xs)
  case (Cons x xs)
  show ?case
  proof (cases "f x = i")
    case True
    with Cons.prems have "\<forall>y\<in>set xs. f y \<noteq> i" by (force simp: image_iff)
    then have "filter (\<lambda>y. f y \<noteq> i) xs = xs" by (rule filter_True)
    with True show ?thesis by simp
  next
    case False
    with Cons show ?thesis by simp
  qed
qed simp

lemma foldl_last_match:
  "foldl (\<lambda>found (e, r). if P r then Some e else found) start xs = Some e \<Longrightarrow>
   start = Some e \<or> (\<exists>r. (e, r) \<in> set xs \<and> P r)"
proof (induction xs arbitrary: start)
  case (Cons x xs)
  obtain e' r where "x = (e', r)" by (cases x)
  with Cons.prems Cons.IH [of "if P r then Some e' else start"] show ?case
    by (cases "P r") auto
qed simp

lemma foldl_no_match:
  "foldl (\<lambda>found (e, r). if P r then Some e else found) start xs = None \<Longrightarrow>
   start = None \<and> (\<forall>e r. (e, r) \<in> set xs \<longrightarrow> \<not> P r)"
proof (induction xs arbitrary: start)
  case (Cons x xs)
  obtain e' r where "x = (e', r)" by (cases x)
  with Cons.prems Cons.IH [of "if P r then Some e' else start"] show ?case
    by (cases "P r") auto
qed simp

lemma evse_of_reservation_Some:
  "evse_of_reservation s i = Some e \<Longrightarrow> \<exists>r. (e, r) \<in> set (evse_reservations s) \<and> res_reservation_id r = i"
  unfolding evse_of_reservation_def by (drule foldl_last_match) auto

lemma evse_of_reservation_None:
  "evse_of_reservation s i = None \<Longrightarrow> (e, r) \<in> set (evse_reservations s) \<Longrightarrow> res_reservation_id r \<noteq> i"
  unfolding evse_of_reservation_def by (drule foldl_no_match) auto

lemma map_filter_distinct_ids:
  assumes "omap_wf m" "distinct (map (f \<circ> snd) m)" "(e, r) \<in> set m" "f r = i"
  shows "omap_erase e m = filter (\<lambda>e. f (snd e) \<noteq> i) m"
  unfolding omap_erase_def
proof (rule filter_cong [OF refl])
  fix x assume x: "x \<in> set m"
  have "x = (e, r)" if "f (snd x) = i"
    using assms(2-4) x that inj_onD [of "f \<circ> snd" "set m" x "(e, r)"] by (simp add: distinct_map)
  moreover have "x = (e, r)" if "fst x = e"
    using omap_distinct_keys [OF assms(1)] assms(3) x that
      inj_onD [of fst "set m" x "(e, r)"] by (simp add: distinct_map)
  ultimately show "fst x \<noteq> e \<longleftrightarrow> f (snd x) \<noteq> i"
    using assms(4) by (metis fst_conv snd_conv)
qed

lemma ids_distinct_parts:
  assumes "reservations_wf s"
  shows "distinct (map (res_reservation_id \<circ> snd) (evse_reservations s))"
    "distinct (map res_reservation_id (global_reservations s))"
    "res_reservation_id ` snd ` set (evse_reservations s) \<inter>
       res_reservation_id ` set (global_reservations s) = {}"
  using assms by (auto simp: reservations_wf_def all_reservations_def)

lemma erase_reservation_filters:
  fixes i :: int
  assumes wf: "reservations_wf s"
  defines "t \<equiv> erase_reservation i (evse_of_reservation s i) s"
  shows "evse_reservations t = filter (\<lambda>e. res_reservation_id (snd e) \<noteq> i) (evse_reservations s)"
    "global_reservations t = filter (\<lambda>r. res_reservation_id r \<noteq> i) (global_reservations s)"
proof -
  note ids = ids_distinct_parts [OF wf]
  have "evse_reservations t = filter (\<lambda>e. res_reservation_id (snd e) \<noteq> i) (evse_reservations s) \<and>
    global_reservations t = filter (\<lambda>r. res_reservation_id r \<noteq> i) (global_reservations s)"
  proof (cases "evse_of_reservation s i")
    case None
    have "filter (\<lambda>e. res_reservation_id (snd e) \<noteq> i) (evse_reservations s) = evse_reservations s"
      using evse_of_reservation_None [OF None] by (intro filter_True ballI) (metis prod.collapse)
    with None show ?thesis
      by (simp add: t_def erase_reservation_def erase_first_filter [OF ids(2)])
  next
    case (Some e)
    then obtain r where r: "(e, r) \<in> set (evse_reservations s)" "res_reservation_id r = i"
      using evse_of_reservation_Some by blast
    then have "i \<in> res_reservation_id ` snd ` set (evse_reservations s)" by force
    with ids(3) have "\<forall>g\<in>set (global_reservations s). res_reservation_id g \<noteq> i" by blast
    then have "filter (\<lambda>g. res_reservation_id g \<noteq> i) (global_reservations s) = global_reservations s"
      by (rule filter_True)
    moreover have "omap_erase e (evse_reservations s) =
        filter (\<lambda>e. res_reservation_id (snd e) \<noteq> i) (evse_reservations s)"
      using wf ids(1) r by (intro map_filter_distinct_ids) (auto simp: reservations_wf_def)
    ultimately show ?thesis using Some by (simp add: t_def erase_reservation_def)
  qed
  then show "evse_reservations t = filter (\<lambda>e. res_reservation_id (snd e) \<noteq> i) (evse_reservations s)"
    "global_reservations t = filter (\<lambda>r. res_reservation_id r \<noteq> i) (global_reservations s)"
    by blast+
qed

abbreviation cancelled ::
  "'a reservation_handler_scheme \<Rightarrow> int \<Rightarrow> bool \<Rightarrow> ReservationEndReason \<Rightarrow>
     'a reservation_handler_scheme" where
  "cancelled s i cb reason \<equiv> snd (cancel_reservation s i cb reason)"

lemma no_timer_no_reservation:
  assumes "reservations_wf s" and "map_of (reservation_timers s) i = None"
  shows "filter (\<lambda>e. res_reservation_id (snd e) \<noteq> i) (evse_reservations s) = evse_reservations s"
    "filter (\<lambda>r. res_reservation_id r \<noteq> i) (global_reservations s) = global_reservations s"
proof -
  have "i \<notin> res_reservation_id ` set (all_reservations s)"
    using assms by (simp add: reservations_wf_def map_of_eq_None_iff)
  then show "filter (\<lambda>e. res_reservation_id (snd e) \<noteq> i) (evse_reservations s) = evse_reservations s"
    "filter (\<lambda>r. res_reservation_id r \<noteq> i) (global_reservations s) = global_reservations s"
    by (intro filter_True; force simp: all_reservations_def)+
qed

lemma reservations_wf_timers:
  "evse_of_reservation (s\<lparr>reservation_timers := ts\<rparr>) = evse_of_reservation s"
  "erase_reservation i e (s\<lparr>reservation_timers := ts\<rparr>) =
     (erase_reservation i e s)\<lparr>reservation_timers := ts\<rparr>"
  by (auto simp: evse_of_reservation_def erase_reservation_def fun_eq_iff split: option.splits)

lemma cancelled_evses [simp]: "evses (cancelled s i cb reason) = evses s"
  by (simp add: cancel_reservation_def Let_def)

lemma cancelled_restored [simp]:
  "restored_reservations (cancelled s i cb reason) = restored_reservations s"
  by (simp add: cancel_reservation_def Let_def)

lemma cancelled_timers:
  "reservation_timers (cancelled s i cb reason) = omap_erase i (reservation_timers s)"
proof (cases "map_of (reservation_timers s) i = None")
  case True
  then have "omap_erase i (reservation_timers s) = reservation_timers s"
    unfolding omap_erase_def by (intro filter_True) (auto simp: map_of_eq_None_iff)
  with True show ?thesis by (simp add: cancel_reservation_def)
qed (auto simp: cancel_reservation_def Let_def)

lemma cancelled_reservations:
  assumes wf: "reservations_wf s"
  shows "evse_reservations (cancelled s i cb reason) =
       filter (\<lambda>e. res_reservation_id (snd e) \<noteq> i) (evse_reservations s)"
    "global_reservations (cancelled s i cb reason) =
       filter (\<lambda>r. res_reservation_id r \<noteq> i) (global_reservations s)"
proof -
  have "evse_reservations (cancelled s i cb reason) =
       filter (\<lambda>e. res_reservation_id (snd e) \<noteq> i) (evse_reservations s) \<and>
    global_reservations (cancelled s i cb reason) =
       filter (\<lambda>r. res_reservation_id r \<noteq> i) (global_reservations s)"
  proof (cases "map_of (reservation_timers s) i = None")
    case True
    with no_timer_no_reservation [OF wf True] show ?thesis by (simp add: cancel_reservation_def)
  next
    case False
    with erase_reservation_filters [OF wf, of i] show ?thesis
      by (auto simp: cancel_reservation_def Let_def reservations_wf_timers)
  qed
  then show "evse_reservations (cancelled s i cb reason) =
       filter (\<lambda>e. res_reservation_id (snd e) \<noteq> i) (evse_reservations s)"
    "global_reservations (cancelled s i cb reason) =
       filter (\<lambda>r. res_reservation_id r \<noteq> i) (global_reservations s)"
    by blast+
qed

lemmas cancelled_fields = cancelled_evses cancelled_restored cancelled_timers cancelled_reservations

lemma distinct_filter_ids: "distinct (map f xs) \<Longrightarrow> distinct (map f (filter P xs))"
  by (induction xs) auto

lemma cancelled_all_reservations:
  "reservations_wf s \<Longrightarrow> all_reservations (cancelled s i cb reason) =
     filter (\<lambda>r. res_reservation_id r \<noteq> i) (all_reservations s)"
  by (simp add: all_reservations_def cancelled_fields filter_map comp_def)

lemma image_filter_ne: "f ` set (filter (\<lambda>x. f x \<noteq> i) xs) = f ` set xs - {i}"
  by auto

lemma omap_wf_filter: "omap_wf m \<Longrightarrow> omap_wf (filter P m)"
  by (auto simp: omap_wf_def sorted_wrt_map intro: sorted_wrt_filter)

lemma cancelled_wf:
  assumes "reservations_wf s"
  shows "reservations_wf (cancelled s i cb reason)"
  unfolding reservations_wf_def cancelled_all_reservations [OF assms]
    cancelled_reservations [OF assms] cancelled_timers cancelled_evses
proof (intro conjI)
  note wf = assms [unfolded reservations_wf_def]
  show "omap_wf (filter (\<lambda>e. res_reservation_id (snd e) \<noteq> i) (evse_reservations s))"
    "omap_wf (omap_erase i (reservation_timers s))"
    using wf by (blast intro: omap_wf_filter omap_wf_erase)+
  show "fst ` set (filter (\<lambda>e. res_reservation_id (snd e) \<noteq> i) (evse_reservations s))
      \<subseteq> fst ` set (evses s)"
    using wf by auto
  show "distinct (map res_reservation_id
      (filter (\<lambda>r. res_reservation_id r \<noteq> i) (all_reservations s)))"
    using wf by (blast intro: distinct_filter_ids)
  show "fst ` set (omap_erase i (reservation_timers s)) =
      res_reservation_id ` set (filter (\<lambda>r. res_reservation_id r \<noteq> i) (all_reservations s))"
    using wf by (simp only: omap_erase_def image_filter_ne)
qed

lemma callback_current:
  "stored_current (reservation_cancelled_callback s e i reason upd) = stored_current s"
  by (rule stored_current_cong) simp_all

lemma cancelled_current: "stored_current s \<Longrightarrow> stored_current (cancelled s i cb reason)"
  by (simp add: cancel_reservation_def Let_def callback_current store_reservations_current)

lemma is_reservation_possible_filter_specific:
  "is_reservation_possible s None rs specific \<Longrightarrow> omap_wf specific \<Longrightarrow>
   distinct (map (f \<circ> snd) specific) \<Longrightarrow>
   is_reservation_possible s None rs (filter (\<lambda>e. f (snd e) \<noteq> i) specific)"
proof (cases "\<exists>(e, r)\<in>set specific. f r = i")
  case True
  then obtain e r where "(e, r) \<in> set specific" "f r = i" by auto
  moreover assume "is_reservation_possible s None rs specific" "omap_wf specific"
    "distinct (map (f \<circ> snd) specific)"
  ultimately show ?thesis
    using is_reservation_possible_erase [of s rs specific e] map_filter_distinct_ids [of specific f e r i]
    by simp
next
  case False
  then have "filter (\<lambda>e. f (snd e) \<noteq> i) specific = specific" by (intro filter_True) auto
  moreover assume "is_reservation_possible s None rs specific"
  ultimately show ?thesis by simp
qed

lemma cancelled_feasible:
  assumes "reservations_wf s" and "feasible s"
  shows "feasible (cancelled s i cb reason)"
  using assms(2) ids_distinct_parts(1) [OF assms(1)] assms(1)
  unfolding feasible_def cancelled_reservations [OF assms(1)]
    is_reservation_possible_cong [OF cancelled_evses]
  by (intro is_reservation_possible_filter is_reservation_possible_filter_specific)
    (auto simp: reservations_wf_def)

subsection \<open>A request is accepted or leaves the reservations alone\<close>

lemma get_new_connector_state_not_available:
  "state \<noteq> AVAILABLE \<Longrightarrow> get_new_connector_state state new \<noteq> AVAILABLE"
  by (cases new) (auto simp: get_new_connector_state_def less_ConnectorState_def)

lemma foldl_not_available:
  "(\<And>state x. state \<noteq> AVAILABLE \<Longrightarrow> f state x \<noteq> AVAILABLE) \<Longrightarrow> state \<noteq> AVAILABLE \<Longrightarrow>
   foldl f state xs \<noteq> AVAILABLE"
  by (induction xs arbitrary: state) auto

lemma worst_connector_state_not_available:
  "state \<noteq> AVAILABLE \<Longrightarrow> worst_connector_state t state cs \<noteq> AVAILABLE"
  by (induction cs arbitrary: state) (auto simp: get_new_connector_state_not_available)

lemma reservation_result_Accepted:
  "connector_state_to_reservation_result state = RAccepted \<longleftrightarrow> state = AVAILABLE"
  by (cases state) auto

lemma refusal_not_accepted: "get_reservation_evse_connector_state s t \<noteq> RAccepted"
proof -
  have plugged: "foldl (\<lambda>state (_, evse). if ec_plugged_in evse
      then get_new_connector_state state OCCUPIED else state) UNAVAILABLE (evses s) \<noteq> AVAILABLE"
    by (rule foldl_not_available)
      (auto simp: get_new_connector_state_not_available split: if_splits)
  moreover have "foldl (\<lambda>state evse. worst_connector_state t state (ec_connectors evse)) x xs
      \<noteq> AVAILABLE" if "x \<noteq> AVAILABLE" for x xs
    using that by (rule foldl_not_available [rotated])
      (auto simp: worst_connector_state_not_available)
  ultimately show ?thesis
    by (auto simp: get_reservation_evse_connector_state_def Let_def reservation_result_Accepted)
qed

definition evse_request_ok :: "'a reservation_handler_scheme \<Rightarrow> int \<Rightarrow> Reservation \<Rightarrow> bool" where
  "evse_request_ok s e r \<longleftrightarrow> map_of (evse_reservations s) e = None \<and>
     (\<exists>evse. evse_at s e = Some evse \<and> has_evse_connector_type (ec_connectors evse) (requested_type r)) \<and>
     get_evse_connector_state_reservation_result s e (evse_reservations s) = RAccepted \<and>
     get_connector_availability_reservation_result s e (requested_type r) = RAccepted \<and>
     (global_reservations s \<noteq> [] \<longrightarrow> is_reservation_possible s None (global_reservations s)
        (omap_insert e r (evse_reservations s)))"

lemma make_evse_reservation_Accepted:
  "fst (make_evse_reservation s e r) = RAccepted \<longleftrightarrow> evse_request_ok s e r"
  using refusal_not_accepted [of s "requested_type r"]
  by (auto simp: make_evse_reservation_def evse_request_ok_def Let_def split: option.splits)

lemma make_evse_reservation_refused:
  "\<not> evse_request_ok s e r \<Longrightarrow> snd (make_evse_reservation s e r) = s"
  by (auto simp: make_evse_reservation_def evse_request_ok_def Let_def split: option.splits)

lemma store_timer_commute:
  "store_reservations ((set_reservation_timer r s)\<lparr>evse_reservations := m\<rparr>) =
   set_reservation_timer r (store_reservations (s\<lparr>evse_reservations := m\<rparr>))"
  by (simp add: store_reservations_def set_reservation_timer_def stored_reservations_def)

lemma make_evse_reservation_placed:
  "evse_request_ok s e r \<Longrightarrow> snd (make_evse_reservation s e r) =
     set_reservation_timer r (store_reservations
       (s\<lparr>evse_reservations := omap_insert e r (evse_reservations s)\<rparr>))"
  by (auto simp: make_evse_reservation_def evse_request_ok_def Let_def store_timer_commute)

definition global_request_ok :: "'a reservation_handler_scheme \<Rightarrow> Reservation \<Rightarrow> bool" where
  "global_request_ok s r \<longleftrightarrow>
     (\<forall>t. res_connector_type r = Some t \<longrightarrow> does_evse_connector_type_exist s t) \<and>
     is_reservation_possible s None (global_reservations s @ [r]) (evse_reservations s)"

lemma make_global_reservation_Accepted:
  "fst (make_global_reservation s r) = RAccepted \<longleftrightarrow> global_request_ok s r"
  using refusal_not_accepted [of s "requested_type r"]
  by (auto simp: make_global_reservation_def global_request_ok_def is_reservation_possible_snoc
      split: option.splits)

lemma make_global_reservation_refused:
  "\<not> global_request_ok s r \<Longrightarrow> snd (make_global_reservation s r) = s"
  by (auto simp: make_global_reservation_def global_request_ok_def is_reservation_possible_snoc
      split: option.splits)

lemma make_global_reservation_placed:
  "global_request_ok s r \<Longrightarrow> snd (make_global_reservation s r) =
     set_reservation_timer r (store_reservations
       (s\<lparr>global_reservations := global_reservations s @ [r]\<rparr>))"
  by (auto simp: make_global_reservation_def global_request_ok_def is_reservation_possible_snoc
      split: option.splits)

subsection \<open>Placing keeps the invariant\<close>

lemma evse_key:
  assumes "evses_wf s" "evse_at s e = Some evse" "0 \<le> e" "e < 2 ^ 32"
  shows "e \<in> fst ` set (evses s)"
proof -
  have key: "to_s32 e \<in> fst ` set (evses s)"
    using assms(2) unfolding evse_at_def by (metis map_of_eq_None_iff option.distinct(1))
  with assms(1) have "0 < to_s32 e" unfolding evses_wf_def by blast
  moreover have "to_s32 e = e - 2 ^ 32" if "2 ^ 31 \<le> e"
    using assms(4) that unfolding to_s32_def by (subst mod_pos_geq) auto
  ultimately have "s32_range e"
    using assms(3,4) unfolding s32_range_def by (smt (verit))
  with key show ?thesis by simp
qed

lemma mset_omap_insert:
  "map_of m k = None \<Longrightarrow> mset (omap_insert k v m) = add_mset (k, v) (mset m)"
  by (induction k v m rule: omap_insert.induct) (auto split: if_splits)

lemma placed_wf:
  assumes "reservations_wf s" "evses t = evses s" "omap_wf (evse_reservations t)"
    "fst ` set (evse_reservations t) \<subseteq> fst ` set (evses t)"
    "mset (all_reservations t) = add_mset r (mset (all_reservations s))"
    "res_reservation_id r \<notin> res_reservation_id ` set (all_reservations s)"
    "reservation_timers t = omap_insert (res_reservation_id r) x (reservation_timers s)"
  shows "reservations_wf t"
proof -
  have "mset (all_reservations t) = mset (r # all_reservations s)" using assms(5) by simp
  then have set: "set (all_reservations t) = insert r (set (all_reservations s))"
    and dist: "distinct (map res_reservation_id (all_reservations t)) =
      distinct (map res_reservation_id (r # all_reservations s))"
    by (metis list.simps(15) mset_eq_setD, metis mset_map mset_eq_imp_distinct_iff)
  show ?thesis
    using assms(1-4,6,7) dist unfolding reservations_wf_def set
    by (simp add: omap_wf_insert set_omap_insert_keys)
qed

lemma fresh_after_cancel:
  "reservations_wf s \<Longrightarrow>
   i \<notin> res_reservation_id ` set (all_reservations (cancelled s i cb reason))"
  by (auto simp: cancelled_all_reservations)

lemma make_evse_reservation_wf:
  assumes wf: "reservations_wf s" "evses_wf s" and e: "0 \<le> e" "e < 2 ^ 32"
    and fresh: "res_reservation_id r \<notin> res_reservation_id ` set (all_reservations s)"
  shows "reservations_wf (snd (make_evse_reservation s e r))"
proof (cases "evse_request_ok s e r")
  case True
  then have new: "map_of (evse_reservations s) e = None" and "evse_at s e \<noteq> None"
    by (auto simp: evse_request_ok_def)
  with evse_key [OF wf(2) _ e] have "e \<in> fst ` set (evses s)" by blast
  with wf(1) show ?thesis unfolding make_evse_reservation_placed [OF True]
    by (intro placed_wf [OF wf(1) _ _ _ _ fresh])
      (auto simp: reservations_wf_def omap_wf_insert set_omap_insert_keys all_reservations_def
        mset_omap_insert [OF new])
qed (simp add: make_evse_reservation_refused wf)

lemma make_global_reservation_wf:
  assumes wf: "reservations_wf s"
    and fresh: "res_reservation_id r \<notin> res_reservation_id ` set (all_reservations s)"
  shows "reservations_wf (snd (make_global_reservation s r))"
proof (cases "global_request_ok s r")
  case True
  show ?thesis unfolding make_global_reservation_placed [OF True]
    using wf by (intro placed_wf [OF wf _ _ _ _ fresh])
      (auto simp: reservations_wf_def all_reservations_def)
qed (simp add: make_global_reservation_refused wf)

lemma make_reservation_wf:
  assumes wf: "reservations_wf s" "evses_wf s"
    and e: "\<And>x. e = Some x \<Longrightarrow> 0 \<le> x \<and> x < 2 ^ 32"
  shows "reservations_wf (snd (make_reservation s now e r))"
  using wf e make_evse_reservation_wf [OF cancelled_wf [OF wf(1)] _ _ _ fresh_after_cancel [OF wf(1)]]
    make_global_reservation_wf [OF cancelled_wf [OF wf(1)] fresh_after_cancel [OF wf(1)]]
  by (auto simp: make_reservation_def Let_def evses_wf_cong [OF cancelled_evses]
      split: option.splits)

lemma placed_evses [simp]:
  "evses (snd (make_evse_reservation s e r)) = evses s"
  "evses (snd (make_global_reservation s r)) = evses s"
  by (cases "evse_request_ok s e r"; simp add: make_evse_reservation_placed make_evse_reservation_refused)
    (cases "global_request_ok s r"; simp add: make_global_reservation_placed
      make_global_reservation_refused)

lemma make_reservation_evses [simp]: "evses (snd (make_reservation s now e r)) = evses s"
  by (auto simp: make_reservation_def Let_def split: option.splits)

lemma timer_current: "stored_current (set_reservation_timer r s) = stored_current s"
  by (rule stored_current_cong) simp_all

lemma make_evse_reservation_current:
  "stored_current s \<Longrightarrow> stored_current (snd (make_evse_reservation s e r))"
  by (cases "evse_request_ok s e r")
    (simp_all add: make_evse_reservation_placed make_evse_reservation_refused timer_current
      store_reservations_current)

lemma make_global_reservation_current:
  "stored_current s \<Longrightarrow> stored_current (snd (make_global_reservation s r))"
  by (cases "global_request_ok s r")
    (simp_all add: make_global_reservation_placed make_global_reservation_refused timer_current
      store_reservations_current)

lemma make_reservation_current:
  "stored_current s \<Longrightarrow> stored_current (snd (make_reservation s now e r))"
  by (simp add: make_reservation_def Let_def cancelled_current make_evse_reservation_current
      make_global_reservation_current split: option.splits)

subsection \<open>Accepted reservations can be served\<close>

lemma no_global_feasible:
  assumes "reservations_wf s" "evses_wf s"
  shows "is_reservation_possible s None [] (evse_reservations s)"
proof -
  have "length (evse_reservations s) = card (fst ` set (evse_reservations s))"
    using assms(1) omap_distinct_keys [of "evse_reservations s"]
    by (metis distinct_card length_map list.set_map reservations_wf_def)
  also have "\<dots> \<le> card (fst ` set (evses s))"
    using assms(1) by (intro card_mono) (auto simp: reservations_wf_def)
  also have "\<dots> \<le> length (evses s)"
    by (metis card_length length_map list.set_map)
  finally show ?thesis by (simp add: is_reservation_possible_iff cars_of_def every_car_served_def)
qed

lemma make_evse_reservation_feasible:
  assumes ok: "evse_request_ok s e r"
    and wf: "reservations_wf (snd (make_evse_reservation s e r))" "evses_wf s"
  shows "feasible (snd (make_evse_reservation s e r))"
proof (cases "global_reservations s = []")
  case True
  have "evses_wf (snd (make_evse_reservation s e r))"
    using wf(2) by (simp add: evses_wf_cong [OF placed_evses(1)])
  from no_global_feasible [OF wf(1) this] True show ?thesis
    by (simp add: feasible_def make_evse_reservation_placed [OF ok])
next
  case False
  let ?t = "snd (make_evse_reservation s e r)"
  have "is_reservation_possible ?t = is_reservation_possible s"
    by (rule is_reservation_possible_cong) simp
  with ok False show ?thesis
    by (simp add: feasible_def make_evse_reservation_placed evse_request_ok_def)
qed

lemma make_global_reservation_feasible:
  assumes ok: "global_request_ok s r"
  shows "feasible (snd (make_global_reservation s r))"
proof -
  let ?t = "snd (make_global_reservation s r)"
  have "is_reservation_possible ?t = is_reservation_possible s"
    by (rule is_reservation_possible_cong) simp
  with ok show ?thesis
    by (simp add: feasible_def make_global_reservation_placed global_request_ok_def)
qed

end
