(* ===== verification/Reservation_Properties.thy ===== *)
theory Reservation_Properties
  imports Reservation_Safety
begin

text \<open>
  The reservation handler as a machine: every public operation is an input, together with the
  changes the authorization handler makes to the EVSE contexts in between. The properties hold after
  every sequence of inputs.
\<close>

subsection \<open>The machine\<close>

datatype reservation_input =
    Make_Reservation int "int option" Reservation
  | Cancel_Reservation int bool ReservationEndReason
  | Cancel_Evse_Reservation int bool
  | Reservation_Used int
  | Reservation_Timer int
  | Connector_State_Changed ConnectorState int int
  | Load_Reservations "Reservation \<Rightarrow> Reservation option" int
  | Take_Restored_Reservation int
  | Send_Updates
  | Change_Evse int EVSEContext

text \<open>
  Identifiers of EVSEs and connectors reach the handler as unsigned 32 bit integers. A timer fires
  only while it is armed. The contexts of the EVSEs are written by the authorization handler, which
  never adds or removes an EVSE after the start.
\<close>

definition reservation_step :: "reservation_handler \<Rightarrow> reservation_input \<Rightarrow> reservation_handler" where
  "reservation_step s i = (case i of
       Make_Reservation now e r \<Rightarrow> snd (make_reservation s now (map_option to_u32 e) r)
     | Cancel_Reservation n cb reason \<Rightarrow> snd (cancel_reservation s n cb reason)
     | Cancel_Evse_Reservation e cb \<Rightarrow> snd (cancel_evse_reservation s (to_u32 e) cb)
     | Reservation_Used n \<Rightarrow> on_reservation_used s n
     | Reservation_Timer n \<Rightarrow>
         (if map_of (reservation_timers s) n = None then s else reservation_expired s n)
     | Connector_State_Changed state e c \<Rightarrow>
         on_connector_state_changed s state (to_u32 e) (to_u32 c)
     | Load_Reservations from_store now \<Rightarrow> load_reservations from_store s now
     | Take_Restored_Reservation e \<Rightarrow> snd (take_restored_reservation s (to_u32 e))
     | Send_Updates \<Rightarrow> check_evse_reserved_and_send_updates s
     | Change_Evse e evse \<Rightarrow>
         (if map_of (evses s) e = None then s else s\<lparr>evses := omap_insert e evse (evses s)\<rparr>))"

definition reservation_init ::
  "(int \<times> int \<times> Connector list) list \<Rightarrow> stored_value option \<Rightarrow> (auth_call list \<Rightarrow> bool) \<Rightarrow>
     reservation_handler" where
  "reservation_init es store accepts =
     fold (\<lambda>(evse_id, evse_index, connectors). init_evse (to_s32 evse_id) evse_index connectors) es
       \<lparr>evses = [], evse_reservations = [], global_reservations = [], restored_reservations = [],
        reservation_timers = [], last_reserved_status = [], kvs = store, manager_accepts = accepts,
        calls = []\<rparr>"

definition handler_wf :: "'a reservation_handler_scheme \<Rightarrow> bool" where
  "handler_wf s \<longleftrightarrow> evses_wf s \<and> reservations_wf s"

lemma handler_wf_cong:
  "evses t = evses s \<Longrightarrow> evse_reservations t = evse_reservations s \<Longrightarrow>
   global_reservations t = global_reservations s \<Longrightarrow>
   reservation_timers t = reservation_timers s \<Longrightarrow> handler_wf t = handler_wf s"
  unfolding handler_wf_def using evses_wf_cong reservations_wf_cong by blast

lemma init_evse_wf: "handler_wf s \<Longrightarrow> handler_wf (init_evse (to_s32 i) n cs s)"
  using to_s32_range [of i]
  by (auto simp: handler_wf_def evses_wf_def reservations_wf_def init_evse_def omap_wf_insert
      set_omap_insert_keys all_reservations_def)

lemma reservation_init_wf: "handler_wf (reservation_init es store accepts)"
proof -
  have "handler_wf (fold (\<lambda>(i, n, cs). init_evse (to_s32 i) n cs) es s)" if "handler_wf s"
    for s :: reservation_handler
    using that by (induction es arbitrary: s) (auto intro: init_evse_wf)
  then show ?thesis unfolding reservation_init_def
    by (simp add: handler_wf_def evses_wf_def reservations_wf_def omap_wf_def all_reservations_def)
qed

subsection \<open>Every operation keeps the invariant\<close>

lemma u32_bounds: "0 \<le> to_u32 x \<and> to_u32 x < 2 ^ 32"
  by (simp add: to_u32_def)

lemma cancelled_handler_wf: "handler_wf s \<Longrightarrow> handler_wf (cancelled s i cb reason)"
  by (simp add: handler_wf_def cancelled_wf evses_wf_cong [OF cancelled_evses])

lemma make_reservation_handler_wf:
  "handler_wf s \<Longrightarrow> handler_wf (snd (make_reservation s now (map_option to_u32 e) r))"
  using make_reservation_wf [of s "map_option to_u32 e" now r] u32_bounds
  by (auto simp: handler_wf_def evses_wf_cong [OF make_reservation_evses])

lemma load_entry_cases:
  obtains (skipped) "load_entry from_store now x s = s"
  | (placed) e r u where "u = snd (make_reservation s now (map_option to_u32 e) r)"
      "load_entry from_store now x s = u \<or> (\<exists>m. load_entry from_store now x s = u\<lparr>restored_reservations := m\<rparr>) \<or>
       (\<exists>y n reason upd. load_entry from_store now x s = reservation_cancelled_callback u y n reason upd)"
proof (cases x)
  case (Stored e stored)
  show ?thesis
  proof (cases "from_store stored")
    case (Some r)
    show ?thesis
      by (rule placed [OF refl, of e r]) (use Stored Some in \<open>simp add: Let_def case_prod_beta, blast\<close>)
  qed (simp add: Stored skipped)
qed (simp add: skipped)

lemma load_entry_handler_wf:
  assumes "handler_wf s"
  shows "handler_wf (load_entry from_store now x s)"
proof (cases rule: load_entry_cases [of from_store now x s])
  case (placed e r u)
  have "handler_wf u" unfolding placed(1) using assms by (rule make_reservation_handler_wf)
  moreover have "handler_wf (u\<lparr>restored_reservations := m\<rparr>) = handler_wf u" for m
    by (rule handler_wf_cong) simp_all
  moreover have "handler_wf (reservation_cancelled_callback u y n reason upd) = handler_wf u"
    for y n reason upd by (rule handler_wf_cong) simp_all
  ultimately show ?thesis using placed(2) by auto
qed (simp add: assms)

lemma load_handler_wf: "handler_wf s \<Longrightarrow> handler_wf (load_reservations from_store s now)"
proof -
  have "handler_wf (fold (load_entry from_store now) xs s)" if "handler_wf s" for xs
    using that by (induction xs arbitrary: s) (auto intro: load_entry_handler_wf)
  then show "handler_wf s \<Longrightarrow> handler_wf (load_reservations from_store s now)"
    by (auto simp: load_reservations_def split: option.splits stored_value.splits)
qed

lemma cancel_all_handler_wf:
  "handler_wf s \<Longrightarrow> handler_wf (fold (\<lambda>i s. cancelled s i cb reason) is s)"
  by (induction "is" arbitrary: s) (auto intro: cancelled_handler_wf)

lemma check_reservations_handler_wf:
  "handler_wf s \<Longrightarrow> handler_wf (check_reservations_and_cancel_if_not_possible s)"
  unfolding check_reservations_and_cancel_if_not_possible_def Let_def case_prod_beta
  by (rule cancel_all_handler_wf)

lemma connector_changed_handler_wf:
  "handler_wf s \<Longrightarrow> handler_wf (on_connector_state_changed s state e c)"
  by (simp add: on_connector_state_changed_def cancelled_handler_wf check_reservations_handler_wf
      split: option.splits)

lemma take_restored_handler_wf:
  "handler_wf s \<Longrightarrow> handler_wf (snd (take_restored_reservation s e))"
proof -
  have "handler_wf (s\<lparr>restored_reservations := m\<rparr>) = handler_wf s" for m
    by (rule handler_wf_cong) simp_all
  then show "handler_wf s \<Longrightarrow> ?thesis"
    by (simp add: take_restored_reservation_def Let_def split: option.splits)
qed

lemma send_updates_handler_wf:
  "handler_wf (check_evse_reserved_and_send_updates s) = handler_wf s"
  by (rule handler_wf_cong) simp_all

lemma change_evse_handler_wf:
  assumes "handler_wf s" and "map_of (evses s) e \<noteq> None"
  shows "handler_wf (s\<lparr>evses := omap_insert e evse (evses s)\<rparr>)"
proof -
  have "e \<in> fst ` set (evses s)" using assms(2) by (metis map_of_eq_None_iff)
  then have "insert e (fst ` set (evses s)) = fst ` set (evses s)" by blast
  with assms(1) show ?thesis
    by (simp add: handler_wf_def evses_wf_def reservations_wf_def omap_wf_insert
        set_omap_insert_keys all_reservations_def)
qed

lemma reservation_step_wf: "handler_wf s \<Longrightarrow> handler_wf (reservation_step s i)"
proof (cases i)
  case (Cancel_Evse_Reservation e cb)
  then show "handler_wf s \<Longrightarrow> ?thesis"
    by (simp add: reservation_step_def cancel_evse_reservation_def case_prod_beta
        cancelled_handler_wf split: option.splits)
qed (auto simp: reservation_step_def on_reservation_used_def reservation_expired_def
    make_reservation_handler_wf cancelled_handler_wf connector_changed_handler_wf load_handler_wf
    take_restored_handler_wf send_updates_handler_wf intro!: change_evse_handler_wf)

interpretation reservation: machine_invariant reservation_step
  "reservation_init es store accepts" handler_wf for es store accepts
  by unfold_locales (rule reservation_init_wf, rule reservation_step_wf)

lemmas reservation_reach = reservation.inv_reach [unfolded handler_wf_def]

subsection \<open>Ids, timers and EVSEs\<close>

text \<open>
  C10. After every sequence of operations, no two reservations have the same id, exactly the
  reservations that exist have an armed expiry timer, no EVSE has two reservations, and a
  reservation for an EVSE names an EVSE of the station.
\<close>

theorem reservation_ids_and_timers:
  assumes "reach reservation_step (reservation_init es store accepts) s"
  shows "distinct (map res_reservation_id (all_reservations s)) \<and>
    dom (map_of (reservation_timers s)) = res_reservation_id ` set (all_reservations s) \<and>
    distinct (map fst (evse_reservations s)) \<and>
    dom (map_of (evse_reservations s)) \<subseteq> dom (map_of (evses s))"
proof -
  have "reservations_wf s" using reservation_reach [OF assms] by blast
  then show ?thesis
    by (simp add: reservations_wf_def dom_map_of_conv_image_fst omap_distinct_keys)
qed

subsection \<open>Feasibility is kept\<close>

lemma make_reservation_feasible:
  assumes wf: "handler_wf s" and f: "feasible s \<or> fst (make_reservation s now (map_option to_u32 e) r) = RAccepted"
  shows "feasible (snd (make_reservation s now (map_option to_u32 e) r))"
proof (cases "now > res_expiry_time r")
  case True
  with f show ?thesis by (simp add: make_reservation_def)
next
  case False
  let ?t = "cancelled s (res_reservation_id r) False Cancelled"
  have t: "feasible s \<Longrightarrow> feasible ?t"
    using wf by (simp add: handler_wf_def cancelled_feasible)
  have wf': "reservations_wf ?t" "evses_wf ?t"
    "res_reservation_id r \<notin> res_reservation_id ` set (all_reservations ?t)"
    using cancelled_handler_wf [OF wf] wf by (auto simp: handler_wf_def fresh_after_cancel)
  show ?thesis
  proof (cases e)
    case None
    with False have eq: "make_reservation s now (map_option to_u32 e) r = make_global_reservation ?t r"
      by (simp add: make_reservation_def Let_def)
    show ?thesis using f t unfolding eq make_global_reservation_Accepted
      by (cases "global_request_ok ?t r")
        (simp_all add: make_global_reservation_feasible make_global_reservation_refused)
  next
    case (Some x)
    with False have eq: "make_reservation s now (map_option to_u32 e) r =
        make_evse_reservation ?t (to_u32 x) r"
      by (simp add: make_reservation_def Let_def)
    have "reservations_wf (snd (make_evse_reservation ?t (to_u32 x) r))"
      using wf' u32_bounds [of x] by (intro make_evse_reservation_wf) auto
    with f t wf' show ?thesis unfolding eq make_evse_reservation_Accepted
      by (cases "evse_request_ok ?t (to_u32 x) r")
        (simp_all add: make_evse_reservation_feasible make_evse_reservation_refused)
  qed
qed

lemma callback_feasible: "feasible (reservation_cancelled_callback s e i reason upd) = feasible s"
  by (rule feasible_cong) simp_all

lemma load_entry_feasible:
  assumes "handler_wf s" "feasible s"
  shows "feasible (load_entry from_store now x s)"
proof (cases rule: load_entry_cases [of from_store now x s])
  case (placed e r u)
  have "feasible u" unfolding placed(1) using assms by (blast intro: make_reservation_feasible)
  moreover have "feasible (u\<lparr>restored_reservations := m\<rparr>) = feasible u" for m
    by (rule feasible_cong) simp_all
  ultimately show ?thesis using placed(2) by (auto simp: callback_feasible)
qed (simp add: assms)

lemma load_feasible: "handler_wf s \<Longrightarrow> feasible s \<Longrightarrow> feasible (load_reservations from_store s now)"
proof -
  have "feasible (fold (load_entry from_store now) xs s)" if "handler_wf s" "feasible s" for xs
    using that by (induction xs arbitrary: s) (auto intro: load_entry_handler_wf load_entry_feasible)
  then show "handler_wf s \<Longrightarrow> feasible s \<Longrightarrow> ?thesis"
    by (auto simp: load_reservations_def split: option.splits stored_value.splits)
qed

lemma cancelled_feasible': "handler_wf s \<Longrightarrow> feasible s \<Longrightarrow> feasible (cancelled s i cb reason)"
  by (simp add: handler_wf_def cancelled_feasible)

lemma check_reservations_feasible:
  "handler_wf s \<Longrightarrow> feasible s \<Longrightarrow> feasible (check_reservations_and_cancel_if_not_possible s)"
proof -
  have "feasible (fold (\<lambda>i s. cancelled s i cb reason) is s)" if "handler_wf s" "feasible s"
    for "is" cb reason
    using that by (induction "is" arbitrary: s) (auto intro: cancelled_handler_wf cancelled_feasible')
  then show "handler_wf s \<Longrightarrow> feasible s \<Longrightarrow> ?thesis"
    unfolding check_reservations_and_cancel_if_not_possible_def Let_def case_prod_beta by blast
qed

lemma connector_changed_feasible:
  "handler_wf s \<Longrightarrow> feasible s \<Longrightarrow> feasible (on_connector_state_changed s state e c)"
  by (simp add: on_connector_state_changed_def cancelled_feasible' check_reservations_feasible
      split: option.splits)

lemma take_restored_feasible: "feasible (snd (take_restored_reservation s e)) = feasible s"
proof -
  have "feasible (s\<lparr>restored_reservations := m\<rparr>) = feasible s" for m
    by (rule feasible_cong) simp_all
  then show ?thesis by (simp add: take_restored_reservation_def Let_def split: option.splits)
qed

lemma send_updates_feasible: "feasible (check_evse_reserved_and_send_updates s) = feasible s"
  by (rule feasible_cong) simp_all

lemma reservation_step_feasible:
  assumes "handler_wf s" "feasible s" "\<nexists>e evse. i = Change_Evse e evse"
  shows "feasible (reservation_step s i)"
proof (cases i)
  case (Cancel_Evse_Reservation e cb)
  with assms show ?thesis
    by (simp add: reservation_step_def cancel_evse_reservation_def case_prod_beta
        cancelled_feasible' split: option.splits)
qed (use assms in \<open>simp_all add: reservation_step_def on_reservation_used_def
    reservation_expired_def make_reservation_feasible cancelled_feasible' connector_changed_feasible
    load_feasible take_restored_feasible send_updates_feasible\<close>)

text \<open>
  C9. No operation of the handler endangers a reservation: if the reservations pass the test of the
  handler, they pass it after the next operation, whether it places, refuses, replaces, cancels,
  expires, uses or reloads reservations. Only a change of the EVSEs themselves (a car plugs in, a
  connector fails) can make them infeasible.
\<close>

theorem operations_keep_feasibility:
  assumes "reach reservation_step (reservation_init es store accepts) s" and "feasible s"
    and "\<nexists>e evse. i = Change_Evse e evse"
  shows "feasible (reservation_step s i)"
  using reservation.inv_reach [OF assms(1)] assms(2,3) by (rule reservation_step_feasible)

definition example_reservation :: "int \<Rightarrow> ConnectorTypeEnum option \<Rightarrow> Reservation" where
  "example_reservation i t = \<lparr>res_evse_id = None, res_reservation_id = i, res_id_token = ''TAG'',
     res_expiry_time = 100, res_parent_id_token = None, res_connector_type = t\<rparr>"

definition two_evses :: reservation_handler where
  "two_evses = reservation_init
     [(1, 0, [new_connector 1 cType2]), (2, 1, [new_connector 1 cCCS2])] None (\<lambda>_. True)"

lemma reach_two_evses:
  "reach reservation_step two_evses s \<Longrightarrow> reach reservation_step (reservation_init
     [(1, 0, [new_connector 1 cType2]), (2, 1, [new_connector 1 cCCS2])] None (\<lambda>_. True)) s"
  by (simp only: two_evses_def)

theorem operations_keep_feasibility_witness:
  "feasible (reservation_step two_evses (Make_Reservation 5 None (example_reservation 7 (Some cType2))))"
  by (rule operations_keep_feasibility [where s = two_evses and es =
        "[(1, 0, [new_connector 1 cType2]), (2, 1, [new_connector 1 cCCS2])]" and store = None
        and accepts = "\<lambda>_. True", folded two_evses_def])
    (rule reach_init, code_simp, simp)

theorem reservation_ids_and_timers_witness:
  "dom (map_of (reservation_timers (reservation_step two_evses
     (Make_Reservation 5 (Some 2) (example_reservation 7 None))))) = {7}"
proof -
  let ?s = "reservation_step two_evses (Make_Reservation 5 (Some 2) (example_reservation 7 None))"
  have "reach reservation_step two_evses ?s" by (intro reach.intros)
  from reservation_ids_and_timers [OF this [unfolded two_evses_def], folded two_evses_def]
  have "dom (map_of (reservation_timers ?s)) = res_reservation_id ` set (all_reservations ?s)"
    by blast
  also have "\<dots> = {7}" by code_simp
  finally show ?thesis .
qed

end
