(* ===== verification/Reservation_Recovery.thy ===== *)
theory Reservation_Recovery
  imports Reservation_Properties
begin

text \<open>
  What a client of the reservation handler gets: the effect of an accepted request, the reaction to
  connectors that become unusable, the permission to charge without a reservation, and the
  restoration of the reservations after a restart.
\<close>

subsection \<open>Which EVSE can serve a reservation\<close>

text \<open>
  An EVSE can serve a car if it is free and one of its connectors is available and of a suitable type.
  The test \<open>feasible\<close> of the handler finds such an EVSE for every global reservation, whatever places the
  cars that came before have taken, among the EVSEs that are not reserved; the reservations for an EVSE
  it only counts. That these can be served as well is \<open>reserved_evses_serve\<close>.
\<close>

definition serves :: "EVSEContext \<Rightarrow> ConnectorTypeEnum \<Rightarrow> bool" where
  "serves evse car \<longleftrightarrow> \<not> ec_plugged_in evse \<and>
     (\<forall>c\<in>set (ec_connectors evse). conn_state c \<notin> {OCCUPIED, FAULTED_OCCUPIED}) \<and>
     (\<exists>c\<in>set (ec_connectors evse). conn_state c = AVAILABLE \<and>
        (car = UnknownType \<or> conn_type c = UnknownType \<or> conn_type c = car))"

definition reserved_evses_serve :: "'a reservation_handler_scheme \<Rightarrow> bool" where
  "reserved_evses_serve s \<longleftrightarrow> (\<forall>(e, r)\<in>set (evse_reservations s).
     \<exists>evse. map_of (evses s) e = Some evse \<and> serves evse (requested_type r))"

lemma new_connector_state_unavailable:
  "current \<noteq> AVAILABLE \<Longrightarrow> new \<noteq> AVAILABLE \<Longrightarrow> get_new_connector_state current new \<noteq> AVAILABLE"
  by (auto simp: get_new_connector_state_def)

lemma availability_accepted:
  "state \<noteq> AVAILABLE \<Longrightarrow> connector_availability_loop car state cs = RAccepted \<longleftrightarrow>
     (\<exists>c\<in>set cs. conn_state c = AVAILABLE \<and>
        (car = UnknownType \<or> conn_type c = UnknownType \<or> conn_type c = car))"
proof (induction cs arbitrary: state)
  case Nil
  then show ?case by (cases state) simp_all
next
  case (Cons c cs)
  with new_connector_state_unavailable [of state "conn_state c"] show ?case
    by (auto simp: connector_type_matches_def)
qed

lemma serves_iff:
  "serves evse car \<longleftrightarrow> \<not> ec_plugged_in evse \<and>
     (\<forall>c\<in>set (ec_connectors evse). conn_state c \<notin> {OCCUPIED, FAULTED_OCCUPIED}) \<and>
     has_evse_connector_type (ec_connectors evse) car \<and>
     connector_availability_loop car UNAVAILABLE (ec_connectors evse) = RAccepted"
  by (auto simp: serves_def availability_accepted has_evse_connector_type_def list_ex_iff)

lemma evse_result_free:
  "get_evse_connector_state_reservation_result s e specific = RAccepted \<longleftrightarrow>
     (\<exists>evse. evse_at s e = Some evse \<and> \<not> ec_plugged_in evse \<and>
        (\<forall>c\<in>set (ec_connectors evse). conn_state c \<notin> {OCCUPIED, FAULTED_OCCUPIED})) \<and>
     map_of specific e = None"
  by (auto simp: get_evse_connector_state_reservation_result_def find_None_iff find_Some_iff
      split: option.splits if_splits)

lemma evses_wf_key:
  "evses_wf s \<Longrightarrow> (k, evse) \<in> set (evses s) \<Longrightarrow>
     to_u32 k = k \<and> to_s32 k = k \<and> map_of (evses s) k = Some evse"
  by (auto simp: evses_wf_def omap_lookup_in)

lemma can_park_wf:
  assumes "evses_wf s" "(k, evse) \<in> set (evses s)"
  shows "can_park s specific car (k, evse) \<longleftrightarrow> serves evse car \<and> map_of specific k = None"
proof -
  have "evse_at s (to_u32 k) = Some evse" "to_u32 k = k"
    using evses_wf_key [OF assms] by (simp_all add: evse_at_def)
  then show ?thesis
    unfolding can_park_def serves_iff evse_result_free
      get_connector_availability_reservation_result_def by auto
qed

lemma suits_wf:
  assumes wf: "evses_wf s"
  shows "suits s specific car e \<longleftrightarrow>
    (\<exists>evse. map_of (evses s) e = Some evse \<and> serves evse car) \<and> map_of specific e = None"
  (is "?suits \<longleftrightarrow> ?serves")
proof
  assume ?suits
  then obtain k evse where "(k, evse) \<in> set (evses s)" "to_u32 k = e" "can_park s specific car (k, evse)"
    unfolding suits_def by force
  then show ?serves using evses_wf_key [OF wf] can_park_wf [OF wf] by metis
next
  assume ?serves
  then obtain evse where "map_of (evses s) e = Some evse" "serves evse car" "map_of specific e = None"
    by blast
  moreover from this have "(e, evse) \<in> set (evses s)" by (metis map_of_SomeD)
  ultimately show ?suits
    unfolding suits_def using evses_wf_key [OF wf] can_park_wf [OF wf] by (intro bexI [of _ "(e, evse)"]) auto
qed

subsection \<open>An accepted request\<close>

lemma make_evse_placed_all:
  "evse_request_ok s e r \<Longrightarrow> omap_wf (evse_reservations s) \<Longrightarrow>
   set (all_reservations (snd (make_evse_reservation s e r))) = insert r (set (all_reservations s)) \<and>
   map_of (evse_reservations (snd (make_evse_reservation s e r))) e = Some r \<and>
   map_of (reservation_timers (snd (make_evse_reservation s e r))) (res_reservation_id r) =
     Some (res_expiry_time r)"
proof -
  assume ok: "evse_request_ok s e r" and wf: "omap_wf (evse_reservations s)"
  then have "map_of (evse_reservations s) e = None" by (simp add: evse_request_ok_def)
  then have "{x \<in> set (evse_reservations s). fst x \<noteq> e} = set (evse_reservations s)"
    by (auto simp: map_of_eq_None_iff)
  then show ?thesis
    by (simp add: make_evse_reservation_placed [OF ok] all_reservations_def
        omap_set_insert [OF wf] omap_lookup_insert)
qed

lemma make_global_placed_all:
  "global_request_ok s r \<Longrightarrow>
   set (all_reservations (snd (make_global_reservation s r))) = insert r (set (all_reservations s)) \<and>
   r \<in> set (global_reservations (snd (make_global_reservation s r))) \<and>
   map_of (reservation_timers (snd (make_global_reservation s r))) (res_reservation_id r) =
     Some (res_expiry_time r)"
  by (auto simp: make_global_reservation_placed all_reservations_def omap_lookup_insert)

lemma request_ok_serves:
  assumes "evses_wf s" "evse_request_ok s (to_u32 x) r"
  shows "\<exists>evse. map_of (evses s) (to_u32 x) = Some evse \<and> serves evse (requested_type r)"
proof -
  obtain evse where evse: "evse_at s (to_u32 x) = Some evse" using assms(2) by (auto simp: evse_request_ok_def)
  then have "map_of (evses s) (to_s32 x) = Some evse" by (simp add: evse_at_def)
  moreover from this have "to_u32 (to_s32 x) = to_s32 x" using evses_wf_key [OF assms(1)] by (metis map_of_SomeD)
  ultimately have "map_of (evses s) (to_u32 x) = Some evse" by simp
  with assms(2) evse show ?thesis
    by (auto simp: evse_request_ok_def serves_iff evse_result_free
        get_connector_availability_reservation_result_def)
qed

lemma cancelled_reserved_subset:
  "handler_wf s \<Longrightarrow> set (evse_reservations (cancelled s i cb reason)) \<subseteq> set (evse_reservations s)"
  by (auto simp: handler_wf_def cancelled_reservations)

lemma reserved_evses_serve_mono:
  "reserved_evses_serve s \<Longrightarrow> evses t = evses s \<Longrightarrow> set (evse_reservations t) \<subseteq> set (evse_reservations s) \<Longrightarrow>
   reserved_evses_serve t"
  by (auto simp: reserved_evses_serve_def)

lemma evse_request_fits:
  assumes "evses_wf t" "omap_wf (evse_reservations t)" "evse_request_ok t (to_u32 x) r"
    and "evses t = evses s" "evse_reservations t =
      filter (\<lambda>q. res_reservation_id (snd q) \<noteq> res_reservation_id r) (evse_reservations s)"
  shows "\<exists>evse. map_of (evses s) (to_u32 x) = Some evse \<and> serves evse (requested_type r)"
    "reserved_evses_serve t \<Longrightarrow> reserved_evses_serve (snd (make_evse_reservation t (to_u32 x) r))"
    "map_of (evse_reservations s) (to_u32 x) = Some q \<Longrightarrow> res_reservation_id q = res_reservation_id r"
proof -
  show evse: "\<exists>evse. map_of (evses s) (to_u32 x) = Some evse \<and> serves evse (requested_type r)"
    using request_ok_serves [OF assms(1,3)] assms(4) by simp
  then show "reserved_evses_serve (snd (make_evse_reservation t (to_u32 x) r))" if "reserved_evses_serve t"
    using that assms(2,4)
    by (auto simp: reserved_evses_serve_def make_evse_reservation_placed [OF assms(3)] omap_set_insert)
  show "res_reservation_id q = res_reservation_id r" if "map_of (evse_reservations s) (to_u32 x) = Some q"
  proof (rule ccontr)
    assume "res_reservation_id q \<noteq> res_reservation_id r"
    with map_of_SomeD [OF that] have "(to_u32 x, q) \<in> set (evse_reservations t)" by (simp add: assms(5))
    with assms(3) show False by (auto simp: evse_request_ok_def map_of_eq_None_iff rev_image_eqI)
  qed
qed

text \<open>
  C7. An accepted request is in force and can be served: the reservation is kept for its EVSE or as
  a global one and its expiry timer is armed, a former reservation with the same id is replaced, and all
  others are unchanged. A reservation for an EVSE is accepted only if this EVSE exists, has no other
  reservation, is free and has an available connector of the requested type; a global one only if the
  handler's test finds places for all global reservations together. In both cases the test accepts the
  reservations after the request, and if each reserved EVSE could serve its reservation before, so it can
  afterwards.
\<close>

theorem accepted_reservation_in_force:
  assumes "reach reservation_step (reservation_init es store accepts) s"
    and "make_reservation s now (map_option to_u32 e) r = (RAccepted, s')"
  shows "feasible s' \<and> now \<le> res_expiry_time r \<and>
    set (all_reservations s') =
      insert r {q \<in> set (all_reservations s). res_reservation_id q \<noteq> res_reservation_id r} \<and>
    (case e of
       Some x \<Rightarrow> map_of (evse_reservations s') (to_u32 x) = Some r \<and>
         (\<forall>q. map_of (evse_reservations s) (to_u32 x) = Some q \<longrightarrow> res_reservation_id q = res_reservation_id r) \<and>
         (\<exists>evse. map_of (evses s) (to_u32 x) = Some evse \<and> serves evse (requested_type r))
     | None \<Rightarrow> r \<in> set (global_reservations s')) \<and>
    map_of (reservation_timers s') (res_reservation_id r) = Some (res_expiry_time r) \<and>
    (reserved_evses_serve s \<longrightarrow> reserved_evses_serve s')"
proof -
  let ?t = "cancelled s (res_reservation_id r) False Cancelled"
  have wf: "handler_wf s" by (rule reservation.inv_reach [OF assms(1)])
  have f: "feasible s'"
    using make_reservation_feasible [OF wf, of now e r] assms(2) by simp
  have now: "now \<le> res_expiry_time r"
    using assms(2) by (auto simp: make_reservation_def not_less [symmetric])
  have t: "set (all_reservations ?t) =
      {q \<in> set (all_reservations s). res_reservation_id q \<noteq> res_reservation_id r}"
    "omap_wf (evse_reservations ?t)" "evses_wf ?t" "evses ?t = evses s"
    "evse_reservations ?t = filter (\<lambda>q. res_reservation_id (snd q) \<noteq> res_reservation_id r) (evse_reservations s)"
    using wf cancelled_handler_wf [OF wf, of "res_reservation_id r" False Cancelled]
    by (auto simp: handler_wf_def cancelled_all_reservations reservations_wf_def cancelled_reservations)
  have serve: "reserved_evses_serve ?t" if "reserved_evses_serve s"
    using that t(4) cancelled_reserved_subset [OF wf] by (rule reserved_evses_serve_mono)
  show ?thesis
  proof (cases e)
    case None
    with assms(2) now have "make_global_reservation ?t r = (RAccepted, s')"
      by (simp add: make_reservation_def Let_def)
    then have ok: "global_request_ok ?t r" "s' = snd (make_global_reservation ?t r)"
      using make_global_reservation_Accepted [of ?t r] by simp_all
    then have "reserved_evses_serve s'" if "reserved_evses_serve s"
      using serve [OF that] by (elim reserved_evses_serve_mono) (simp_all add: make_global_reservation_placed)
    with ok make_global_placed_all [of ?t r] t f now None show ?thesis by simp
  next
    case (Some x)
    with assms(2) now have "make_evse_reservation ?t (to_u32 x) r = (RAccepted, s')"
      by (simp add: make_reservation_def Let_def)
    then have ok: "evse_request_ok ?t (to_u32 x) r" "s' = snd (make_evse_reservation ?t (to_u32 x) r)"
      using make_evse_reservation_Accepted [of ?t "to_u32 x" r] by simp_all
    note fits = evse_request_fits [OF t(3,2) ok(1) t(4,5)]
    have "reserved_evses_serve s'" if "reserved_evses_serve s"
      using fits(2) [OF serve [OF that]] ok(2) by simp
    with fits(1,3) show ?thesis
      using make_evse_placed_all [OF ok(1) t(2)] ok(2) t(1) f now Some by simp
  qed
qed

theorem accepted_reservation_in_force_witness:
  "feasible (snd (make_reservation two_evses 5 (Some 2) (example_reservation 7 (Some cCCS2)))) \<and>
   reserved_evses_serve (snd (make_reservation two_evses 5 (Some 2) (example_reservation 7 (Some cCCS2))))"
proof -
  have "make_reservation two_evses 5 (map_option to_u32 (Some 2)) (example_reservation 7 (Some cCCS2)) =
      (RAccepted, snd (make_reservation two_evses 5 (Some 2) (example_reservation 7 (Some cCCS2))))"
    by (rule prod_eqI) (simp_all add: to_u32_def, code_simp)
  moreover have "reserved_evses_serve two_evses"
    by (simp add: reserved_evses_serve_def two_evses_def reservation_init_def init_evse_def)
  ultimately show ?thesis
    using accepted_reservation_in_force [OF reach_init [of reservation_step],
        of "[(1, 0, [new_connector 1 cType2]), (2, 1, [new_connector 1 cCCS2])]"]
    unfolding two_evses_def by blast
qed

subsection \<open>Connectors that become unusable\<close>

lemma omap_insert_last:
  "\<forall>k\<in>set (map fst m). k < e \<Longrightarrow> omap_insert e r m = m @ [(e, r)]"
  by (induction e r m rule: omap_insert.induct) auto

lemma no_global_possible:
  "is_reservation_possible s None [] specific \<longleftrightarrow> length specific \<le> length (evses s)"
  by (simp add: is_reservation_possible_iff cars_of_def every_car_served_def)

lemma keep_evse_reservations_all:
  "omap_wf (kept @ rest) \<Longrightarrow> length (kept @ rest) \<le> length (evses s) \<Longrightarrow>
   keep_evse_reservations s rest kept c = (kept @ rest, c)"
proof (induction s rest kept c rule: keep_evse_reservations.induct)
  case (2 s e r rest kept c)
  then have "omap_insert e r kept = kept @ [(e, r)]"
    by (intro omap_insert_last) (auto simp: omap_wf_def sorted_wrt_append)
  with 2 show ?case by (simp add: no_global_possible Let_def)
qed simp

definition keeps_feasible ::
  "'a reservation_handler_scheme \<Rightarrow> (int, Reservation) omap \<Rightarrow> Reservation list \<Rightarrow> Reservation list \<Rightarrow>
     int list \<Rightarrow> int list \<Rightarrow> bool" where
  "keeps_feasible s specific rs kept c dropped \<longleftrightarrow>
     keep_global_reservations s specific rs kept c =
       (kept @ filter (\<lambda>r. res_reservation_id r \<notin> set dropped) rs, c @ dropped) \<and>
     set dropped \<subseteq> res_reservation_id ` set rs \<and>
     is_reservation_possible s None
       (kept @ filter (\<lambda>r. res_reservation_id r \<notin> set dropped) rs) specific"

lemma keeps_feasible_keep:
  assumes "is_reservation_possible s (res_connector_type r) kept specific"
    "res_reservation_id r \<notin> res_reservation_id ` set rs"
    "keeps_feasible s specific rs (kept @ [r]) c dropped"
  shows "keeps_feasible s specific (r # rs) kept c dropped"
  using assms by (auto simp: keeps_feasible_def)

lemma keeps_feasible_drop:
  assumes "\<not> is_reservation_possible s (res_connector_type r) kept specific"
    "res_reservation_id r \<notin> res_reservation_id ` set rs"
    "keeps_feasible s specific rs kept (c @ [res_reservation_id r]) dropped"
  shows "keeps_feasible s specific (r # rs) kept c (res_reservation_id r # dropped)"
proof -
  have "filter (\<lambda>q. res_reservation_id q \<notin> set (res_reservation_id r # dropped)) (r # rs) =
      filter (\<lambda>q. res_reservation_id q \<notin> set dropped) rs"
    using assms(2) by (auto intro!: filter_cong) (metis image_eqI)
  with assms show ?thesis by (auto simp: keeps_feasible_def)
qed

lemma keep_global_reservations_typed:
  assumes "\<forall>r\<in>set rs. res_connector_type r \<noteq> None"
    and "distinct (map res_reservation_id rs)"
    and "is_reservation_possible s None kept specific"
  shows "\<exists>dropped. keeps_feasible s specific rs kept c dropped"
  using assms
proof (induction rs arbitrary: kept c)
  case Nil
  then have "keeps_feasible s specific [] kept c []" by (simp add: keeps_feasible_def)
  then show ?case by blast
next
  case (Cons r rs)
  have typed: "res_connector_type r = Some (requested_type r)"
    using Cons.prems(1) by (auto simp: requested_type_def)
  have new: "res_reservation_id r \<notin> res_reservation_id ` set rs"
    and rest: "\<forall>r\<in>set rs. res_connector_type r \<noteq> None" "distinct (map res_reservation_id rs)"
    using Cons.prems by auto
  show ?case
  proof (cases "is_reservation_possible s (res_connector_type r) kept specific")
    case True
    then have "is_reservation_possible s None (kept @ [r]) specific"
      unfolding typed by (simp add: is_reservation_possible_snoc)
    with Cons.IH [OF rest] True new show ?thesis by (blast intro: keeps_feasible_keep)
  next
    case False
    with Cons.IH [OF rest Cons.prems(3)] new show ?thesis by (blast intro: keeps_feasible_drop)
  qed
qed

lemma is_reservation_possible_prefix:
  "is_reservation_possible s None (gs @ gs') m \<Longrightarrow> is_reservation_possible s None gs m"
  unfolding is_reservation_possible_iff
  using every_car_served_mono [of s m "cars_of (gs @ gs') None" "cars_of gs None"]
  by (simp add: cars_of_def)

lemma keep_global_reservations_all:
  "\<forall>r\<in>set rs. res_connector_type r \<noteq> None \<Longrightarrow> is_reservation_possible s None (kept @ rs) specific \<Longrightarrow>
   keep_global_reservations s specific rs kept c = (kept @ rs, c)"
proof (induction rs arbitrary: kept)
  case (Cons r rs)
  have "res_connector_type r = Some (requested_type r)"
    using Cons.prems(1) by (auto simp: requested_type_def)
  moreover have "is_reservation_possible s None (kept @ [r]) specific"
    using is_reservation_possible_prefix [of s "kept @ [r]" rs] Cons.prems(2) by simp
  ultimately show ?case using Cons by (simp add: is_reservation_possible_snoc)
qed simp

lemma cancel_all_reservations:
  "reservations_wf s \<Longrightarrow>
   evse_reservations (fold (\<lambda>i s. cancelled s i cb reason) is s) =
     filter (\<lambda>e. res_reservation_id (snd e) \<notin> set is) (evse_reservations s) \<and>
   global_reservations (fold (\<lambda>i s. cancelled s i cb reason) is s) =
     filter (\<lambda>r. res_reservation_id r \<notin> set is) (global_reservations s) \<and>
   evses (fold (\<lambda>i s. cancelled s i cb reason) is s) = evses s"
  by (induction "is" arbitrary: s)
    (simp_all add: cancelled_wf cancelled_reservations conj_commute)

lemma check_reservations_keeps_evse:
  assumes "handler_wf s"
  shows "keep_evse_reservations s (evse_reservations s) [] [] = (evse_reservations s, [])"
    "is_reservation_possible s None [] (evse_reservations s)"
proof -
  show "is_reservation_possible s None [] (evse_reservations s)"
    using assms by (intro no_global_feasible) (simp_all add: handler_wf_def)
  then show "keep_evse_reservations s (evse_reservations s) [] [] = (evse_reservations s, [])"
    using assms keep_evse_reservations_all [of "[]" "evse_reservations s" s "[]"]
    by (simp add: handler_wf_def reservations_wf_def no_global_possible)
qed

text \<open>What the check does, given the ids of the global reservations it drops.\<close>

lemma check_reservations_drops:
  assumes wf: "handler_wf s" and dropped: "set dropped \<subseteq> res_reservation_id ` set (global_reservations s)"
    and "snd (keep_global_reservations s (evse_reservations s) (global_reservations s) [] []) = dropped"
  defines "t \<equiv> check_reservations_and_cancel_if_not_possible s"
  shows "evses t = evses s" "evse_reservations t = evse_reservations s"
    "global_reservations t = filter (\<lambda>r. res_reservation_id r \<notin> set dropped) (global_reservations s)"
    "dropped = [] \<Longrightarrow> t = s"
proof -
  have rwf: "reservations_wf s" using wf by (simp add: handler_wf_def)
  have t: "t = fold (\<lambda>i s. cancelled s i True Cancelled) dropped s"
    using assms(3) by (simp add: t_def check_reservations_and_cancel_if_not_possible_def case_prod_beta
        check_reservations_keeps_evse [OF wf])
  have "filter (\<lambda>e. res_reservation_id (snd e) \<notin> set dropped) (evse_reservations s) = evse_reservations s"
    using dropped ids_distinct_parts(3) [OF rwf] by (intro filter_True) blast
  then show "evses t = evses s" "evse_reservations t = evse_reservations s"
    "global_reservations t = filter (\<lambda>r. res_reservation_id r \<notin> set dropped) (global_reservations s)"
    using cancel_all_reservations [OF rwf, of True Cancelled dropped] by (simp_all add: t)
  show "t = s" if "dropped = []" using that by (simp add: t)
qed

lemma check_reservations_restores:
  assumes wf: "handler_wf s" and typed: "\<forall>r\<in>set (global_reservations s). res_connector_type r \<noteq> None"
  defines "t \<equiv> check_reservations_and_cancel_if_not_possible s"
  shows "feasible t \<and> evses t = evses s \<and> evse_reservations t = evse_reservations s \<and>
    (\<exists>P. global_reservations t = filter P (global_reservations s)) \<and> (feasible s \<longrightarrow> t = s)"
proof -
  have rwf: "reservations_wf s" using wf by (simp add: handler_wf_def)
  obtain dropped where d:
    "snd (keep_global_reservations s (evse_reservations s) (global_reservations s) [] []) = dropped"
    "set dropped \<subseteq> res_reservation_id ` set (global_reservations s)"
    "is_reservation_possible s None
       (filter (\<lambda>r. res_reservation_id r \<notin> set dropped) (global_reservations s)) (evse_reservations s)"
    using keep_global_reservations_typed [OF typed ids_distinct_parts(2) [OF rwf]
        check_reservations_keeps_evse(2) [OF wf], of "[]"]
    unfolding keeps_feasible_def append_Nil by force
  note t = check_reservations_drops [OF wf d(2,1), folded t_def]
  have "feasible t" using d(3) is_reservation_possible_cong [OF t(1)] by (simp add: feasible_def t(2,3))
  moreover have "t = s" if "feasible s"
    using that keep_global_reservations_all [OF typed, of s "[]" "evse_reservations s" "[]"] d(1)
    by (intro t(4)) (simp add: feasible_def)
  ultimately show ?thesis using t(1-3) by blast
qed

text \<open>
  C19. When connectors become unusable, the check cancels global reservations until those that remain
  all find a place at the EVSEs that are not reserved, provided every global reservation asks for a
  connector type. The order of the remaining ones is kept, and nothing is cancelled, called or changed
  if the test accepted the reservations already. Reservations for an EVSE are never cancelled by this
  check, even where the EVSE can no longer serve them; for them the handler looks only at the type of
  the connector that changed, before it runs the check.
\<close>

theorem connector_failure_restores_feasibility:
  assumes "reach reservation_step (reservation_init es store accepts) s"
    and "\<forall>r\<in>set (global_reservations s). res_connector_type r \<noteq> None"
    and "t = check_reservations_and_cancel_if_not_possible s"
  shows "every_car_served t (evse_reservations t) (map requested_type (global_reservations t)) \<and>
    feasible t \<and> evse_reservations t = evse_reservations s \<and>
    (\<exists>P. global_reservations t = filter P (global_reservations s)) \<and> (feasible s \<longrightarrow> t = s)"
proof -
  note r = check_reservations_restores [OF reservation.inv_reach [OF assms(1)] assms(2), folded assms(3)]
  from conjunct1 [OF r] have "is_reservation_possible t None (global_reservations t) (evse_reservations t)"
    by (simp only: feasible_def)
  then have "every_car_served t (evse_reservations t) (map requested_type (global_reservations t))"
    by (simp add: is_reservation_possible_iff cars_of_def)
  with r show ?thesis by blast
qed

theorem connector_failure_restores_feasibility_witness:
  "feasible (check_reservations_and_cancel_if_not_possible
     (reservation_step two_evses (Make_Reservation 5 None (example_reservation 7 (Some cCCS2)))))"
proof -
  let ?s = "reservation_step two_evses (Make_Reservation 5 None (example_reservation 7 (Some cCCS2)))"
  have "reach reservation_step two_evses ?s" by (intro reach.intros)
  note reach = this [THEN reach_two_evses]
  have "global_reservations ?s = [example_reservation 7 (Some cCCS2)]" by code_simp
  then have "\<forall>r\<in>set (global_reservations ?s). res_connector_type r \<noteq> None"
    by (simp add: example_reservation_def)
  from connector_failure_restores_feasibility [OF reach this refl] show ?thesis by blast
qed

text \<open>A station with one EVSE, whose only connector is then disabled.\<close>

definition one_evse :: reservation_handler where
  "one_evse = reservation_init [(1, 0, [new_connector 1 cType2])] None (\<lambda>_. True)"

lemma reach_one_evse:
  "reach reservation_step one_evse s \<Longrightarrow>
   reach reservation_step (reservation_init [(1, 0, [new_connector 1 cType2])] None (\<lambda>_. True)) s"
  by (simp add: one_evse_def)

definition disabled_evse :: EVSEContext where
  "disabled_evse = new_evse_context 1 0 [submit_event DISABLE (new_connector 1 cType2)]"

definition after_disabling :: "int option \<Rightarrow> Reservation \<Rightarrow> reservation_handler" where
  "after_disabling evse_id r = run reservation_step one_evse
     [Make_Reservation 5 evse_id r, Change_Evse 1 disabled_evse,
      Connector_State_Changed UNAVAILABLE 1 1]"

lemma keep_global_cancels:
  "set c \<subseteq> set (snd (keep_global_reservations s m rs kept c)) \<and>
   set (snd (keep_global_reservations s m rs kept c)) \<subseteq> set c \<union> res_reservation_id ` set rs"
proof (induction rs arbitrary: kept c)
  case (Cons r rs)
  from Cons.IH [of c "kept @ [r]"] Cons.IH [of "c @ [res_reservation_id r]" kept] show ?case by auto
qed simp

lemma nobody_served:
  assumes "evses_wf s" "\<forall>(k, evse)\<in>set (evses s). \<forall>car. \<not> serves evse car" "every_car_served s m cars"
  shows "cars = []"
proof (rule ccontr)
  assume "cars \<noteq> []"
  then obtain car cars' where "cars = car # cars'" by (cases cars) auto
  with assms(3) have "\<exists>e. suits s m car e"
    unfolding every_car_served_def by (elim allE [of _ car] allE [of _ "[]"]) simp
  then show False using assms(2) unfolding suits_wf [OF assms(1)] by (auto dest: map_of_SomeD)
qed

text \<open>
  C40. A global reservation that names no connector type is not counted when it is checked itself. If
  no EVSE of the station can serve any car, the first global reservation is cancelled if it asks for a
  connector type; if it does not, it stays in force, and the reservations after the check do not pass
  the handler's own test.
\<close>

theorem untyped_global_reservation_survives:
  assumes "reach reservation_step (reservation_init es store accepts) s"
    and "global_reservations s = r # rs"
    and "\<forall>(k, evse)\<in>set (evses s). \<forall>car. \<not> serves evse car"
    and "t = check_reservations_and_cancel_if_not_possible s"
  shows "if res_connector_type r = None then r \<in> set (global_reservations t) \<and> \<not> feasible t
    else r \<notin> set (global_reservations t)"
proof -
  have wf: "handler_wf s" by (rule reservation.inv_reach [OF assms(1)])
  let ?keep = "keep_global_reservations s (evse_reservations s)"
  define dropped where "dropped = snd (?keep (r # rs) [] [])"
  have "set dropped \<subseteq> res_reservation_id ` set (global_reservations s)"
    using keep_global_cancels [of "[]" s "evse_reservations s" "r # rs" "[]"] by (simp add: dropped_def assms(2))
  note t = check_reservations_drops [OF wf this, folded assms(4)]
  note t = t [unfolded assms(2), OF dropped_def [symmetric]]
  have nobody: "every_car_served s m cars \<Longrightarrow> cars = []" for m cars
    using nobody_served [OF _ assms(3)] wf by (auto simp: handler_wf_def)
  show ?thesis
  proof (cases "res_connector_type r")
    case None
    then have "dropped = snd (?keep rs [r] [])"
      by (simp add: dropped_def check_reservations_keeps_evse(2) [OF wf])
    moreover have "res_reservation_id r \<notin> res_reservation_id ` set rs"
      using ids_distinct_parts(2) [of s] wf by (simp add: handler_wf_def assms(2))
    ultimately have "r \<in> set (global_reservations t)"
      using keep_global_cancels [of "[]" s "evse_reservations s" rs "[r]"] t(3) by auto
    moreover have "\<not> is_reservation_possible s None (global_reservations t) (evse_reservations s)"
      using nobody calculation by (fastforce simp: is_reservation_possible_iff cars_of_def)
    ultimately show ?thesis
      using None is_reservation_possible_cong [OF t(1)] by (simp add: feasible_def t(2))
  next
    case (Some type)
    have "\<not> is_reservation_possible s (Some type) [] (evse_reservations s)"
      using nobody by (fastforce simp: is_reservation_possible_iff cars_of_def)
    then have "res_reservation_id r \<in> set dropped"
      using Some keep_global_cancels [of "[res_reservation_id r]" s "evse_reservations s" rs "[]"]
      by (simp add: dropped_def)
    with Some t(3) show ?thesis by simp
  qed
qed

theorem untyped_global_reservation_survives_witness:
  "example_reservation 7 None \<in> set (global_reservations (check_reservations_and_cancel_if_not_possible
     (run reservation_step one_evse [Make_Reservation 5 None (example_reservation 7 None),
        Change_Evse 1 disabled_evse])))"
proof -
  let ?s = "run reservation_step one_evse [Make_Reservation 5 None (example_reservation 7 None),
      Change_Evse 1 disabled_evse]"
  have "reach reservation_step one_evse ?s" by (intro reach_run reach_init)
  note reach = this [THEN reach_one_evse]
  have "global_reservations ?s = [example_reservation 7 None]" by code_simp
  moreover have "evses ?s = [(1, disabled_evse)]" by code_simp
  moreover have "map conn_state (ec_connectors disabled_evse) = [UNAVAILABLE]" by code_simp
  then have "\<not> serves disabled_evse car" for car by (auto simp: serves_def)
  ultimately show ?thesis
    using untyped_global_reservation_survives [OF reach _ _ refl, of "example_reservation 7 None" "[]"]
    by (simp add: example_reservation_def)
qed

text \<open>
  A reservation for an EVSE that names no connector type stays in force when the only connector
  of that EVSE is disabled, although the same request would then be refused as unavailable; with a
  connector type it is cancelled.
\<close>

lemma untyped_evse_reservation_survives:
  "evse_reservations (after_disabling (Some 1) (example_reservation 7 None)) =
     [(1, example_reservation 7 None)] \<and>
   fst (make_reservation (after_disabling (Some 1) (example_reservation 7 None)) 5 (Some 1)
     (example_reservation 7 None)) = RUnavailable \<and>
   evse_reservations (after_disabling (Some 1) (example_reservation 7 (Some cType2))) = []"
  by code_simp

subsection \<open>Charging without a reservation\<close>

lemma charging_possible_plugged:
  assumes wf: "handler_wf s" and possible: "is_charging_possible s e"
    and evse: "map_of (evses s) e = Some evse"
  shows "feasible (s\<lparr>evses := omap_insert e (evse\<lparr>ec_plugged_in := True\<rparr>) (evses s)\<rparr>)"
    (is "feasible ?t")
proof -
  let ?m = "omap_insert e dummy_reservation (evse_reservations s)"
  have none: "map_of (evse_reservations s) e = None"
    using possible by (auto simp: is_charging_possible_def split: if_splits)
  have wfs: "evses_wf s" "evses_wf ?t"
    using wf change_evse_handler_wf [OF wf] evse by (auto simp: handler_wf_def)
  have "suits ?t (evse_reservations s) car x = suits s ?m car x" for car x
    unfolding suits_wf [OF wfs(1)] suits_wf [OF wfs(2)]
    by (cases "x = e") (simp_all add: omap_lookup_insert serves_def)
  then have suits: "suits ?t (evse_reservations s) = suits s ?m" by (intro ext)
  have served: "every_car_served ?t (evse_reservations s) cars = every_car_served s ?m cars" for cars
    unfolding every_car_served_def suits by (rule refl)
  have "length ?m = Suc (length (evse_reservations s))"
    using omap.size_insert [OF _ none, of dummy_reservation] wf
    by (simp add: handler_wf_def reservations_wf_def)
  moreover have "is_reservation_possible s None (global_reservations s) ?m"
    using possible by (auto simp: is_charging_possible_def split: if_splits)
  ultimately show ?thesis
    using omap_length_insert [of "evses s" e "evse\<lparr>ec_plugged_in := True\<rparr>"]
    unfolding feasible_def is_reservation_possible_iff by (simp add: served)
qed

lemma plug_in_elsewhere_serves:
  assumes "reserved_evses_serve s" "map_of (evse_reservations s) e = None"
  shows "reserved_evses_serve (s\<lparr>evses := omap_insert e evse (evses s)\<rparr>)"
proof -
  have "k \<noteq> e" if "(k, r) \<in> set (evse_reservations s)" for k r
    using that assms(2) by (force simp: map_of_eq_None_iff)
  with assms(1) show ?thesis by (force simp: reserved_evses_serve_def omap_lookup_insert)
qed

text \<open>
  C11. A car without a reservation may charge at an EVSE only where this harms nobody: if the handler
  allows it, the EVSE is not reserved, and once the car is plugged in there the handler's test still
  finds places for all global reservations, and each reserved EVSE that could serve its reservation
  before can still do so.
\<close>

theorem charging_without_reservation_harmless:
  assumes "reach reservation_step (reservation_init es store accepts) s"
    and "is_charging_possible s e" and "map_of (evses s) e = Some evse"
    and "s' = reservation_step s (Change_Evse e (evse\<lparr>ec_plugged_in := True\<rparr>))"
  shows "\<not> is_evse_reserved s e \<and> feasible s' \<and> (reserved_evses_serve s \<longrightarrow> reserved_evses_serve s')"
proof -
  have "map_of (evse_reservations s) e = None"
    using assms(2) by (auto simp: is_charging_possible_def split: if_splits)
  then show ?thesis
    using charging_possible_plugged [OF reservation.inv_reach [OF assms(1)] assms(2,3)] assms(3,4)
      plug_in_elsewhere_serves [of s e] by (auto simp add: reservation_step_def is_evse_reserved_def)
qed

theorem charging_without_reservation_harmless_witness:
  "\<not> is_charging_possible (reservation_step two_evses
       (Make_Reservation 5 None (example_reservation 7 (Some cType2)))) 1 \<and>
   feasible (reservation_step (reservation_step two_evses
       (Make_Reservation 5 None (example_reservation 7 (Some cType2))))
     (Change_Evse 2 (new_evse_context 2 1 [new_connector 1 cCCS2]\<lparr>ec_plugged_in := True\<rparr>)))"
proof
  let ?s = "reservation_step two_evses (Make_Reservation 5 None (example_reservation 7 (Some cType2)))"
  show "\<not> is_charging_possible ?s 1" by code_simp
  have "reach reservation_step two_evses ?s" by (intro reach.intros)
  note reach = this [THEN reach_two_evses]
  have "is_charging_possible ?s 2" by code_simp
  moreover have "map_of (evses ?s) 2 = Some (new_evse_context 2 1 [new_connector 1 cCCS2])"
    by code_simp
  ultimately show "feasible (reservation_step ?s
      (Change_Evse 2 (new_evse_context 2 1 [new_connector 1 cCCS2]\<lparr>ec_plugged_in := True\<rparr>)))"
    using charging_without_reservation_harmless [OF reach _ _ refl] by blast
qed

subsection \<open>The store mirrors the reservations\<close>

text \<open>
  The relation between the state before and after an operation: the store holds the reservations of the
  new state, or neither the store nor the reservations have changed.
\<close>

definition store_follows ::
  "'a reservation_handler_scheme \<Rightarrow> 'a reservation_handler_scheme \<Rightarrow> bool" where
  "store_follows s t \<longleftrightarrow> kvs s = None \<or> kvs t = Some (Stored_Array (stored_reservations t)) \<or>
     kvs t = kvs s \<and> evse_reservations t = evse_reservations s \<and>
     global_reservations t = global_reservations s"

lemma follows_refl [simp]: "store_follows s s"
  by (simp add: store_follows_def)

lemma follows_trans [trans]: "store_follows s t \<Longrightarrow> store_follows t u \<Longrightarrow> store_follows s u"
  by (auto simp: store_follows_def stored_reservations_def)

lemma follows_same:
  "kvs u = kvs t \<Longrightarrow> evse_reservations u = evse_reservations t \<Longrightarrow>
   global_reservations u = global_reservations t \<Longrightarrow> store_follows s u = store_follows s t"
  by (simp add: store_follows_def stored_reservations_def)

lemma follows_stored: "kvs t = kvs s \<Longrightarrow> store_follows s (store_reservations t)"
  by (auto simp: store_follows_def store_reservations_def stored_reservations_def)

lemma follows_fold:
  "(\<And>x s. store_follows s (f x s)) \<Longrightarrow> store_follows s (fold f xs s)"
proof (induction xs arbitrary: s)
  case (Cons x xs)
  from Cons.prems [of s x] Cons.IH [OF Cons.prems, of "f x s"] show ?case by (auto intro: follows_trans)
qed simp

lemma follows_cancelled: "store_follows s (cancelled s i cb reason)"
proof -
  have "kvs (erase_reservation i e u) = kvs u" for e and u :: "'a reservation_handler_scheme"
    by (simp add: erase_reservation_def split: option.split)
  then have "store_follows s (store_reservations
      (erase_reservation i e (s\<lparr>reservation_timers := m\<rparr>)))" for e m by (intro follows_stored) simp
  moreover have "store_follows s (reservation_cancelled_callback u e i reason upd) = store_follows s u" for u e upd
    by (rule follows_same) simp_all
  ultimately show ?thesis by (simp add: cancel_reservation_def Let_def)
qed

lemma follows_timer: "store_follows s (set_reservation_timer r t) = store_follows s t"
  by (rule follows_same) (simp_all add: set_reservation_timer_def)

lemma follows_make_evse: "store_follows s (snd (make_evse_reservation s e r))"
  by (cases "evse_request_ok s e r")
    (simp_all add: make_evse_reservation_placed make_evse_reservation_refused follows_timer follows_stored)

lemma follows_make_global: "store_follows s (snd (make_global_reservation s r))"
  by (cases "global_request_ok s r")
    (simp_all add: make_global_reservation_placed make_global_reservation_refused follows_timer
      follows_stored)

lemma follows_make: "store_follows s (snd (make_reservation s now e r))"
  by (cases e) (auto simp: make_reservation_def Let_def
      intro: follows_trans [OF follows_cancelled follows_make_evse]
        follows_trans [OF follows_cancelled follows_make_global])

lemma follows_load_entry: "store_follows s (load_entry from_store now x s)"
proof (cases rule: load_entry_cases [of from_store now x s])
  case (placed e r u)
  have "store_follows s u" unfolding placed(1) by (rule follows_make)
  moreover have "store_follows s (u\<lparr>restored_reservations := m\<rparr>) = store_follows s u" for m
    by (rule follows_same) simp_all
  moreover have "store_follows s (reservation_cancelled_callback u y n reason upd) = store_follows s u"
    for y n reason upd by (rule follows_same) simp_all
  ultimately show ?thesis using placed(2) by auto
qed simp

lemma follows_connector_changed: "store_follows s (on_connector_state_changed s state e c)"
proof -
  have "store_follows s (check_reservations_and_cancel_if_not_possible s)"
    unfolding check_reservations_and_cancel_if_not_possible_def Let_def case_prod_beta
    by (rule follows_fold) (rule follows_cancelled)
  then show ?thesis by (simp add: on_connector_state_changed_def follows_cancelled split: option.split)
qed

lemma follows_step: "store_follows s (reservation_step s i)"
proof (cases i)
  case (Cancel_Evse_Reservation e cb)
  then show ?thesis
    by (simp add: reservation_step_def cancel_evse_reservation_def case_prod_beta follows_cancelled
        split: option.split)
next
  case (Take_Restored_Reservation e)
  have "store_follows s (s\<lparr>restored_reservations := m\<rparr>) = store_follows s s" for m
    by (rule follows_same) simp_all
  with Take_Restored_Reservation show ?thesis
    by (simp add: reservation_step_def take_restored_reservation_def Let_def split: option.split)
next
  case Send_Updates
  have "store_follows s (check_evse_reserved_and_send_updates s) = store_follows s s"
    by (rule follows_same) simp_all
  with Send_Updates show ?thesis by (simp add: reservation_step_def)
next
  case (Change_Evse e evse)
  have "store_follows s (s\<lparr>evses := m\<rparr>) = store_follows s s" for m
    by (rule follows_same) simp_all
  with Change_Evse show ?thesis by (simp add: reservation_step_def)
next
  case (Load_Reservations from_store now)
  have "store_follows s (fold (load_entry from_store now) xs s)" for xs
    by (rule follows_fold) (rule follows_load_entry)
  with Load_Reservations show ?thesis
    by (simp add: reservation_step_def load_reservations_def split: option.split stored_value.split)
qed (simp_all add: reservation_step_def on_reservation_used_def reservation_expired_def
    follows_make follows_cancelled follows_connector_changed)

definition store_in_step :: "'a reservation_handler_scheme \<Rightarrow> bool" where
  "store_in_step s \<longleftrightarrow> kvs s = Some (Stored_Array (stored_reservations s))"

lemma store_in_step_follows: "store_in_step s \<Longrightarrow> store_follows s t \<Longrightarrow> store_in_step t"
  by (auto simp: store_in_step_def store_follows_def stored_reservations_def)

lemma init_evses_only:
  "\<exists>m. fold (\<lambda>(i, n, cs). init_evse (to_s32 i) n cs) es s = s\<lparr>evses := m\<rparr>"
proof (induction es arbitrary: s)
  case Nil
  show ?case by (intro exI [of _ "evses s"]) simp
next
  case (Cons x es)
  obtain i n cs where x: "x = (i, n, cs)" by (cases x)
  obtain m where "init_evse (to_s32 i) n cs s = s\<lparr>evses := m\<rparr>"
    by (cases "to_s32 i \<le> 0") (auto simp: init_evse_def intro: that [of "evses s"])
  with Cons [of "s\<lparr>evses := m\<rparr>"] show ?case by (simp add: x)
qed

lemma reservation_init_kvs:
  "kvs (reservation_init es store accepts) = store"
  "store_in_step (reservation_init es (Some (Stored_Array [])) accepts)"
proof -
  have "kvs (reservation_init es store accepts) = store \<and>
      evse_reservations (reservation_init es store accepts) = [] \<and>
      global_reservations (reservation_init es store accepts) = []" for store
    using init_evses_only [of es "\<lparr>evses = [], evse_reservations = [], global_reservations = [],
        restored_reservations = [], reservation_timers = [], last_reserved_status = [], kvs = store,
        manager_accepts = accepts, calls = []\<rparr>"]
    unfolding reservation_init_def by auto
  then show "kvs (reservation_init es store accepts) = store"
    "store_in_step (reservation_init es (Some (Stored_Array [])) accepts)"
    by (simp_all add: store_in_step_def stored_reservations_def)
qed

interpretation reservation_store: machine_invariant reservation_step
  "reservation_init es (Some (Stored_Array [])) accepts" store_in_step for es accepts
  by unfold_locales (rule reservation_init_kvs, rule store_in_step_follows [OF _ follows_step])

interpretation store_present: machine_invariant reservation_step
  "reservation_init es (Some v) accepts" "\<lambda>s. kvs s \<noteq> None" for es v accepts
  by unfold_locales (simp add: reservation_init_kvs, use follows_step in \<open>force simp: store_follows_def\<close>)

text \<open>
  C25. The key-value store keeps up with the reservations in force. Whatever it holds at the start, each
  operation either leaves the store and the reservations unchanged, or the store afterwards holds exactly
  the reservations in force, those for EVSEs with their EVSE and the global ones after them; so every
  operation that changes the reservations brings the store up to date. If the store starts with an
  empty array, it holds exactly the reservations in force at every moment. (Entries of an earlier run
  stay in the store until the first such operation.)
\<close>

theorem store_mirrors_reservations:
  assumes "reach reservation_step (reservation_init es (Some v) accepts) s" and "t = reservation_step s i"
  shows "(kvs t = Some (Stored_Array (stored_reservations t)) \<or>
      kvs t = kvs s \<and> evse_reservations t = evse_reservations s \<and>
      global_reservations t = global_reservations s) \<and>
    (v = Stored_Array [] \<longrightarrow> kvs s = Some (Stored_Array (stored_reservations s)))"
proof -
  have "store_follows s t" using follows_step [of s i] by (simp add: assms(2))
  with store_present.inv_reach [OF assms(1)] reservation_store.inv_reach [of es accepts s] assms(1)
  show ?thesis by (auto simp: store_follows_def store_in_step_def)
qed

theorem store_mirrors_reservations_witness:
  "kvs (reservation_step (reservation_init [(1, 0, [new_connector 1 cType2])]
       (Some (Stored_Array [])) (\<lambda>_. True)) (Make_Reservation 5 (Some 1) (example_reservation 7 None)))
     = Some (Stored_Array [Stored (Some 1) (example_reservation 7 None)])"
  (is "kvs (reservation_step ?s ?i) = _")
proof -
  have "reach reservation_step ?s (reservation_step ?s ?i)" by (intro reach.intros)
  from store_mirrors_reservations [OF this refl]
  have "kvs (reservation_step ?s ?i) =
      Some (Stored_Array (stored_reservations (reservation_step ?s ?i)))" by blast
  moreover have "stored_reservations (reservation_step ?s ?i) =
      [Stored (Some 1) (example_reservation 7 None)]" by code_simp
  ultimately show ?thesis by simp
qed

subsection \<open>Restart\<close>

text \<open>
  The state in which a restarted handler loads the store: no reservations, the EVSEs as they are
  reported, the stored array in the store.
\<close>

definition restarted ::
  "'b reservation_handler_scheme \<Rightarrow> 'a reservation_handler_scheme \<Rightarrow> bool" where
  "restarted s s0 \<longleftrightarrow> evses_wf s0 \<and> evse_reservations s0 = [] \<and> global_reservations s0 = [] \<and>
     reservation_timers s0 = [] \<and> restored_reservations s0 = [] \<and>
     kvs s0 = Some (Stored_Array (stored_reservations s))"

text \<open>Each reserved EVSE is free and has a usable connector of the requested type.\<close>

definition reserved_evses_usable ::
  "'a reservation_handler_scheme \<Rightarrow> (int, Reservation) omap \<Rightarrow> bool" where
  "reserved_evses_usable s m \<longleftrightarrow> (\<forall>(e, r)\<in>set m. suits s [] (requested_type r) e)"

definition loaded ::
  "'a reservation_handler_scheme \<Rightarrow> (int, Reservation) omap \<Rightarrow> Reservation list \<Rightarrow>
     'a reservation_handler_scheme \<Rightarrow> bool" where
  "loaded s0 m gs t \<longleftrightarrow> evses t = evses s0 \<and> evse_reservations t = m \<and> global_reservations t = gs \<and>
     fst ` set (reservation_timers t) = res_reservation_id ` (snd ` set m \<union> set gs) \<and>
     restored_reservations t = map (\<lambda>(e, r). (e, res_reservation_id r)) m"

lemma make_new_reservation:
  assumes "now \<le> res_expiry_time r"
    and "res_reservation_id r \<notin> fst ` set (reservation_timers t)"
  shows "make_reservation t now e r =
    (case e of Some x \<Rightarrow> make_evse_reservation t x r | None \<Rightarrow> make_global_reservation t r)"
proof -
  have "map_of (reservation_timers t) (res_reservation_id r) = None"
    using assms(2) by (simp add: map_of_eq_None_iff)
  with assms(1) show ?thesis by (simp add: make_reservation_def cancel_reservation_def)
qed

lemma load_evse_entry:
  assumes wf: "evses_wf s0" and t: "loaded s0 m [] t"
    and r: "now \<le> res_expiry_time r" "res_reservation_id r \<notin> res_reservation_id ` snd ` set m"
      "from_store r = Some r"
    and e: "\<forall>k\<in>set (map fst m). k < e" "suits s0 [] (requested_type r) e"
  shows "loaded s0 (m @ [(e, r)]) [] (load_entry from_store now (Stored (Some e) r) t)"
proof -
  have es: "evses t = evses s0" using t by (simp add: loaded_def)
  have none: "map_of m e = None" using e(1) by (auto simp: map_of_eq_None_iff)
  obtain evse where evse: "map_of (evses s0) e = Some evse" "serves evse (requested_type r)"
    using e(2) unfolding suits_wf [OF wf] by blast
  have key: "to_u32 e = e" "to_s32 e = e" using evses_wf_key [OF wf map_of_SomeD [OF evse(1)]] by auto
  have "evse_at t e = Some evse" using evse(1) es key by (simp add: evse_at_def)
  with evse(2) none t have ok: "evse_request_ok t e r"
    by (simp add: evse_request_ok_def serves_iff evse_result_free loaded_def
        get_connector_availability_reservation_result_def)
  have "make_reservation t now (Some e) r = make_evse_reservation t e r"
    using make_new_reservation [OF r(1), of t "Some e"] r(2) t by (simp add: loaded_def)
  with ok make_evse_reservation_Accepted [of t e r] key r(3)
  have "load_entry from_store now (Stored (Some e) r) t =
      (let t = snd (make_evse_reservation t e r) in
       t\<lparr>restored_reservations := omap_insert e (res_reservation_id r) (restored_reservations t)\<rparr>)"
    by (simp add: Let_def case_prod_beta)
  moreover have "omap_insert e r m = m @ [(e, r)]" using e(1) by (rule omap_insert_last)
  moreover have "omap_insert e (res_reservation_id r) (map (\<lambda>(e, r). (e, res_reservation_id r)) m) =
      map (\<lambda>(e, r). (e, res_reservation_id r)) m @ [(e, res_reservation_id r)]"
    using e(1) by (intro omap_insert_last) auto
  ultimately show ?thesis
    using t by (simp add: loaded_def make_evse_reservation_placed [OF ok] Let_def
        set_omap_insert_keys)
qed

lemma load_evse_entries:
  assumes "evses_wf s0" "loaded s0 m [] t" "omap_wf (m @ m')"
    "distinct (map (res_reservation_id \<circ> snd) (m @ m'))"
    "\<forall>r\<in>snd ` set m'. now \<le> res_expiry_time r \<and> from_store r = Some r" "reserved_evses_usable s0 m'"
  shows "loaded s0 (m @ m') [] (fold (load_entry from_store now) (map (\<lambda>(e, r). Stored (Some e) r) m') t)"
  using assms(2-)
proof (induction m' arbitrary: m t)
  case (Cons x m')
  obtain e r where x: "x = (e, r)" by (cases x)
  have "loaded s0 (m @ [(e, r)]) [] (load_entry from_store now (Stored (Some e) r) t)"
    using Cons.prems x
    by (intro load_evse_entry [OF assms(1) Cons.prems(1)])
      (auto simp: omap_wf_def sorted_wrt_append reserved_evses_usable_def)
  from Cons.IH [OF this] Cons.prems x show ?case by (simp add: reserved_evses_usable_def)
qed simp

lemma load_global_entry:
  assumes t: "loaded s0 m gs t" and r: "now \<le> res_expiry_time r"
    "res_reservation_id r \<notin> res_reservation_id ` (snd ` set m \<union> set gs)" "from_store r = Some r"
    and possible: "is_reservation_possible s0 None (gs @ [r]) m"
  shows "loaded s0 m (gs @ [r]) (load_entry from_store now (Stored None r) t)"
proof -
  have es: "evses t = evses s0" using t by (simp add: loaded_def)
  have "every_car_served s0 m (map requested_type (gs @ [r]))"
    using possible by (simp add: is_reservation_possible_iff cars_of_def)
  then have "\<exists>e. suits s0 m (requested_type r) e"
    unfolding every_car_served_def
    by (elim allE [of _ "requested_type r"] allE [of _ "[]"]) simp
  then have "does_evse_connector_type_exist t (requested_type r)"
    unfolding does_evse_connector_type_exist_def es
    by (auto simp: suits_def can_park_def list_ex_iff)
  with possible t is_reservation_possible_cong [OF es] have ok: "global_request_ok t r"
    by (auto simp: global_request_ok_def loaded_def requested_type_def)
  have "make_reservation t now None r = make_global_reservation t r"
    using make_new_reservation [OF r(1), of t None] r(2) t by (simp add: loaded_def)
  with ok make_global_reservation_Accepted [of t r] r(3)
  have "load_entry from_store now (Stored None r) t = snd (make_global_reservation t r)"
    by (simp add: Let_def case_prod_beta)
  then show ?thesis
    using t by (auto simp: loaded_def make_global_reservation_placed [OF ok] set_omap_insert_keys)
qed

lemma load_global_entries:
  assumes "loaded s0 m gs t"
    "distinct (map res_reservation_id (map snd m @ gs @ gs'))"
    "\<forall>r\<in>set gs'. now \<le> res_expiry_time r \<and> from_store r = Some r" "is_reservation_possible s0 None (gs @ gs') m"
  shows "loaded s0 m (gs @ gs') (fold (load_entry from_store now) (map (Stored None) gs') t)"
  using assms
proof (induction gs' arbitrary: gs t)
  case (Cons r gs')
  have "loaded s0 m (gs @ [r]) (load_entry from_store now (Stored None r) t)"
    using Cons.prems is_reservation_possible_prefix [of s0 "gs @ [r]" gs' m]
    by (intro load_global_entry) auto
  from Cons.IH [OF this] Cons.prems show ?case by simp
qed simp

text \<open>
  C27. A restart restores the reservations. Assume that the store holds the reservations in force before
  the restart and that reading a stored reservation gives it back; that none of them has expired; that
  each reserved EVSE is free and has an available connector of the requested type; and that the handler's
  test finds places for the global ones at the EVSEs as they are after the restart. Then loading the
  store yields the same reservations for EVSEs and the same global ones in the same order, and each
  restored EVSE reservation is noted for its EVSE manager.
\<close>

theorem restart_restores_reservations:
  assumes "reach reservation_step (reservation_init es store accepts) s" and "restarted s s0"
    and "\<forall>r\<in>set (all_reservations s). from_store r = Some r"
    and "\<forall>r\<in>set (all_reservations s). now \<le> res_expiry_time r"
    and "reserved_evses_usable s0 (evse_reservations s)"
    and "is_reservation_possible s0 None (global_reservations s) (evse_reservations s)"
  shows "evse_reservations (load_reservations from_store s0 now) = evse_reservations s \<and>
    global_reservations (load_reservations from_store s0 now) = global_reservations s \<and>
    restored_reservations (load_reservations from_store s0 now) =
      map (\<lambda>(e, r). (e, res_reservation_id r)) (evse_reservations s)"
proof -
  have wf: "reservations_wf s" using reservation_reach [OF assms(1)] by blast
  have s0: "evses_wf s0" "loaded s0 [] [] s0" "kvs s0 = Some (Stored_Array (stored_reservations s))"
    using assms(2) by (auto simp: restarted_def loaded_def)
  let ?t = "fold (load_entry from_store now) (map (\<lambda>(e, r). Stored (Some e) r) (evse_reservations s)) s0"
  have "loaded s0 (evse_reservations s) [] ?t"
    using load_evse_entries [OF s0(1,2), of "evse_reservations s" now from_store] wf assms(3-5)
      ids_distinct_parts(1) [OF wf]
    by (simp add: reservations_wf_def all_reservations_def)
  from load_global_entries [OF this, of "global_reservations s" now from_store]
  have "loaded s0 (evse_reservations s) (global_reservations s)
      (fold (load_entry from_store now) (map (Stored None) (global_reservations s)) ?t)"
    using wf assms(3,4,6) by (simp add: reservations_wf_def all_reservations_def)
  then show ?thesis
    by (simp add: load_reservations_def s0(3) stored_reservations_def loaded_def)
qed

definition stored_station :: reservation_handler where
  "stored_station = run reservation_step two_evses
     [Make_Reservation 5 (Some 2) (example_reservation 7 None),
      Make_Reservation 5 None (example_reservation 8 (Some cType2))]"

definition restarted_station :: reservation_handler where
  "restarted_station = two_evses\<lparr>kvs := Some (Stored_Array (stored_reservations stored_station))\<rparr>"

theorem restart_restores_reservations_witness:
  "evse_reservations (load_reservations Some restarted_station 6) = [(2, example_reservation 7 None)] \<and>
   global_reservations (load_reservations Some restarted_station 6) =
     [example_reservation 8 (Some cType2)]"
proof -
  have reach: "reach reservation_step two_evses stored_station"
    unfolding stored_station_def by (intro reach_run reach_init)
  have "evses_wf two_evses"
    using reservation_init_wf unfolding two_evses_def handler_wf_def by blast
  then have "evses_wf restarted_station"
    by (simp add: evses_wf_def restarted_station_def)
  then have restarted: "restarted stored_station restarted_station"
    unfolding restarted_def
    by (simp add: restarted_station_def two_evses_def reservation_init_def init_evse_def)
  have content: "evse_reservations stored_station = [(2, example_reservation 7 None)]"
    "global_reservations stored_station = [example_reservation 8 (Some cType2)]"
    by code_simp+
  have "\<forall>r\<in>set (all_reservations stored_station). 6 \<le> res_expiry_time r"
    by (simp add: all_reservations_def content example_reservation_def)
  moreover have "reserved_evses_usable restarted_station (evse_reservations stored_station)"
    by code_simp
  moreover have "is_reservation_possible restarted_station None
      (global_reservations stored_station) (evse_reservations stored_station)"
    by code_simp
  ultimately show ?thesis
    using restart_restores_reservations [OF reach_two_evses [OF reach] restarted, of Some] content by simp
qed

end
