(* ===== verification/Auth_Handler.thy ===== *)
theory Auth_Handler
  imports Reservation
begin

text \<open>
  The authorization handler: \<^verbatim>\<open>src/modules/EVSE/Auth/lib/AuthHandler.cpp\<close>.

  Its members extend the state of the reservation handler. Every entry point holds the handler's
  mutex, except while it waits: for the token validators, for a plug in, for a timeout task that is
  already running, for tokens in process, or for the EVSE manager to place a reservation. Placing,
  cancelling and restoring a reservation are sequences of such sections with the mutex free in between.
  What the other threads do during a wait or between two sections is a parameter, an arbitrary function
  on the state (the sections in between are numbered, so that the function may differ from point to
  point); the same record holds the answer of the token validators, which are other modules.

  The exception of an EVSE selection that is not implemented is an outcome of its own. The map of
  EVSEs is filled before the handler is used and never loses an entry, so that a lookup with an id
  taken from the map succeeds. Of the callbacks only the one that publishes the status of a token may
  be missing, which \<open>on_token\<close> tests; a status is published only for tokens that have passed this test
  or for authorizations granted to such tokens.
\<close>

subsection \<open>State, environment and results\<close>

record auth_handler = reservation_handler +
  selection_algorithm :: SelectionAlgorithm
  connection_timeout :: int
  plug_in_timeout_enabled :: bool
  master_pass_group_id :: "string option"
  prioritize_authorization_over_stopping_transaction :: bool
  ignore_faults :: bool
  stop_transaction_on_reswipe :: bool
  plug_in_queue :: "int list"
  tokens_in_process :: "ProvidedIdToken list"
  withdraw_request :: "WithdrawAuthorizationRequest option"
  publish_callback_registered :: bool

record auth_env =
  validate_token :: "ProvidedIdToken \<Rightarrow> ValidationResult list"
  during_validation :: "auth_handler \<Rightarrow> auth_handler"
  during_plug_in_wait :: "auth_handler \<Rightarrow> auth_handler"
  during_timeout_task :: "auth_handler \<Rightarrow> auth_handler"
  during_withdraw_wait :: "auth_handler \<Rightarrow> auth_handler"
  during_reserve_call :: "auth_handler \<Rightarrow> auth_handler"
  between_sections :: "nat \<Rightarrow> auth_handler \<Rightarrow> auth_handler"

datatype TokenHandlingResult =
    ALREADY_IN_PROCESS | REJECTED | USED_TO_START_TRANSACTION | USED_TO_STOP_TRANSACTION | TIMEOUT
  | NO_CONNECTOR_AVAILABLE | WITHDRAWN | USED_TO_REAUTHORIZE

datatype SelectEvseResult = EvseSelected int | Interrupted | SelectTimeOut

definition evse_of :: "auth_handler \<Rightarrow> int \<Rightarrow> EVSEContext" where
  "evse_of s evse_id = the (map_of (evses s) evse_id)"

definition update_evse :: "int \<Rightarrow> (EVSEContext \<Rightarrow> EVSEContext) \<Rightarrow> auth_handler \<Rightarrow> auth_handler" where
  "update_evse evse_id f s =
     s\<lparr>evses := map (\<lambda>(k, evse). (k, if k = evse_id then f evse else evse)) (evses s)\<rparr>"

definition publish_token_validation_status ::
  "ProvidedIdToken \<Rightarrow> TokenValidationStatus \<Rightarrow> string list \<Rightarrow> auth_handler \<Rightarrow> auth_handler" where
  "publish_token_validation_status token status tariff_messages s =
     emit (Publish_Status token status tariff_messages) s"

subsection \<open>Tests on the EVSEs\<close>

definition get_referenced_evses :: "auth_handler \<Rightarrow> ProvidedIdToken \<Rightarrow> int list" where
  "get_referenced_evses s token =
     (case pt_connectors token of
        Some connectors \<Rightarrow>
          filter (\<lambda>evse_id. case map_of (evses s) evse_id of
              Some evse \<Rightarrow> \<not> evse_is_unavailable evse | None \<Rightarrow> False) connectors
      | None \<Rightarrow> map fst (filter (\<lambda>(_, evse). \<not> evse_is_unavailable evse) (evses s)))"

definition identifier_matches :: "Identifier \<Rightarrow> string \<Rightarrow> bool" where
  "identifier_matches i token \<longleftrightarrow>
     is_equal_case_insensitive (tok_value (ident_id_token i)) token \<or>
     (case ident_parent_id_token i of
        Some p \<Rightarrow> is_equal_case_insensitive (tok_value p) token | None \<Rightarrow> False)"

definition used_for_transaction :: "auth_handler \<Rightarrow> int list \<Rightarrow> string \<Rightarrow> int" where
  "used_for_transaction s evse_ids token =
     (case find (\<lambda>e. case ec_identifier (evse_of s e) of
              Some i \<Rightarrow> identifier_matches i token | None \<Rightarrow> False) evse_ids of
        Some e \<Rightarrow> e | None \<Rightarrow> - 1)"

text \<open>The set of tokens in process is ordered, and compared, by the token's value.\<close>

definition in_process :: "auth_handler \<Rightarrow> ProvidedIdToken \<Rightarrow> bool" where
  "in_process s token =
     list_ex (\<lambda>t. tok_value (pt_id_token t) = tok_value (pt_id_token token)) (tokens_in_process s)"

definition insert_in_process :: "ProvidedIdToken \<Rightarrow> auth_handler \<Rightarrow> auth_handler" where
  "insert_in_process token s =
     (if in_process s token then s
      else s\<lparr>tokens_in_process := tokens_in_process s @ [token]\<rparr>)"

definition erase_in_process :: "ProvidedIdToken \<Rightarrow> auth_handler \<Rightarrow> auth_handler" where
  "erase_in_process token s = s\<lparr>tokens_in_process :=
     filter (\<lambda>t. tok_value (pt_id_token t) \<noteq> tok_value (pt_id_token token)) (tokens_in_process s)\<rparr>"

definition is_token_already_in_process ::
  "auth_handler \<Rightarrow> ProvidedIdToken \<Rightarrow> int list \<Rightarrow> bool" where
  "is_token_already_in_process s token referenced_evses =
     (if in_process s token then True
      else list_ex (\<lambda>e. let evse = evse_of s e in
             (case ec_identifier evse of
                Some i \<Rightarrow> id_token_equal (ident_id_token i) (pt_id_token token) | None \<Rightarrow> False) \<and>
             \<not> ec_transaction_active evse) referenced_evses)"

definition any_evse_available :: "auth_handler \<Rightarrow> int list \<Rightarrow> bool" where
  "any_evse_available s evse_ids = list_ex (\<lambda>e. evse_is_available (evse_of s e)) evse_ids"

definition any_parent_id_present :: "auth_handler \<Rightarrow> int list \<Rightarrow> bool" where
  "any_parent_id_present s evse_ids = list_ex (\<lambda>e.
     case ec_identifier (evse_of s e) of
       Some i \<Rightarrow> ident_parent_id_token i \<noteq> None | None \<Rightarrow> False) evse_ids"

definition equals_master_pass_group_id :: "auth_handler \<Rightarrow> IdToken option \<Rightarrow> bool" where
  "equals_master_pass_group_id s parent_id_token =
     (case master_pass_group_id s of
        None \<Rightarrow> False
      | Some group_id \<Rightarrow>
          (case parent_id_token of
             None \<Rightarrow> False
           | Some p \<Rightarrow> is_equal_case_insensitive (tok_value p) group_id))"

definition get_oldest_plugin :: "auth_handler \<Rightarrow> int list \<Rightarrow> int" where
  "get_oldest_plugin s evse_ids =
     (case find (\<lambda>e. e \<in> set evse_ids) (plug_in_queue s) of Some e \<Rightarrow> e | None \<Rightarrow> - 1)"

definition get_last_plugin :: "auth_handler \<Rightarrow> int list \<Rightarrow> int" where
  "get_last_plugin s evse_ids =
     (case find (\<lambda>e. e \<in> set evse_ids) (rev (plug_in_queue s)) of Some e \<Rightarrow> e | None \<Rightarrow> - 1)"

definition does_withdraw_request_match ::
  "WithdrawAuthorizationRequest \<Rightarrow> int list \<Rightarrow> IdToken \<Rightarrow> bool" where
  "does_withdraw_request_match request selected_evses id_token =
     (let is_evse_in_selected = (case wr_evse_id request of
            Some e \<Rightarrow> e \<in> set selected_evses | None \<Rightarrow> False);
          id_token_matches = (case wr_id_token request of
            None \<Rightarrow> True | Some t \<Rightarrow> id_token_equal t id_token)
      in id_token_matches \<and> (wr_evse_id request = None \<or> is_evse_in_selected))"

definition is_authorization_withdrawn :: "auth_handler \<Rightarrow> int list \<Rightarrow> IdToken \<Rightarrow> bool" where
  "is_authorization_withdrawn s selected_evses id_token =
     (case withdraw_request s of
        None \<Rightarrow> False | Some r \<Rightarrow> does_withdraw_request_match r selected_evses id_token)"

subsection \<open>Selection of an EVSE\<close>

definition select_plugged_in_evse :: "auth_handler \<Rightarrow> int list \<Rightarrow> int" where
  "select_plugged_in_evse s selected_evses =
     (if selection_algorithm s = PlugEventsLIFO then get_last_plugin s selected_evses
      else get_oldest_plugin s selected_evses)"

text \<open>
  Waiting with a timeout returns whether the condition holds at the end; the state has then been
  changed by the other threads.
\<close>

definition wait_for_plug_in ::
  "auth_env \<Rightarrow> auth_handler \<Rightarrow> int list \<Rightarrow> IdToken \<Rightarrow> bool \<times> auth_handler" where
  "wait_for_plug_in env s selected_evses id_token =
     (let condition = (\<lambda>s. select_plugged_in_evse s selected_evses \<noteq> - 1 \<or>
            is_authorization_withdrawn s selected_evses id_token)
      in if condition s then (True, s)
         else let s = during_plug_in_wait env s in (condition s, s))"

definition select_by_plug_in ::
  "auth_env \<Rightarrow> auth_handler \<Rightarrow> int list \<Rightarrow> IdToken \<Rightarrow> SelectEvseResult \<times> auth_handler" where
  "select_by_plug_in env s selected_evses id_token =
     (let (ok, s) = (if select_plugged_in_evse s selected_evses = - 1
                     then wait_for_plug_in env s selected_evses id_token else (True, s))
      in if \<not> ok then (SelectTimeOut, s)
         else if is_authorization_withdrawn s selected_evses id_token then (Interrupted, s)
         else (EvseSelected (select_plugged_in_evse s selected_evses), s))"

definition select_first :: "auth_handler \<Rightarrow> int list \<Rightarrow> SelectEvseResult" where
  "select_first s selected_evses =
     (let selected_evse_id = get_oldest_plugin s selected_evses
      in if selected_evse_id \<noteq> - 1 \<and> \<not> ec_transaction_active (evse_of s selected_evse_id)
         then EvseSelected (get_oldest_plugin s selected_evses)
         else (case find (\<lambda>e. evse_is_available (evse_of s e)) selected_evses of
                 Some e \<Rightarrow> EvseSelected e
               | None \<Rightarrow> SelectTimeOut))"

text \<open>\<open>None\<close> is the exception that the algorithm is not implemented.\<close>

definition select_evse ::
  "auth_env \<Rightarrow> auth_handler \<Rightarrow> int list \<Rightarrow> IdToken \<Rightarrow> SelectEvseResult option \<times> auth_handler" where
  "select_evse env s selected_evses id_token =
     (if length selected_evses = 1 then (Some (EvseSelected (selected_evses ! 0)), s)
      else case selection_algorithm s of
        PlugEvents \<Rightarrow> apfst Some (select_by_plug_in env s selected_evses id_token)
      | PlugEventsLIFO \<Rightarrow> apfst Some (select_by_plug_in env s selected_evses id_token)
      | FindFirst \<Rightarrow> (Some (select_first s selected_evses), s)
      | UserInput \<Rightarrow> (None, s))"

subsection \<open>Notifying an EVSE\<close>

text \<open>Waiting until the timeout task of the EVSE, if one is running, has finished.\<close>

definition wait_for_timeout_task :: "auth_env \<Rightarrow> int \<Rightarrow> auth_handler \<Rightarrow> auth_handler" where
  "wait_for_timeout_task env evse_id s =
     (if ec_timeout_in_progress (evse_of s evse_id) = None then s else during_timeout_task env s)"

definition remove_plug_in :: "int \<Rightarrow> auth_handler \<Rightarrow> auth_handler" where
  "remove_plug_in evse_id s = s\<lparr>plug_in_queue := filter (\<lambda>v. v \<noteq> evse_id) (plug_in_queue s)\<rparr>"

definition grant_authorization ::
  "auth_env \<Rightarrow> int \<Rightarrow> ProvidedIdToken \<Rightarrow> ValidationResult \<Rightarrow> auth_handler \<Rightarrow> auth_handler" where
  "grant_authorization env evse_id token result s =
     (let identifier = \<lparr>ident_id_token = pt_id_token token, ident_type = pt_authorization_type token,
            ident_authorization_status = Some (vr_authorization_status result),
            ident_expiry_time = vr_expiry_time result,
            ident_parent_id_token = vr_parent_id_token result\<rparr>;
          s = update_evse evse_id (\<lambda>evse. evse\<lparr>ec_identifier := Some identifier\<rparr>) s;
          s = wait_for_timeout_task env evse_id s;
          s = update_evse evse_id (\<lambda>evse. evse\<lparr>ec_timeout_timer := Some (Auth_Timeout token)\<rparr>) s
      in remove_plug_in evse_id s)"

definition notify_evse ::
  "auth_env \<Rightarrow> int \<Rightarrow> ProvidedIdToken \<Rightarrow> ValidationResult \<Rightarrow> auth_handler \<Rightarrow> auth_handler" where
  "notify_evse env evse_id token result s =
     (let evse_index = ec_evse_index (evse_of s evse_id);
          s = (if vr_authorization_status result = AuthAccepted
               then grant_authorization env evse_id token result s else s)
      in emit (Notify_Evse evse_index token result) s)"

subsection \<open>Handling a token\<close>

definition stop_transaction ::
  "int \<Rightarrow> StopTransactionReason \<Rightarrow> ProvidedIdToken option \<Rightarrow> auth_handler \<Rightarrow> auth_handler" where
  "stop_transaction evse_id reason token s =
     emit (Stop_Transaction (ec_evse_index (evse_of s evse_id))
       \<lparr>stop_reason = reason, stop_id_tag = token\<rparr>) s"

type_synonym token_outcome = "TokenHandlingResult option \<times> ProvidedIdToken \<times> auth_handler"

text \<open>
  A token that is presented again. The request carries the token as it was provided; the parent
  token and the EVSE are added to the token afterwards.
\<close>

definition handle_reswipe ::
  "auth_handler \<Rightarrow> ProvidedIdToken \<Rightarrow> int \<Rightarrow> token_outcome" where
  "handle_reswipe s token evse_id =
     (let parent = Option.bind (ec_identifier (evse_of s evse_id)) ident_parent_id_token;
          token' = token\<lparr>pt_parent_id_token :=
              (if parent \<noteq> None then parent else pt_parent_id_token token),
            pt_connectors := Some [evse_id]\<rparr>
      in if \<not> stop_transaction_on_reswipe s then (Some USED_TO_REAUTHORIZE, token', s)
         else (Some USED_TO_STOP_TRANSACTION, token',
               stop_transaction evse_id LocalStop (Some token) s))"

fun all_evses_reserved_and_tag_does_not_match :: "auth_handler \<Rightarrow> string \<Rightarrow> int list \<Rightarrow> bool" where
  "all_evses_reserved_and_tag_does_not_match s token [] = True"
| "all_evses_reserved_and_tag_does_not_match s token (evse_id # evse_ids) =
     (if evse_id < 0 then all_evses_reserved_and_tag_does_not_match s token evse_ids
      else if \<not> is_evse_reserved s (to_u32 evse_id) \<and> is_charging_possible s (to_u32 evse_id)
      then False
      else if matches_reserved_identifier s token (Some (to_u32 evse_id)) None \<noteq> None then False
      else if has_reservation_parent_id s (Some (to_u32 evse_id)) then False
      else all_evses_reserved_and_tag_does_not_match s token evse_ids)"

text \<open>A token of the master pass group stops every active transaction among the referenced EVSEs.\<close>

definition stop_by_master_pass ::
  "auth_handler \<Rightarrow> ProvidedIdToken \<Rightarrow> IdToken \<Rightarrow> int list \<Rightarrow> token_outcome" where
  "stop_by_master_pass s token parent referenced_evses =
     (let active = filter (\<lambda>e. ec_transaction_active (evse_of s e)) referenced_evses
      in (Some USED_TO_STOP_TRANSACTION,
          token\<lparr>pt_parent_id_token := Some parent, pt_connectors := Some active\<rparr>,
          fold (\<lambda>e. stop_transaction e MasterPass (Some token)) active s))"

definition stop_by_parent ::
  "auth_handler \<Rightarrow> ProvidedIdToken \<Rightarrow> IdToken \<Rightarrow> int \<Rightarrow> token_outcome" where
  "stop_by_parent s token parent evse_id =
     (let token = token\<lparr>pt_connectors := Some [evse_id]\<rparr>
      in if \<not> ec_transaction_active (evse_of s evse_id) then (Some ALREADY_IN_PROCESS, token, s)
         else if \<not> stop_transaction_on_reswipe s
         then (Some USED_TO_REAUTHORIZE, token\<lparr>pt_parent_id_token := Some parent\<rparr>, s)
         else (Some USED_TO_STOP_TRANSACTION, token\<lparr>pt_parent_id_token := Some parent\<rparr>,
               stop_transaction evse_id LocalStop (Some token) s))"

fun stop_with_parent_id_token ::
  "auth_handler \<Rightarrow> ProvidedIdToken \<Rightarrow> int list \<Rightarrow> ValidationResult list \<Rightarrow> token_outcome option" where
  "stop_with_parent_id_token s token referenced_evses [] = None"
| "stop_with_parent_id_token s token referenced_evses (result # results) =
     (if vr_authorization_status result \<noteq> AuthAccepted
      then stop_with_parent_id_token s token referenced_evses results
      else case vr_parent_id_token result of
        None \<Rightarrow> stop_with_parent_id_token s token referenced_evses results
      | Some parent \<Rightarrow>
          if equals_master_pass_group_id s (Some parent)
          then Some (stop_by_master_pass s token parent referenced_evses)
          else let evse_id = used_for_transaction s referenced_evses (tok_value parent)
               in if evse_id \<noteq> - 1 then Some (stop_by_parent s token parent evse_id)
                  else stop_with_parent_id_token s token referenced_evses results)"

text \<open>
  The decision for the selected EVSE: whether the token is authorized, with the token, the
  validation result and the state as they are changed by the decision.
\<close>

definition decide_authorization ::
  "int \<Rightarrow> ProvidedIdToken \<Rightarrow> ValidationResult \<Rightarrow> auth_handler \<Rightarrow>
     bool \<times> ProvidedIdToken \<times> ValidationResult \<times> auth_handler" where
  "decide_authorization evse_id token result s =
     (let reservation_id = matches_reserved_identifier s (tok_value (pt_id_token token))
            (Some (to_u32 evse_id)) (map_option tok_value (vr_parent_id_token result));
          token' = token\<lparr>pt_connectors := Some [evse_id]\<rparr>
      in if (case vr_evse_ids result of Some ids \<Rightarrow> evse_id \<notin> set ids | None \<Rightarrow> False)
         then (False, token, result\<lparr>vr_authorization_status := NotAtThisLocation\<rparr>, s)
         else if reservation_id = None \<and> \<not> is_charging_possible s (to_u32 evse_id)
         then (False, token, result\<lparr>vr_authorization_status := NotAtThisTime\<rparr>, s)
         else if \<not> is_evse_reserved s (to_u32 evse_id) \<and> reservation_id = None
         then (True, token', result, s)
         else (case reservation_id of
                 Some i \<Rightarrow>
                   (True, token', result\<lparr>vr_reservation_id := Some i\<rparr>, on_reservation_used s i)
               | None \<Rightarrow> (False, token, result\<lparr>vr_authorization_status := NotAtThisTime\<rparr>, s)))"

text \<open>
  The loop over the validation results returns from \<open>handle_token\<close> (an exception is \<open>None\<close>), or ends
  with the flag \<open>authorized\<close>, the last validation result, the token and the state.
\<close>

datatype authorize_outcome =
    Loop_Return "TokenHandlingResult option" ProvidedIdToken auth_handler
  | Loop_Done bool ValidationResult ProvidedIdToken auth_handler

text \<open>One iteration, for a validation result that accepts the token.\<close>

definition attempt_authorization ::
  "auth_env \<Rightarrow> int list \<Rightarrow> ValidationResult \<Rightarrow> ProvidedIdToken \<Rightarrow> auth_handler \<Rightarrow> authorize_outcome" where
  "attempt_authorization env referenced_evses r token s =
     (if equals_master_pass_group_id s (vr_parent_id_token r)
      then Loop_Return (Some REJECTED) token s
      else
        let token = (if vr_parent_id_token r \<noteq> None
                     then token\<lparr>pt_parent_id_token := vr_parent_id_token r\<rparr> else token);
            s = publish_token_validation_status token TokAccepted (vr_tariff_messages r) s;
            (selected, s) = select_evse env s referenced_evses (pt_id_token token)
        in case selected of
             None \<Rightarrow> Loop_Return None token s
           | Some SelectTimeOut \<Rightarrow> Loop_Return (Some TIMEOUT) token s
           | Some Interrupted \<Rightarrow> Loop_Return (Some WITHDRAWN) token s
           | Some (EvseSelected evse_id) \<Rightarrow>
               (let (authorized, token, r, s) = decide_authorization evse_id token r s
                in Loop_Done authorized r token (notify_evse env evse_id token r s)))"

fun authorize_loop ::
  "auth_env \<Rightarrow> int list \<Rightarrow> ValidationResult list \<Rightarrow> ValidationResult \<Rightarrow> ProvidedIdToken \<Rightarrow> auth_handler \<Rightarrow>
     authorize_outcome" where
  "authorize_loop env referenced_evses [] result token s = Loop_Done False result token s"
| "authorize_loop env referenced_evses (r # rs) result token s =
     (if referenced_evses = [] then Loop_Done False result token s
      else if vr_authorization_status r \<noteq> AuthAccepted
      then authorize_loop env referenced_evses rs r token s
      else case attempt_authorization env referenced_evses r token s of
             Loop_Return outcome token s \<Rightarrow> Loop_Return outcome token s
           | Loop_Done authorized r token s \<Rightarrow>
               if authorized then Loop_Done True r token s
               else authorize_loop env referenced_evses rs r token s)"

definition unknown_result :: ValidationResult where
  "unknown_result = \<lparr>vr_authorization_status = UnknownStatus, vr_tariff_messages = [],
     vr_expiry_time = None, vr_parent_id_token = None, vr_evse_ids = None, vr_reservation_id = None\<rparr>"

definition notify_rejected ::
  "auth_env \<Rightarrow> ProvidedIdToken \<Rightarrow> ValidationResult \<Rightarrow> auth_handler \<Rightarrow> auth_handler" where
  "notify_rejected env token result s =
     (case pt_connectors token of
        None \<Rightarrow> s
      | Some connectors \<Rightarrow>
          fold (\<lambda>e s. if map_of (evses s) e \<noteq> None then notify_evse env e token result s else s)
            connectors s)"

definition authorize_token ::
  "auth_env \<Rightarrow> int list \<Rightarrow> ValidationResult list \<Rightarrow> ProvidedIdToken \<Rightarrow> auth_handler \<Rightarrow> token_outcome" where
  "authorize_token env referenced_evses results token s =
     (let referenced_evses = filter (\<lambda>e. ec_identifier (evse_of s e) = None) referenced_evses
      in if results = [] then (Some REJECTED, token, s)
         else (case authorize_loop env referenced_evses results unknown_result token s of
                 Loop_Return result token s \<Rightarrow> (result, token, s)
               | Loop_Done authorized result token s \<Rightarrow>
                   if authorized then (Some USED_TO_START_TRANSACTION, token, s)
                   else (Some REJECTED, token, notify_rejected env token result s)))"

definition validate_provided_token ::
  "auth_env \<Rightarrow> ProvidedIdToken \<Rightarrow> auth_handler \<Rightarrow> ValidationResult list \<times> auth_handler" where
  "validate_provided_token env token s =
     (if pt_prevalidated token = Some True
      then ([unknown_result\<lparr>vr_authorization_status := AuthAccepted,
               vr_parent_id_token := pt_parent_id_token token\<rparr>], s)
      else (validate_token env token, during_validation env s))"

definition handle_validated_token ::
  "auth_env \<Rightarrow> int list \<Rightarrow> ValidationResult list \<Rightarrow> ProvidedIdToken \<Rightarrow> auth_handler \<Rightarrow> token_outcome" where
  "handle_validated_token env referenced_evses results token s =
     (let attempt_stop = (if prioritize_authorization_over_stopping_transaction s
            then \<not> any_evse_available s referenced_evses else True)
      in case (if attempt_stop
               then stop_with_parent_id_token s token referenced_evses results else None) of
           Some outcome \<Rightarrow> outcome
         | None \<Rightarrow>
             if \<not> any_evse_available s referenced_evses
             then (Some NO_CONNECTOR_AVAILABLE, token, s)
             else authorize_token env referenced_evses results token s)"

definition handle_token :: "auth_env \<Rightarrow> ProvidedIdToken \<Rightarrow> auth_handler \<Rightarrow> token_outcome" where
  "handle_token env token s =
     (let referenced_evses = get_referenced_evses s token;
          reswiped = (if pt_authorization_type token \<in> {RFID, BankCard}
            then used_for_transaction s referenced_evses (tok_value (pt_id_token token)) else - 1)
      in if reswiped \<noteq> - 1 then handle_reswipe s token reswiped
         else if \<not> any_evse_available s referenced_evses \<and>
                 \<not> any_parent_id_present s referenced_evses \<and> master_pass_group_id s = None
         then (Some NO_CONNECTOR_AVAILABLE, token, s)
         else if all_evses_reserved_and_tag_does_not_match s (tok_value (pt_id_token token))
                   referenced_evses
         then (Some NO_CONNECTOR_AVAILABLE, token, s)
         else
           let (results, s) = validate_provided_token env token s
           in handle_validated_token env referenced_evses results token s)"

fun final_status :: "TokenHandlingResult \<Rightarrow> TokenValidationStatus option" where
  "final_status ALREADY_IN_PROCESS = None"
| "final_status TIMEOUT = Some TokTimedOut"
| "final_status NO_CONNECTOR_AVAILABLE = Some TokRejected"
| "final_status REJECTED = Some TokRejected"
| "final_status USED_TO_START_TRANSACTION = Some TokUsedToStart"
| "final_status USED_TO_STOP_TRANSACTION = Some TokUsedToStop"
| "final_status WITHDRAWN = Some TokWithdrawn"
| "final_status USED_TO_REAUTHORIZE = Some TokUsedToReauthorize"

definition publish_final_status ::
  "ProvidedIdToken \<Rightarrow> TokenHandlingResult \<Rightarrow> auth_handler \<Rightarrow> auth_handler" where
  "publish_final_status token result s =
     (case final_status result of
        None \<Rightarrow> s | Some status \<Rightarrow> publish_token_validation_status token status [] s)"

text \<open>\<open>None\<close> where the exception of the EVSE selection leaves the handler.\<close>

definition on_token ::
  "auth_env \<Rightarrow> ProvidedIdToken \<Rightarrow> auth_handler \<Rightarrow> TokenHandlingResult option \<times> auth_handler" where
  "on_token env token s =
     (if \<not> publish_callback_registered s then (Some REJECTED, s)
      else if is_token_already_in_process s token (get_referenced_evses s token)
      then (Some ALREADY_IN_PROCESS, publish_final_status token ALREADY_IN_PROCESS s)
      else
        let s = insert_in_process token s;
            s = publish_token_validation_status token TokProcessing [] s;
            (result, token', s) = handle_token env token s
        in case result of
             None \<Rightarrow> (None, s)
           | Some r \<Rightarrow> (Some r, erase_in_process token (publish_final_status token' r s)))"

subsection \<open>Update of a granted authorization\<close>

definition bare_token ::
  "IdToken \<Rightarrow> AuthorizationType \<Rightarrow> IdToken option \<Rightarrow> int \<Rightarrow> ProvidedIdToken" where
  "bare_token id_token authorization_type parent_id_token evse_id =
     \<lparr>pt_request_id = None, pt_id_token = id_token, pt_parent_id_token = parent_id_token,
      pt_authorization_type = authorization_type, pt_connectors = Some [evse_id],
      pt_prevalidated = None\<rparr>"

definition handle_token_validation_result_update ::
  "int \<Rightarrow> ValidationResult \<Rightarrow> auth_handler \<Rightarrow> auth_handler" where
  "handle_token_validation_result_update connector_id result s =
     (case Option.bind (map_of (evses s) connector_id) ec_identifier of
        None \<Rightarrow> s
      | Some identifier \<Rightarrow>
          publish_token_validation_status
            (bare_token (ident_id_token identifier) (ident_type identifier)
               (vr_parent_id_token result) connector_id)
            TokAccepted (vr_tariff_messages result)
            (update_evse connector_id (\<lambda>evse. evse\<lparr>ec_identifier := Some
                (identifier\<lparr>ident_authorization_status := Some (vr_authorization_status result),
                   ident_parent_id_token := vr_parent_id_token result\<rparr>)\<rparr>) s))"

subsection \<open>Reservations\<close>

text \<open>
  Without the mutex: the reservation is looked up, the EVSE manager is called, and the updates are sent.
\<close>

definition call_reserved ::
  "auth_env \<Rightarrow> int \<Rightarrow> int option \<Rightarrow> auth_handler \<Rightarrow> bool \<times> auth_handler" where
  "call_reserved env reservation_id evse_id s =
     (let reservation = (case evse_id of
            Some e \<Rightarrow> if e \<ge> 0 then get_evse_reservation s (to_u32 e) reservation_id else None
          | None \<Rightarrow> None);
          s = between_sections env 0 s;
          s = emit (Reserved_Call evse_id reservation_id reservation) s;
          reserved = manager_accepts s (calls s);
          s = during_reserve_call env s
      in (reserved, if reserved then check_evse_reserved_and_send_updates s else s))"

text \<open>The call of \<open>call_reservation_cancelled\<close> by a thread that does not hold the mutex.\<close>

definition call_reservation_cancelled_unlocked ::
  "auth_env \<Rightarrow> int \<Rightarrow> ReservationEndReason \<Rightarrow> int option \<Rightarrow> bool \<Rightarrow> auth_handler \<Rightarrow> auth_handler" where
  "call_reservation_cancelled_unlocked env reservation_id reason evse_id send_reservation_update s =
     (let s = between_sections env 1 s;
          s = emit (Reservation_Cancelled_Call evse_id reservation_id reason send_reservation_update) s
      in check_evse_reserved_and_send_updates (between_sections env 2 s))"

definition handle_reservation ::
  "int \<Rightarrow> Reservation \<Rightarrow> auth_handler \<Rightarrow> ReservationResult \<times> auth_handler" where
  "handle_reservation now reservation s =
     make_reservation s now
       (case res_evse_id reservation of
          Some e \<Rightarrow> if e \<ge> 0 then Some (to_u32 e) else None | None \<Rightarrow> None)
       reservation"

definition handle_cancel_reservation ::
  "int \<Rightarrow> auth_handler \<Rightarrow> (bool \<times> int option) \<times> auth_handler" where
  "handle_cancel_reservation reservation_id s =
     (let ((cancelled, evse_id), s) = cancel_reservation s reservation_id False Cancelled
      in ((cancelled, if cancelled then map_option to_s32 evse_id else None), s))"

definition cancel_replaced_if_dropped ::
  "auth_env \<Rightarrow> int \<Rightarrow> int option \<times> auth_handler \<Rightarrow> int option \<times> auth_handler" where
  "cancel_replaced_if_dropped env reservation_id = (\<lambda>(replaced_evse_id, s).
     case replaced_evse_id of
       None \<Rightarrow> (None, s)
     | Some e \<Rightarrow>
         if \<not> is_evse_reserved_by s (to_u32 e) reservation_id
         then (None, call_reservation_cancelled_unlocked env reservation_id Cancelled (Some e) False s)
         else (Some e, s))"

definition place_reservation ::
  "auth_env \<Rightarrow> int \<Rightarrow> Reservation \<Rightarrow> auth_handler \<Rightarrow> ReservationResult \<times> auth_handler" where
  "place_reservation env now reservation s =
     (let reservation_id = res_reservation_id reservation;
          replaced = map_option to_s32 (get_evse_id_of_reservation s reservation_id);
          (result, s) = handle_reservation now reservation (between_sections env 3 s);
          (replaced, s) =
            cancel_replaced_if_dropped env reservation_id (replaced, between_sections env 4 s)
      in if result \<noteq> RAccepted then (result, s)
         else
           let s = between_sections env 5 s;
               (reserved, s) = call_reserved env reservation_id (res_evse_id reservation) s;
               s = between_sections env 6 s
           in if \<not> reserved
              then let s = snd (handle_cancel_reservation reservation_id s);
                       s = between_sections env 7 s;
                       s = snd (cancel_replaced_if_dropped env reservation_id (replaced, s))
                   in (RRejected, s)
              else (result,
                    case res_evse_id reservation of
                      Some e \<Rightarrow>
                        if e > 0 \<and> \<not> is_evse_reserved_by s (to_u32 e) reservation_id
                        then emit (Reservation_Cancelled_Call (Some e) reservation_id Cancelled False)
                               (between_sections env 8 s)
                        else s
                    | None \<Rightarrow> s))"

definition apply_restored_reservation ::
  "auth_env \<Rightarrow> int \<Rightarrow> int \<Rightarrow> auth_handler \<Rightarrow> auth_handler" where
  "apply_restored_reservation env evse_id reservation_id s =
     (let (reserved, s) = call_reserved env reservation_id (Some evse_id) (between_sections env 9 s);
          s = between_sections env 10 s
      in if \<not> reserved
         then let ((cancelled, _), s) = handle_cancel_reservation reservation_id s
              in if cancelled
                 then call_reservation_cancelled_unlocked env reservation_id Cancelled (Some evse_id)
                        True s
                 else s
         else if \<not> is_evse_reserved_by s (to_u32 evse_id) reservation_id
         then emit (Reservation_Cancelled_Call (Some evse_id) reservation_id Cancelled False)
                (between_sections env 11 s)
         else s)"

fun take_restored_for_enabled ::
  "(int \<times> EVSEContext) list \<Rightarrow> auth_handler \<Rightarrow> (int \<times> int) list \<times> auth_handler" where
  "take_restored_for_enabled [] s = ([], s)"
| "take_restored_for_enabled ((evse_id, evse) # es) s =
     (if \<not> ec_reported_enabled evse then take_restored_for_enabled es s
      else
        let (reservation_id, s) = take_restored_reservation s (to_u32 evse_id);
            (to_apply, s) = take_restored_for_enabled es s
        in (case reservation_id of Some i \<Rightarrow> (evse_id, i) # to_apply | None \<Rightarrow> to_apply, s))"

definition initialize ::
  "auth_env \<Rightarrow> (Reservation \<Rightarrow> Reservation option) \<Rightarrow> int \<Rightarrow> auth_handler \<Rightarrow> auth_handler" where
  "initialize env from_store now s =
     (let s = check_evse_reserved_and_send_updates (load_reservations from_store s now);
          (to_apply, s) = take_restored_for_enabled (evses s) s
      in fold (\<lambda>(evse_id, reservation_id). apply_restored_reservation env evse_id reservation_id)
           to_apply s)"

definition handle_reservation_exists ::
  "auth_handler \<Rightarrow> string \<Rightarrow> int option \<Rightarrow> string option \<Rightarrow> ReservationCheckStatus" where
  "handle_reservation_exists s id_token evse_id group_id_token =
     (let reservation_id =
            matches_reserved_identifier s id_token (map_option to_u32 evse_id) group_id_token
      in case evse_id of
           None \<Rightarrow> if reservation_id \<noteq> None then ReservedForToken else NotReserved
         | Some e \<Rightarrow>
             if \<not> is_evse_reserved s (to_u32 e) then NotReserved
             else if reservation_id \<noteq> None then ReservedForToken
             else if group_id_token = None then
               (if has_reservation_parent_id s (Some (to_u32 e))
                then ReservedForOtherTokenAndHasParentToken else ReservedForOtherToken)
             else ReservedForOtherToken)"

subsection \<open>Events of the EVSEs\<close>

datatype StartSessionReason = EVConnected | Authorized_Start

datatype SessionEventEnum =
    SessionStarted StartSessionReason | TransactionStarted | TransactionFinished | SessionFinished
  | Disabled | Enabled | Deauthorized | ReservationStart | ReservationEnd | Authorized | AuthRequired
  | PrepareCharging | ChargingStarted | ChargingPausedEV | ChargingPausedEVSE | StoppingCharging
  | ChargingFinished | PluginTimeout | SwitchingPhases | SessionResumed

fun submit_to_first :: "int \<Rightarrow> ConnectorEvent \<Rightarrow> Connector list \<Rightarrow> Connector list" where
  "submit_to_first connector_id e [] = []"
| "submit_to_first connector_id e (c # cs) =
     (if conn_id c = connector_id then submit_event e c # cs
      else c # submit_to_first connector_id e cs)"

definition submit_event_for_connector ::
  "int \<Rightarrow> int \<Rightarrow> ConnectorEvent \<Rightarrow> auth_handler \<Rightarrow> auth_handler" where
  "submit_event_for_connector evse_id connector_id e s =
     (case find (\<lambda>c. conn_id c = connector_id) (ec_connectors (evse_of s evse_id)) of
        None \<Rightarrow> s
      | Some c \<Rightarrow>
          on_connector_state_changed
            (update_evse evse_id (\<lambda>evse. evse\<lparr>ec_connectors :=
               submit_to_first connector_id e (ec_connectors evse)\<rparr>) s)
            (conn_state (submit_event e c)) (to_u32 evse_id) (to_u32 connector_id))"

text \<open>\<open>None\<close> is the exception of the map lookup for an unknown EVSE.\<close>

definition handle_permanent_fault_raised :: "int \<Rightarrow> int \<Rightarrow> auth_handler \<Rightarrow> auth_handler option" where
  "handle_permanent_fault_raised evse_id connector_id s =
     (if ignore_faults s then Some s
      else if map_of (evses s) evse_id = None then None
      else Some (submit_event_for_connector evse_id connector_id FAULTED_EVENT s))"

definition handle_permanent_fault_cleared :: "int \<Rightarrow> int \<Rightarrow> auth_handler \<Rightarrow> auth_handler option" where
  "handle_permanent_fault_cleared evse_id connector_id s =
     (if ignore_faults s then Some s
      else if map_of (evses s) evse_id = None then None
      else Some (submit_event_for_connector evse_id connector_id ERROR_CLEARED s))"

definition stop_timeout_timer :: "auth_env \<Rightarrow> int \<Rightarrow> auth_handler \<Rightarrow> auth_handler" where
  "stop_timeout_timer env evse_id s =
     update_evse evse_id (\<lambda>evse. evse\<lparr>ec_timeout_timer := None\<rparr>)
       (wait_for_timeout_task env evse_id s)"

definition on_plug_in :: "int \<Rightarrow> auth_handler \<Rightarrow> auth_handler" where
  "on_plug_in evse_id s =
     (let s = s\<lparr>plug_in_queue := plug_in_queue s @ [evse_id]\<rparr>;
          s = update_evse evse_id (\<lambda>evse. evse\<lparr>ec_plugged_in := True\<rparr>) s
      in if length (evses s) = 1 \<or> \<not> plug_in_timeout_enabled s then s
         else update_evse evse_id (\<lambda>evse. evse\<lparr>ec_timeout_timer := Some Plug_In_Timeout\<rparr>) s)"

definition on_transaction_started :: "auth_env \<Rightarrow> int \<Rightarrow> int \<Rightarrow> auth_handler \<Rightarrow> auth_handler" where
  "on_transaction_started env evse_id connector_id s =
     (let s = update_evse evse_id
            (\<lambda>evse. evse\<lparr>ec_plugged_in := True, ec_transaction_active := True\<rparr>) s;
          s = submit_event_for_connector evse_id connector_id TRANSACTION_STARTED s
      in stop_timeout_timer env evse_id s)"

definition on_session_finished :: "auth_env \<Rightarrow> int \<Rightarrow> int \<Rightarrow> auth_handler \<Rightarrow> auth_handler" where
  "on_session_finished env evse_id connector_id s =
     (let s = update_evse evse_id (\<lambda>evse. evse\<lparr>ec_plugged_in := False, ec_plug_in_timeout := False,
            ec_identifier := None\<rparr>) s;
          s = submit_event_for_connector evse_id connector_id SESSION_FINISHED s;
          s = stop_timeout_timer env evse_id s
      in remove_plug_in evse_id s)"

text \<open>The switch over the events: the new state, and whether the reservations are to be checked.\<close>

fun handle_event_switch ::
  "auth_env \<Rightarrow> int \<Rightarrow> int \<Rightarrow> SessionEventEnum \<Rightarrow> auth_handler \<Rightarrow> auth_handler \<times> bool" where
  "handle_event_switch env evse_id connector_id (SessionStarted reason) s =
     (if reason = EVConnected then on_plug_in evse_id s else s, False)"
| "handle_event_switch env evse_id connector_id TransactionStarted s =
     (on_transaction_started env evse_id connector_id s, True)"
| "handle_event_switch env evse_id connector_id TransactionFinished s =
     (update_evse evse_id
        (\<lambda>evse. evse\<lparr>ec_transaction_active := False, ec_identifier := None\<rparr>) s, False)"
| "handle_event_switch env evse_id connector_id SessionFinished s =
     (on_session_finished env evse_id connector_id s, True)"
| "handle_event_switch env evse_id connector_id Disabled s =
     (update_evse evse_id (\<lambda>evse. evse\<lparr>ec_reported_enabled := False\<rparr>)
        (submit_event_for_connector evse_id connector_id DISABLE s), True)"
| "handle_event_switch env evse_id connector_id Enabled s =
     (update_evse evse_id (\<lambda>evse. evse\<lparr>ec_reported_enabled := True\<rparr>)
        (submit_event_for_connector evse_id connector_id ENABLE s), True)"
| "handle_event_switch env evse_id connector_id Deauthorized s =
     (stop_timeout_timer env evse_id
        (update_evse evse_id (\<lambda>evse. evse\<lparr>ec_identifier := None\<rparr>) s), False)"
| "handle_event_switch env evse_id connector_id ReservationEnd s =
     (if is_evse_reserved s (to_u32 evse_id)
      then snd (cancel_evse_reservation s (to_u32 evse_id) True) else s, False)"
| "handle_event_switch env evse_id connector_id _ s = (s, False)"

definition handle_session_event ::
  "auth_env \<Rightarrow> int \<Rightarrow> int option \<Rightarrow> SessionEventEnum \<Rightarrow> auth_handler \<Rightarrow> auth_handler" where
  "handle_session_event env evse_id connector_id event s =
     (let connector_id = (case connector_id of Some c \<Rightarrow> c | None \<Rightarrow> 1)
      in if evse_id \<le> 0 then s
         else if connector_id \<le> 0 then s
         else if map_of (evses s) evse_id = None then s
         else
           let (s, check_reservations) = handle_event_switch env evse_id connector_id event s;
               s = (if check_reservations then check_evse_reserved_and_send_updates s else s)
           in if event \<noteq> Enabled then s
              else let (restored, s) = take_restored_reservation s (to_u32 evse_id)
                   in case restored of
                        Some i \<Rightarrow> apply_restored_reservation env evse_id i s
                      | None \<Rightarrow> s)"

subsection \<open>Timeouts\<close>

text \<open>
  An armed timer fires: the task announces itself before it takes the mutex. The task itself runs
  under the mutex.
\<close>

definition timeout_fires :: "int \<Rightarrow> auth_handler \<Rightarrow> auth_handler" where
  "timeout_fires evse_id s =
     update_evse evse_id (\<lambda>evse. case ec_timeout_timer evse of
         Some task \<Rightarrow> evse\<lparr>ec_timeout_timer := None, ec_timeout_in_progress := Some task\<rparr>
       | None \<Rightarrow> evse) s"

definition authorization_timeout :: "int \<Rightarrow> ProvidedIdToken \<Rightarrow> auth_handler \<Rightarrow> auth_handler" where
  "authorization_timeout evse_id token s =
     (let s = update_evse evse_id (\<lambda>evse. evse\<lparr>ec_identifier := None\<rparr>) s;
          s = emit (Withdraw_Authorization (ec_evse_index (evse_of s evse_id))) s;
          s = publish_token_validation_status token TokTimedOut [] s
      in update_evse evse_id (\<lambda>evse. evse\<lparr>ec_timeout_in_progress := None\<rparr>) s)"

definition plug_in_timeout :: "int \<Rightarrow> auth_handler \<Rightarrow> auth_handler" where
  "plug_in_timeout evse_id s =
     (let s = emit (Withdraw_Authorization (ec_evse_index (evse_of s evse_id))) s;
          s = remove_plug_in evse_id s
      in update_evse evse_id
           (\<lambda>evse. evse\<lparr>ec_plug_in_timeout := True, ec_timeout_in_progress := None\<rparr>) s)"

definition timeout_task_runs :: "int \<Rightarrow> auth_handler \<Rightarrow> auth_handler" where
  "timeout_task_runs evse_id s =
     (case Option.bind (map_of (evses s) evse_id) ec_timeout_in_progress of
        Some (Auth_Timeout token) \<Rightarrow> authorization_timeout evse_id token s
      | Some Plug_In_Timeout \<Rightarrow> plug_in_timeout evse_id s
      | None \<Rightarrow> s)"

subsection \<open>Withdrawing an authorization\<close>

definition is_withdraw_request_targeting_token_in_process ::
  "auth_handler \<Rightarrow> WithdrawAuthorizationRequest \<Rightarrow> bool" where
  "is_withdraw_request_targeting_token_in_process s request =
     list_ex (\<lambda>t. does_withdraw_request_match request (get_referenced_evses s t) (pt_id_token t))
       (tokens_in_process s)"

definition withdraw_authorization_or_stop_transaction ::
  "EVSEContext \<Rightarrow> auth_handler \<Rightarrow> auth_handler" where
  "withdraw_authorization_or_stop_transaction evse s =
     (if ec_transaction_active evse
      then emit (Stop_Transaction (ec_evse_index evse)
             \<lparr>stop_reason = DeAuthorized, stop_id_tag = None\<rparr>) s
      else
        let s = emit (Withdraw_Authorization (ec_evse_index evse)) s
        in case ec_identifier evse of
             Some i \<Rightarrow> publish_token_validation_status
                 (bare_token (ident_id_token i) (ident_type i) (ident_parent_id_token i)
                    (ec_evse_id evse)) TokWithdrawn [] s
           | None \<Rightarrow> s)"

text \<open>Whether the request targets the authorization granted at an EVSE.\<close>

definition granted_to :: "IdToken option \<Rightarrow> EVSEContext \<Rightarrow> bool" where
  "granted_to id_token evse =
     (case ec_identifier evse of
        None \<Rightarrow> False
      | Some i \<Rightarrow> (case id_token of Some t \<Rightarrow> id_token_equal t (ident_id_token i) | None \<Rightarrow> True))"

definition withdraw_granted ::
  "WithdrawAuthorizationRequest \<Rightarrow> WithdrawAuthorizationResult \<Rightarrow> auth_handler \<Rightarrow>
     WithdrawAuthorizationResult \<times> auth_handler" where
  "withdraw_granted request result s =
     (let targets = (case wr_evse_id request of
            Some e \<Rightarrow> filter (granted_to (wr_id_token request)) [evse_of s e]
          | None \<Rightarrow> filter (granted_to (wr_id_token request)) (map snd (evses s)))
      in (if targets = [] then result else WAccepted,
          fold withdraw_authorization_or_stop_transaction targets s))"

text \<open>
  The wait for the tokens in process ends when none of them is targeted any more; \<open>None\<close> where it
  does not end.
\<close>

definition handle_withdraw_authorization ::
  "auth_env \<Rightarrow> WithdrawAuthorizationRequest \<Rightarrow> auth_handler \<Rightarrow>
     (WithdrawAuthorizationResult \<times> auth_handler) option" where
  "handle_withdraw_authorization env request s =
     (if (case wr_evse_id request of Some e \<Rightarrow> map_of (evses s) e = None | None \<Rightarrow> False)
      then Some (WEvseNotFound, s)
      else
        let s = s\<lparr>withdraw_request := Some request\<rparr>
        in if is_withdraw_request_targeting_token_in_process s request
           then let s = during_withdraw_wait env s
                in if is_withdraw_request_targeting_token_in_process s request then None
                   else Some (withdraw_granted request WAccepted (s\<lparr>withdraw_request := None\<rparr>))
           else Some (withdraw_granted request WAuthorizationNotFound
                  (s\<lparr>withdraw_request := None\<rparr>)))"

subsection \<open>Configuration\<close>

definition get_evse_id_by_index :: "auth_handler \<Rightarrow> int \<Rightarrow> int option" where
  "get_evse_id_by_index s evse_index =
     map_option fst (find (\<lambda>(_, evse). ec_evse_index evse = evse_index) (evses s))"

definition set_connection_timeout :: "int \<Rightarrow> auth_handler \<Rightarrow> auth_handler" where
  "set_connection_timeout timeout s = s\<lparr>connection_timeout := timeout\<rparr>"

definition set_plug_in_timeout_enabled :: "bool \<Rightarrow> auth_handler \<Rightarrow> auth_handler" where
  "set_plug_in_timeout_enabled enabled s = s\<lparr>plug_in_timeout_enabled := enabled\<rparr>"

definition set_master_pass_group_id :: "string \<Rightarrow> auth_handler \<Rightarrow> auth_handler" where
  "set_master_pass_group_id group_id s =
     s\<lparr>master_pass_group_id := (if group_id = [] then None else Some group_id)\<rparr>"

definition set_prioritize_authorization_over_stopping_transaction ::
  "bool \<Rightarrow> auth_handler \<Rightarrow> auth_handler" where
  "set_prioritize_authorization_over_stopping_transaction b s =
     s\<lparr>prioritize_authorization_over_stopping_transaction := b\<rparr>"

definition register_publish_token_validation_status_callback :: "auth_handler \<Rightarrow> auth_handler" where
  "register_publish_token_validation_status_callback s = s\<lparr>publish_callback_registered := True\<rparr>"

definition set_stop_transaction_on_reswipe :: "bool \<Rightarrow> auth_handler \<Rightarrow> auth_handler" where
  "set_stop_transaction_on_reswipe b s = s\<lparr>stop_transaction_on_reswipe := b\<rparr>"

end
