(* ===== verification/Auth_Invariant.thy ===== *)
theory Auth_Invariant
  imports Auth_Handler Reservation_Recovery
begin

text \<open>
  The authorization handler keeps the invariant of the reservation handler, whatever the other
  threads do while it waits: rely-guarantee reasoning with the locale \<open>other_threads\<close> as the rely
  condition. The locale is interpreted on threads that run any sequence of the handler's own atomic
  sections.
\<close>

subsection \<open>Sections that do not wait\<close>

lemma update_evse_keys [simp]: "map fst (evses (update_evse e f s)) = map fst (evses s)"
  by (simp add: update_evse_def comp_def case_prod_beta)

lemma update_evse_fields [simp]:
  "evse_reservations (update_evse e f s) = evse_reservations s"
  "global_reservations (update_evse e f s) = global_reservations s"
  "reservation_timers (update_evse e f s) = reservation_timers s"
  "calls (update_evse e f s) = calls s"
  "tokens_in_process (update_evse e f s) = tokens_in_process s"
  "master_pass_group_id (update_evse e f s) = master_pass_group_id s"
  "kvs (update_evse e f s) = kvs s"
  by (simp_all add: update_evse_def)

lemma handler_wf_keys:
  assumes "map fst (evses t) = map fst (evses s)" "evse_reservations t = evse_reservations s"
    "global_reservations t = global_reservations s" "reservation_timers t = reservation_timers s"
  shows "handler_wf t = handler_wf s"
proof -
  have "fst ` set (evses t) = fst ` set (evses s)" by (metis assms(1) list.set_map)
  moreover have "omap_wf (evses t) = omap_wf (evses s)" using assms(1) by (simp add: omap_wf_def)
  ultimately show ?thesis
    using assms(2-4) by (simp add: handler_wf_def evses_wf_def reservations_wf_def all_reservations_def)
qed

lemma wf_update_evse [simp]: "handler_wf (update_evse e f s) = handler_wf s"
  by (rule handler_wf_keys) simp_all

lemma wf_emit [simp]: "handler_wf (emit c s) = handler_wf s"
  by (rule handler_wf_keys) simp_all

lemma wf_publish [simp]: "handler_wf (publish_token_validation_status t st m s) = handler_wf s"
  by (simp add: publish_token_validation_status_def)

lemma wf_remove_plug_in [simp]: "handler_wf (remove_plug_in e s) = handler_wf s"
  by (rule handler_wf_keys) (simp_all add: remove_plug_in_def)

lemma wf_stop_transaction [simp]: "handler_wf (stop_transaction e reason t s) = handler_wf s"
  by (simp add: stop_transaction_def)

lemma wf_own_fields [simp]:
  "handler_wf (s\<lparr>plug_in_queue := q\<rparr>) = handler_wf s"
  "handler_wf (s\<lparr>tokens_in_process := t\<rparr>) = handler_wf s"
  "handler_wf (s\<lparr>withdraw_request := w\<rparr>) = handler_wf s"
  "handler_wf (s\<lparr>publish_callback_registered := b\<rparr>) = handler_wf s"
  by (rule handler_wf_keys; simp)+

lemma wf_in_process [simp]:
  "handler_wf (insert_in_process t s) = handler_wf s"
  "handler_wf (erase_in_process t s) = handler_wf s"
  by (simp_all add: insert_in_process_def erase_in_process_def)

lemma wf_send_updates [simp]: "handler_wf (check_evse_reserved_and_send_updates s) = handler_wf s"
  by (rule send_updates_handler_wf)

lemma wf_call_cancelled [simp]: "handler_wf (call_reservation_cancelled s i reason e upd) = handler_wf s"
  by (simp add: call_reservation_cancelled_def)

lemma wf_fold: "(\<And>x s. handler_wf s \<Longrightarrow> handler_wf (f x s)) \<Longrightarrow> handler_wf s \<Longrightarrow> handler_wf (fold f xs s)"
  by (induction xs arbitrary: s) auto

lemma wf_submit_event:
  "handler_wf s \<Longrightarrow> handler_wf (submit_event_for_connector e c ev s)"
  by (simp add: submit_event_for_connector_def connector_changed_handler_wf split: option.splits)

lemma wf_decide:
  "handler_wf s \<Longrightarrow> handler_wf (snd (snd (snd (decide_authorization e t r s))))"
  by (simp add: decide_authorization_def Let_def on_reservation_used_def cancelled_handler_wf
      split: option.splits)

lemma wf_handle_reservation: "handler_wf s \<Longrightarrow> handler_wf (snd (handle_reservation now r s))"
proof -
  have "(case res_evse_id r of Some e \<Rightarrow> if e \<ge> 0 then Some (to_u32 e) else None | None \<Rightarrow> None) =
      map_option to_u32 (case res_evse_id r of Some e \<Rightarrow> if e \<ge> 0 then Some e else None | None \<Rightarrow> None)"
    by (simp split: option.splits)
  then show "handler_wf s \<Longrightarrow> ?thesis"
    by (simp add: handle_reservation_def make_reservation_handler_wf)
qed

lemma wf_handle_cancel: "handler_wf s \<Longrightarrow> handler_wf (snd (handle_cancel_reservation i s))"
  by (simp add: handle_cancel_reservation_def case_prod_beta cancelled_handler_wf)

lemma wf_take_restored_for_enabled:
  "handler_wf s \<Longrightarrow> handler_wf (snd (take_restored_for_enabled es s))"
proof (induction es arbitrary: s)
  case (Cons x es)
  obtain e evse where "x = (e, evse)" by (cases x)
  with Cons take_restored_handler_wf [OF Cons.prems, of "to_u32 e"] show ?case
    by (simp add: case_prod_beta Let_def)
qed simp

lemma wf_timeouts:
  "handler_wf (timeout_fires e s) = handler_wf s"
  "handler_wf (timeout_task_runs e s) = handler_wf s"
  by (simp_all add: timeout_fires_def timeout_task_runs_def authorization_timeout_def
      plug_in_timeout_def Let_def split: option.splits timeout_task.splits)

lemma wf_withdraw_granted: "handler_wf s \<Longrightarrow> handler_wf (snd (withdraw_granted r res s))"
  unfolding withdraw_granted_def Let_def snd_conv
  by (rule wf_fold) (simp_all add: withdraw_authorization_or_stop_transaction_def Let_def
      split: option.splits)

lemma wf_stop_with_parent:
  assumes "handler_wf s" "stop_with_parent_id_token s t refs rs = Some (res, t', s')"
  shows "handler_wf s'"
  using assms(2)
proof (induction rs)
  case (Cons r rs)
  have "handler_wf (fold (\<lambda>e. stop_transaction e MasterPass (Some t)) es s)" for es
    using assms(1) by (rule wf_fold [rotated]) simp
  with Cons assms(1) show ?case
    by (auto simp: Let_def stop_by_master_pass_def stop_by_parent_def
        split: option.splits if_splits)
qed simp

primrec outcome_wf :: "authorize_outcome \<Rightarrow> bool" where
  "outcome_wf (Loop_Return result token s) = handler_wf s"
| "outcome_wf (Loop_Done ok result token s) = handler_wf s"

subsection \<open>Rely: the other threads keep the invariant\<close>

locale other_threads =
  fixes env :: auth_env
  assumes keep_validation: "handler_wf s \<Longrightarrow> handler_wf (during_validation env s)"
    and keep_plug_in_wait: "handler_wf s \<Longrightarrow> handler_wf (during_plug_in_wait env s)"
    and keep_timeout_task: "handler_wf s \<Longrightarrow> handler_wf (during_timeout_task env s)"
    and keep_withdraw_wait: "handler_wf s \<Longrightarrow> handler_wf (during_withdraw_wait env s)"
    and keep_reserve_call: "handler_wf s \<Longrightarrow> handler_wf (during_reserve_call env s)"
    and keep_between: "handler_wf s \<Longrightarrow> handler_wf (between_sections env n s)"
begin

lemma rely_timeout_wait: "handler_wf s \<Longrightarrow> handler_wf (wait_for_timeout_task env e s)"
  by (simp add: wait_for_timeout_task_def keep_timeout_task)

lemma rely_stop_timer: "handler_wf s \<Longrightarrow> handler_wf (stop_timeout_timer env e s)"
  by (simp add: stop_timeout_timer_def rely_timeout_wait)

lemma rely_notify: "handler_wf s \<Longrightarrow> handler_wf (notify_evse env e t r s)"
  by (simp add: notify_evse_def grant_authorization_def Let_def rely_timeout_wait)

lemma rely_select: "handler_wf s \<Longrightarrow> handler_wf (snd (select_evse env s refs t))"
  by (simp add: select_evse_def select_by_plug_in_def wait_for_plug_in_def Let_def keep_plug_in_wait
      split: SelectionAlgorithm.splits)

lemma rely_attempt:
  assumes "handler_wf s"
  shows "outcome_wf (attempt_authorization env refs r t s)"
proof -
  define t1 where "t1 = (if vr_parent_id_token r \<noteq> None
    then t\<lparr>pt_parent_id_token := vr_parent_id_token r\<rparr> else t)"
  define s1 where "s1 = publish_token_validation_status t1 TokAccepted (vr_tariff_messages r) s"
  obtain selected s2 where s2: "select_evse env s1 refs (pt_id_token t1) = (selected, s2)" by fastforce
  have "handler_wf s1" using assms by (simp add: s1_def)
  from rely_select [OF this, of refs "pt_id_token t1"] s2 have "handler_wf s2" by simp
  then have "handler_wf (notify_evse env e t' r' (snd (snd (snd (decide_authorization e t1 r s2)))))"
    for e t' r' by (intro rely_notify wf_decide)
  with assms \<open>handler_wf s2\<close> show ?thesis
    unfolding attempt_authorization_def t1_def [symmetric] s1_def [symmetric] Let_def s2 case_prod_beta
    by (simp split: option.split SelectEvseResult.split)
qed

lemma rely_authorize_loop: "handler_wf s \<Longrightarrow> outcome_wf (authorize_loop env refs rs r t s)"
proof (induction rs arbitrary: r t s)
  case (Cons r' rs)
  from rely_attempt [OF Cons.prems, of refs r' t] Cons show ?case
    by (auto split: authorize_outcome.splits)
qed simp

lemma rely_notify_rejected: "handler_wf s \<Longrightarrow> handler_wf (notify_rejected env t r s)"
  unfolding notify_rejected_def
  by (cases "pt_connectors t") (auto intro!: wf_fold rely_notify)

lemma rely_authorize_token: "handler_wf s \<Longrightarrow> handler_wf (snd (snd (authorize_token env refs rs t s)))"
  using rely_authorize_loop [of s "filter (\<lambda>e. ec_identifier (evse_of s e) = None) refs" rs
      unknown_result t]
  by (auto simp: authorize_token_def Let_def rely_notify_rejected split: authorize_outcome.splits)

lemma rely_handle_validated:
  assumes "handler_wf s"
  shows "handler_wf (snd (snd (handle_validated_token env refs rs t s)))"
proof (cases "if (if prioritize_authorization_over_stopping_transaction s
      then \<not> any_evse_available s refs else True) then stop_with_parent_id_token s t refs rs else None")
  case None
  then show ?thesis
    using rely_authorize_token [OF assms] assms by (simp add: handle_validated_token_def Let_def)
next
  case (Some outcome)
  then obtain res t' s' where "stop_with_parent_id_token s t refs rs = Some (res, t', s')"
      "outcome = (res, t', s')" by (cases outcome) (auto split: if_splits)
  with Some wf_stop_with_parent [OF assms] show ?thesis
    by (simp add: handle_validated_token_def Let_def)
qed

lemma rely_handle_token:
  assumes wf: "handler_wf s"
  shows "handler_wf (snd (snd (handle_token env t s)))"
proof -
  have "handler_wf (snd (validate_provided_token env t s))"
    using wf by (simp add: validate_provided_token_def keep_validation)
  note v = rely_handle_validated [OF this]
  have "handler_wf (snd (snd (handle_reswipe s t e)))" for e
    using wf by (simp add: handle_reswipe_def Let_def)
  with wf v show ?thesis by (simp add: handle_token_def Let_def case_prod_beta)
qed

lemma rely_on_token: "handler_wf s \<Longrightarrow> handler_wf (snd (on_token env t s))"
  using rely_handle_token [of "publish_token_validation_status t TokProcessing [] (insert_in_process t s)" t]
  by (auto simp: on_token_def Let_def case_prod_beta publish_final_status_def split: option.splits)

lemma rely_call_reserved: "handler_wf s \<Longrightarrow> handler_wf (snd (call_reserved env i e s))"
  by (simp add: call_reserved_def Let_def keep_reserve_call keep_between)

lemma rely_call_cancelled:
  "handler_wf s \<Longrightarrow> handler_wf (call_reservation_cancelled_unlocked env i reason e upd s)"
  by (simp add: call_reservation_cancelled_unlocked_def Let_def keep_between)

lemma rely_cancel_replaced:
  "handler_wf s \<Longrightarrow> handler_wf (snd (cancel_replaced_if_dropped env i (e, s)))"
  by (simp add: cancel_replaced_if_dropped_def rely_call_cancelled split: option.splits)

lemma rely_place_reservation: "handler_wf s \<Longrightarrow> handler_wf (snd (place_reservation env now r s))"
  by (simp add: place_reservation_def Let_def case_prod_beta wf_handle_reservation
      rely_cancel_replaced wf_handle_cancel rely_call_reserved keep_between split: option.splits)

lemma rely_apply_restored: "handler_wf s \<Longrightarrow> handler_wf (apply_restored_reservation env e i s)"
  by (simp add: apply_restored_reservation_def Let_def case_prod_beta rely_call_reserved
      wf_handle_cancel rely_call_cancelled keep_between)

lemma rely_initialize: "handler_wf s \<Longrightarrow> handler_wf (initialize env from_store now s)"
  unfolding initialize_def Let_def case_prod_beta
  by (intro wf_fold wf_take_restored_for_enabled)
    (auto simp: rely_apply_restored load_handler_wf)

lemma rely_event_switch: "handler_wf s \<Longrightarrow> handler_wf (fst (handle_event_switch env e c ev s))"
  by (cases ev)
    (simp_all add: on_plug_in_def on_transaction_started_def on_session_finished_def Let_def
      rely_stop_timer wf_submit_event cancel_evse_reservation_def case_prod_beta cancelled_handler_wf
      split: option.splits)

lemma rely_session_event: "handler_wf s \<Longrightarrow> handler_wf (handle_session_event env e c ev s)"
  using rely_event_switch
  by (simp add: handle_session_event_def Let_def case_prod_beta take_restored_handler_wf
      rely_apply_restored wf_submit_event split: option.splits)

lemma rely_withdraw:
  assumes "handler_wf s" "handle_withdraw_authorization env r s = Some res"
  shows "handler_wf (snd res)"
proof -
  let ?s = "s\<lparr>withdraw_request := Some r\<rparr>"
  have "handler_wf (during_withdraw_wait env ?s)" using assms(1) by (simp add: keep_withdraw_wait)
  with assms wf_withdraw_granted show ?thesis
    by (auto simp: handle_withdraw_authorization_def Let_def split: if_splits)
qed

end

subsection \<open>The machine, and threads that run its sections\<close>

datatype auth_input =
    On_Token ProvidedIdToken
  | Validation_Result_Update int ValidationResult
  | Session_Event int "int option" SessionEventEnum
  | Permanent_Fault_Raised int int
  | Permanent_Fault_Cleared int int
  | Reserve_Now int Reservation
  | Cancel_Reservation_Command int
  | Withdraw_Authorization_Command WithdrawAuthorizationRequest
  | Timeout_Fires int
  | Timeout_Task_Runs int
  | Reservation_Expires int
  | Initialize "Reservation \<Rightarrow> Reservation option" int
  | Set_Plug_In_Timeout_Enabled bool
  | Set_Master_Pass_Group_Id string
  | Set_Prioritize_Authorization bool
  | Set_Stop_Transaction_On_Reswipe bool
  | Set_Connection_Timeout int
  | Register_Publish_Callback

text \<open>\<^verbatim>\<open>reservationImpl::handle_cancel_reservation\<close>\<close>

definition cancel_reservation_command :: "auth_env \<Rightarrow> int \<Rightarrow> auth_handler \<Rightarrow> bool \<times> auth_handler" where
  "cancel_reservation_command env reservation_id s =
     (let ((cancelled, evse_id), s) = handle_cancel_reservation reservation_id s
      in if cancelled
         then (True, call_reservation_cancelled_unlocked env reservation_id Cancelled evse_id False s)
         else (False, s))"

definition keep_on_exception :: "auth_handler \<Rightarrow> auth_handler option \<Rightarrow> auth_handler" where
  "keep_on_exception s r = (case r of Some t \<Rightarrow> t | None \<Rightarrow> s)"

definition auth_step :: "auth_env \<Rightarrow> auth_handler \<Rightarrow> auth_input \<Rightarrow> auth_handler" where
  "auth_step env s i = (case i of
       On_Token t \<Rightarrow> snd (on_token env t s)
     | Validation_Result_Update e r \<Rightarrow> handle_token_validation_result_update e r s
     | Session_Event e c ev \<Rightarrow> handle_session_event env e c ev s
     | Permanent_Fault_Raised e c \<Rightarrow> keep_on_exception s (handle_permanent_fault_raised e c s)
     | Permanent_Fault_Cleared e c \<Rightarrow> keep_on_exception s (handle_permanent_fault_cleared e c s)
     | Reserve_Now now r \<Rightarrow> snd (place_reservation env now r s)
     | Cancel_Reservation_Command n \<Rightarrow> snd (cancel_reservation_command env n s)
     | Withdraw_Authorization_Command r \<Rightarrow>
         keep_on_exception s (map_option snd (handle_withdraw_authorization env r s))
     | Timeout_Fires e \<Rightarrow> timeout_fires e s
     | Timeout_Task_Runs e \<Rightarrow> timeout_task_runs e s
     | Reservation_Expires n \<Rightarrow> reservation_expired s n
     | Initialize from_store now \<Rightarrow> initialize env from_store now s
     | Set_Plug_In_Timeout_Enabled b \<Rightarrow> set_plug_in_timeout_enabled b s
     | Set_Master_Pass_Group_Id g \<Rightarrow> set_master_pass_group_id g s
     | Set_Prioritize_Authorization b \<Rightarrow> set_prioritize_authorization_over_stopping_transaction b s
     | Set_Stop_Transaction_On_Reswipe b \<Rightarrow> set_stop_transaction_on_reswipe b s
     | Set_Connection_Timeout n \<Rightarrow> set_connection_timeout n s
     | Register_Publish_Callback \<Rightarrow> register_publish_token_validation_status_callback s)"

lemma wf_setters:
  "handler_wf (set_plug_in_timeout_enabled b s) = handler_wf s"
  "handler_wf (set_master_pass_group_id g s) = handler_wf s"
  "handler_wf (set_prioritize_authorization_over_stopping_transaction b s) = handler_wf s"
  "handler_wf (set_stop_transaction_on_reswipe b s) = handler_wf s"
  "handler_wf (set_connection_timeout n s) = handler_wf s"
  "handler_wf (register_publish_token_validation_status_callback s) = handler_wf s"
  by (rule handler_wf_keys; simp add: set_plug_in_timeout_enabled_def set_master_pass_group_id_def
      set_prioritize_authorization_over_stopping_transaction_def
      set_stop_transaction_on_reswipe_def set_connection_timeout_def
      register_publish_token_validation_status_callback_def)+

lemma wf_validation_update:
  "handler_wf (handle_token_validation_result_update e r s) = handler_wf s"
  by (simp add: handle_token_validation_result_update_def split: option.splits)

lemma wf_faults:
  "handler_wf s \<Longrightarrow> handler_wf (keep_on_exception s (handle_permanent_fault_raised e c s))"
  "handler_wf s \<Longrightarrow> handler_wf (keep_on_exception s (handle_permanent_fault_cleared e c s))"
  by (simp_all add: keep_on_exception_def handle_permanent_fault_raised_def
      handle_permanent_fault_cleared_def wf_submit_event)

context other_threads
begin

lemma rely_cancel_command: "handler_wf s \<Longrightarrow> handler_wf (snd (cancel_reservation_command env n s))"
  using wf_handle_cancel [of s n]
  by (simp add: cancel_reservation_command_def case_prod_beta Let_def rely_call_cancelled)

lemma rely_step: "handler_wf s \<Longrightarrow> handler_wf (auth_step env s i)"
proof (cases i)
  case (Withdraw_Authorization_Command r)
  assume "handler_wf s"
  with Withdraw_Authorization_Command rely_withdraw show ?thesis
    by (auto simp: auth_step_def keep_on_exception_def split: option.splits)
qed (simp_all add: auth_step_def rely_on_token rely_session_event rely_place_reservation
    rely_initialize wf_setters wf_validation_update wf_faults rely_cancel_command wf_timeouts
    reservation_expired_def cancelled_handler_wf)

end

text \<open>No other thread: the waits leave the state alone.\<close>

definition idle_env :: "(ProvidedIdToken \<Rightarrow> ValidationResult list) \<Rightarrow> auth_env" where
  "idle_env validate = \<lparr>validate_token = validate, during_validation = id, during_plug_in_wait = id,
     during_timeout_task = id, during_withdraw_wait = id, during_reserve_call = id,
     between_sections = (\<lambda>n. id)\<rparr>"

text \<open>Other threads that run the given sections during the five kinds of waits and between two
  sections.\<close>

definition busy_env ::
  "(ProvidedIdToken \<Rightarrow> ValidationResult list) \<Rightarrow> (nat \<Rightarrow> auth_input list) \<Rightarrow> auth_env" where
  "busy_env validate others = \<lparr>validate_token = validate,
     during_validation = (\<lambda>s. run (auth_step (idle_env validate)) s (others 0)),
     during_plug_in_wait = (\<lambda>s. run (auth_step (idle_env validate)) s (others 1)),
     during_timeout_task = (\<lambda>s. run (auth_step (idle_env validate)) s (others 2)),
     during_withdraw_wait = (\<lambda>s. run (auth_step (idle_env validate)) s (others 3)),
     during_reserve_call = (\<lambda>s. run (auth_step (idle_env validate)) s (others 4)),
     between_sections = (\<lambda>n s. run (auth_step (idle_env validate)) s (others (n + 5)))\<rparr>"

interpretation idle_threads: other_threads "idle_env validate" for validate
  by unfold_locales (simp_all add: idle_env_def)

lemma idle_run_wf: "handler_wf s \<Longrightarrow> handler_wf (run (auth_step (idle_env validate)) s is)"
  by (induction "is" arbitrary: s) (auto intro: idle_threads.rely_step)

interpretation busy_threads: other_threads "busy_env validate others" for validate others
  by unfold_locales (simp_all add: busy_env_def idle_run_wf)

record auth_config =
  cfg_selection_algorithm :: SelectionAlgorithm
  cfg_connection_timeout :: int
  cfg_plug_in_timeout_enabled :: bool
  cfg_prioritize_authorization :: bool
  cfg_ignore_faults :: bool
  cfg_stop_transaction_on_reswipe :: bool

definition auth_init ::
  "auth_config \<Rightarrow> (int \<times> int \<times> Connector list) list \<Rightarrow> stored_value option \<Rightarrow>
     (auth_call list \<Rightarrow> bool) \<Rightarrow> auth_handler" where
  "auth_init c es store accepts = reservation_handler.extend (reservation_init es store accepts)
     (auth_handler.fields (cfg_selection_algorithm c) (cfg_connection_timeout c)
        (cfg_plug_in_timeout_enabled c) None (cfg_prioritize_authorization c) (cfg_ignore_faults c)
        (cfg_stop_transaction_on_reswipe c) [] [] None False)"

lemma auth_init_wf: "handler_wf (auth_init c es store accepts)"
proof -
  have "handler_wf (auth_init c es store accepts) = handler_wf (reservation_init es store accepts)"
    by (rule handler_wf_keys) (simp_all add: auth_init_def reservation_handler.defs auth_handler.defs)
  then show ?thesis by (simp add: reservation_init_wf)
qed

interpretation auth: machine_invariant "auth_step (busy_env validate others)"
  "auth_init c es store accepts" handler_wf for validate others c es store accepts
  by unfold_locales (rule auth_init_wf, rule busy_threads.rely_step)

text \<open>
  C8. The authorization handler keeps the reservations consistent, also when other threads run any
  sections of it while it waits with its mutex released: after every sequence of tokens, session
  events, faults, reservation commands, withdrawals, timeouts and expiries, reservation ids are
  unique, exactly the existing reservations have an expiry timer, and each EVSE reservation names an
  EVSE of the station.
\<close>

theorem auth_handler_keeps_reservations_consistent:
  assumes "reach (auth_step (busy_env validate others)) (auth_init c es store accepts) s"
  shows "distinct (map res_reservation_id (all_reservations s)) \<and>
    dom (map_of (reservation_timers s)) = res_reservation_id ` set (all_reservations s) \<and>
    dom (map_of (evse_reservations s)) \<subseteq> dom (map_of (evses s))"
  using auth.inv_reach [OF assms]
  by (simp add: handler_wf_def reservations_wf_def dom_map_of_conv_image_fst)

definition example_config :: auth_config where
  "example_config = \<lparr>cfg_selection_algorithm = FindFirst, cfg_connection_timeout = 30,
     cfg_plug_in_timeout_enabled = True, cfg_prioritize_authorization = True,
     cfg_ignore_faults = False, cfg_stop_transaction_on_reswipe = True\<rparr>"

definition example_station :: auth_handler where
  "example_station = register_publish_token_validation_status_callback (auth_init example_config
     [(1, 0, [new_connector 1 cType2]), (2, 1, [new_connector 1 cCCS2])] None (\<lambda>_. True))"

definition accepting_validator :: "ProvidedIdToken \<Rightarrow> ValidationResult list" where
  "accepting_validator t = [unknown_result\<lparr>vr_authorization_status := AuthAccepted\<rparr>]"

theorem auth_handler_keeps_reservations_consistent_witness:
  "dom (map_of (reservation_timers (auth_step (busy_env accepting_validator (\<lambda>_. []))
     example_station (Reserve_Now 5 (example_reservation 7 (Some cType2)))))) = {7}"
proof -
  let ?step = "auth_step (busy_env accepting_validator (\<lambda>_. []))"
  let ?init = "auth_init example_config
     [(1, 0, [new_connector 1 cType2]), (2, 1, [new_connector 1 cCCS2])] None (\<lambda>_. True)"
  let ?s = "?step example_station (Reserve_Now 5 (example_reservation 7 (Some cType2)))"
  have "reach ?step ?init (?step ?init Register_Publish_Callback)" by (intro reach.intros)
  then have "reach ?step ?init example_station" by (simp add: auth_step_def example_station_def)
  then have "reach ?step ?init ?s" by (intro reach.intros)
  from auth_handler_keeps_reservations_consistent [OF this]
  have "dom (map_of (reservation_timers ?s)) = res_reservation_id ` set (all_reservations ?s)" by blast
  also have "\<dots> = {7}" by code_simp
  finally show ?thesis .
qed

end
