(* ===== verification/Auth_Safety.thy ===== *)
theory Auth_Safety
  imports Auth_Invariant
begin

text \<open>
  What a token can and cannot do. An EVSE is told to start only by an accepted validation result,
  only one EVSE per token, only where the reservations allow it; a token that runs a transaction stops
  it; a token of the master pass group starts nothing. The theorems hold for arbitrary behaviour of
  the other threads during the waits, except where a theorem counts calls or tokens: there the other
  threads are required not to add any.
\<close>

subsection \<open>The selected EVSE is one of the referenced ones\<close>

lemma find_member: "find P xs = Some x \<Longrightarrow> x \<in> set xs \<and> P x"
  by (auto simp: find_Some_iff)

lemma get_plugin_member:
  "get_oldest_plugin s refs \<noteq> - 1 \<Longrightarrow> get_oldest_plugin s refs \<in> set refs"
  "get_last_plugin s refs \<noteq> - 1 \<Longrightarrow> get_last_plugin s refs \<in> set refs"
  by (auto simp: get_oldest_plugin_def get_last_plugin_def dest: find_member split: option.splits)

lemma select_plugged_in_member:
  "select_plugged_in_evse s refs \<noteq> - 1 \<Longrightarrow> select_plugged_in_evse s refs \<in> set refs"
  by (auto simp: select_plugged_in_evse_def get_plugin_member split: if_splits)

lemma select_by_plug_in_member:
  "select_by_plug_in env s refs t = (EvseSelected e, s') \<Longrightarrow> e \<in> set refs"
  by (auto simp: select_by_plug_in_def wait_for_plug_in_def Let_def
      intro!: select_plugged_in_member split: if_splits)

lemma select_first_member: "select_first s refs = EvseSelected e \<Longrightarrow> e \<in> set refs"
  by (auto simp: select_first_def Let_def get_plugin_member dest: find_member
      split: if_splits option.splits)

lemma apfst_Some_eq: "apfst Some p = (Some x, s) \<longleftrightarrow> p = (x, s)"
  by (cases p) auto

lemma select_evse_member:
  "select_evse env s refs t = (Some (EvseSelected e), s') \<Longrightarrow> e \<in> set refs"
  by (cases refs) (auto simp: select_evse_def apfst_Some_eq
      split: if_splits SelectionAlgorithm.splits
      dest: select_by_plug_in_member select_first_member)

lemma find_first_split:
  assumes "find P xs = Some x"
  shows "\<exists>earlier later. xs = earlier @ x # later \<and> P x \<and> (\<forall>y\<in>set earlier. \<not> P y)"
proof -
  obtain i where i: "i < length xs" "x = xs ! i" "P x" "\<forall>j<i. \<not> P (xs ! j)"
    using assms by (auto simp: find_Some_iff)
  then have "xs = take i xs @ x # drop (Suc i) xs" "\<forall>y\<in>set (take i xs). \<not> P y"
    by (auto simp: id_take_nth_drop in_set_conv_nth)
  with i(3) show ?thesis by blast
qed

lemma selected_in_queue:
  assumes "select_evse env s refs t = (Some (EvseSelected e), s')" "length refs \<noteq> 1"
    "selection_algorithm s = a" "selection_algorithm s' = a" "a \<noteq> FindFirst" "a \<noteq> UserInput"
  shows "find (\<lambda>e. e \<in> set refs) (if a = PlugEvents then plug_in_queue s' else rev (plug_in_queue s')) = Some e"
proof -
  have "select_by_plug_in env s refs t = (EvseSelected e, s')"
    using assms by (cases a) (auto simp: select_evse_def apfst_Some_eq)
  then have "e = select_plugged_in_evse s' refs" "select_plugged_in_evse s' refs \<noteq> - 1"
    by (auto simp: select_by_plug_in_def wait_for_plug_in_def Let_def split: if_splits)
  then show ?thesis
    using assms(4-6) by (cases a) (auto simp: select_plugged_in_evse_def get_oldest_plugin_def
        get_last_plugin_def split: option.splits)
qed

lemma selected_by_plug_in_order:
  assumes "select_evse env s refs t = (Some (EvseSelected e), s')" "length refs \<noteq> 1"
    "selection_algorithm s = a" "selection_algorithm s' = a" "a = PlugEvents \<or> a = PlugEventsLIFO"
  shows "\<exists>earlier later. plug_in_queue s' = earlier @ e # later \<and> e \<in> set refs \<and>
    (if a = PlugEvents then set earlier else set later) \<inter> set refs = {}"
proof -
  have f: "find (\<lambda>e. e \<in> set refs) (if a = PlugEvents then plug_in_queue s' else rev (plug_in_queue s')) =
      Some e" using assms by (intro selected_in_queue) auto
  then obtain before after where q: "(if a = PlugEvents then plug_in_queue s' else rev (plug_in_queue s')) =
      before @ e # after" "e \<in> set refs" "\<forall>y\<in>set before. y \<notin> set refs"
    using find_first_split [OF f] by blast
  show ?thesis
  proof (cases "a = PlugEvents")
    case True
    with q show ?thesis by (intro exI [of _ before] exI [of _ after]) auto
  next
    case False
    then have "plug_in_queue s' = rev after @ e # rev before" using q(1) by (simp add: rev_eq_append_conv)
    with q False show ?thesis by (intro exI [of _ "rev after"] exI [of _ "rev before"]) auto
  qed
qed

text \<open>
  C20. With the plug in order as the selection rule, a token that refers to a single EVSE selects it at
  once, without waiting for a plug in. Otherwise the selected EVSE is a referenced one in the queue of
  plugged in cars, and no referenced EVSE has been waiting in the queue for longer; for the rule that
  prefers the latest plug in, none came later. This holds also when the handler had to wait for a plug
  in, the queue being the one at the end of the wait, if the rule is not changed meanwhile.
\<close>

theorem plug_in_order_selection:
  assumes "select_evse env s refs t = (Some (EvseSelected e), s')"
    and "selection_algorithm s = a" and "selection_algorithm s' = a"
    and "a = PlugEvents \<or> a = PlugEventsLIFO"
  shows "if length refs = 1 then refs = [e] \<and> s' = s
    else \<exists>earlier later. plug_in_queue s' = earlier @ e # later \<and> e \<in> set refs \<and>
      (if a = PlugEvents then set earlier else set later) \<inter> set refs = {}"
proof (cases "length refs = 1")
  case True
  then obtain x where "refs = [x]" by (auto simp: length_Suc_conv)
  with assms(1) show ?thesis by (simp add: select_evse_def)
next
  case False
  with selected_by_plug_in_order [OF assms(1) False assms(2-4)] show ?thesis by simp
qed

definition plugged_in_station :: auth_handler where
  "plugged_in_station =
     example_station\<lparr>selection_algorithm := PlugEvents, plug_in_queue := [2, 1]\<rparr>"

theorem plug_in_order_selection_witness:
  "\<exists>earlier later. plug_in_queue plugged_in_station = earlier @ 2 # later \<and> (2::int) \<in> set [1, 2] \<and>
     set earlier \<inter> set [1, 2] = {}"
proof -
  have "select_evse (idle_env accepting_validator) plugged_in_station [1, 2] (pt_id_token t) =
      (Some (EvseSelected 2), plugged_in_station)" for t
    by (simp add: select_evse_def select_by_plug_in_def select_plugged_in_evse_def
        get_oldest_plugin_def plugged_in_station_def is_authorization_withdrawn_def example_station_def
        register_publish_token_validation_status_callback_def
        auth_init_def reservation_handler.defs auth_handler.defs)
  from plug_in_order_selection [OF this, of PlugEvents] show ?thesis
    by (simp add: plugged_in_station_def)
qed

subsection \<open>The decision respects the reservations\<close>

definition may_use :: "auth_handler \<Rightarrow> int \<Rightarrow> string \<Rightarrow> string option \<Rightarrow> bool" where
  "may_use s e token parent \<longleftrightarrow>
     matches_reserved_identifier s token (Some (to_u32 e)) parent \<noteq> None \<or>
     (\<not> is_evse_reserved s (to_u32 e) \<and> is_charging_possible s (to_u32 e))"

text \<open>The reservation that matches the token at the EVSE, if there is one, is used up.\<close>

definition use_reservation :: "int \<Rightarrow> ProvidedIdToken \<Rightarrow> ValidationResult \<Rightarrow> auth_handler \<Rightarrow> auth_handler" where
  "use_reservation e t r s =
     (case matches_reserved_identifier s (tok_value (pt_id_token t)) (Some (to_u32 e))
        (map_option tok_value (vr_parent_id_token r)) of
        Some i \<Rightarrow> on_reservation_used s i | None \<Rightarrow> s)"

text \<open>The validation result that is passed on names the reservation used up.\<close>

definition granted_result :: "int \<Rightarrow> ProvidedIdToken \<Rightarrow> ValidationResult \<Rightarrow> auth_handler \<Rightarrow> ValidationResult" where
  "granted_result e t r s =
     (case matches_reserved_identifier s (tok_value (pt_id_token t)) (Some (to_u32 e))
        (map_option tok_value (vr_parent_id_token r)) of
        Some i \<Rightarrow> r\<lparr>vr_reservation_id := Some i\<rparr> | None \<Rightarrow> r)"

lemma granted_result_cong: "pt_id_token t = pt_id_token t' \<Longrightarrow> granted_result e t r s = granted_result e t' r s"
  by (simp add: granted_result_def)

lemma use_reservation_cong: "pt_id_token t = pt_id_token t' \<Longrightarrow> use_reservation e t r s = use_reservation e t' r s"
  by (simp add: use_reservation_def)

lemma decide_granted:
  assumes "decide_authorization e t r s = (True, t', r', s')"
  shows "pt_connectors t' = Some [e]" "vr_authorization_status r' = vr_authorization_status r"
    "\<And>ids. vr_evse_ids r = Some ids \<Longrightarrow> e \<in> set ids"
    "may_use s e (tok_value (pt_id_token t)) (map_option tok_value (vr_parent_id_token r))"
    "evses s' = evses s"
    "s' = use_reservation e t r s" "t' = t\<lparr>pt_connectors := Some [e]\<rparr>" "r' = granted_result e t r s"
  using assms
  by (auto simp: decide_authorization_def Let_def may_use_def use_reservation_def granted_result_def
      on_reservation_used_def split: if_splits option.splits)

lemma decide_refused:
  assumes "decide_authorization e t r s = (False, t', r', s')"
  shows "t' = t" "vr_authorization_status r' \<noteq> AuthAccepted" "s' = s"
  using assms by (auto simp: decide_authorization_def Let_def split: if_splits option.splits)

lemma decide_token: "decide_authorization e t r s = (ok, t', r', s') \<Longrightarrow> pt_id_token t' = pt_id_token t"
  by (auto simp: decide_authorization_def Let_def split: if_splits option.splits)

text \<open>An attempt in three steps: publish the acceptance, select an EVSE, decide and notify.\<close>

definition with_parent :: "ValidationResult \<Rightarrow> ProvidedIdToken \<Rightarrow> ProvidedIdToken" where
  "with_parent r t = (if vr_parent_id_token r \<noteq> None
     then t\<lparr>pt_parent_id_token := vr_parent_id_token r\<rparr> else t)"

lemma with_parent_id [simp]: "pt_id_token (with_parent r t) = pt_id_token t"
  by (simp add: with_parent_def)

lemma attempt_done:
  assumes "attempt_authorization env refs r t s = Loop_Done ok r' t' s'"
  obtains t1 s1 s2 e s3 where
    "t1 = with_parent r t" "\<not> equals_master_pass_group_id s (vr_parent_id_token r)"
    "s1 = publish_token_validation_status t1 TokAccepted (vr_tariff_messages r) s"
    "select_evse env s1 refs (pt_id_token t1) = (Some (EvseSelected e), s2)"
    "decide_authorization e t1 r s2 = (ok, t', r', s3)" "s' = notify_evse env e t' r' s3"
proof -
  define t1 where "t1 = (if vr_parent_id_token r \<noteq> None
    then t\<lparr>pt_parent_id_token := vr_parent_id_token r\<rparr> else t)"
  define s1 where "s1 = publish_token_validation_status t1 TokAccepted (vr_tariff_messages r) s"
  obtain selected s2 where s2: "select_evse env s1 refs (pt_id_token t1) = (selected, s2)" by fastforce
  have t1: "t1 = with_parent r t" by (simp add: t1_def with_parent_def)
  have m: "\<not> equals_master_pass_group_id s (vr_parent_id_token r)"
    using assms by (auto simp: attempt_authorization_def)
  with assms s2 obtain e where "selected = Some (EvseSelected e)"
    unfolding attempt_authorization_def t1_def [symmetric] s1_def [symmetric] Let_def
    by (auto split: option.splits SelectEvseResult.splits)
  moreover obtain ok' t2 r2 s3 where d: "decide_authorization e t1 r s2 = (ok', t2, r2, s3)"
    by (cases "decide_authorization e t1 r s2") auto
  ultimately have "ok' = ok" "t2 = t'" "r2 = r'" "s' = notify_evse env e t' r' s3"
    using assms m s2
    unfolding attempt_authorization_def t1_def [symmetric] s1_def [symmetric] Let_def
    by auto
  with that [of t1 s1 e s2 s3] s2 d m \<open>selected = _\<close> t1 show ?thesis
    by (simp add: s1_def)
qed

text \<open>
  The iterations of the loop that try to authorize the token, each with the validation result, the
  token and the state with which it begins.
\<close>

fun attempts ::
  "auth_env \<Rightarrow> int list \<Rightarrow> ValidationResult list \<Rightarrow> ProvidedIdToken \<Rightarrow> auth_handler \<Rightarrow>
     (ValidationResult \<times> ProvidedIdToken \<times> auth_handler) list" where
  "attempts env refs [] t s = []"
| "attempts env refs (r # rs) t s =
     (if refs = [] then []
      else if vr_authorization_status r \<noteq> AuthAccepted then attempts env refs rs t s
      else (r, t, s) # (case attempt_authorization env refs r t s of
             Loop_Done False r' t' s' \<Rightarrow> attempts env refs rs t' s' | _ \<Rightarrow> []))"

text \<open>The last of these iterations granted the token, in the state \<open>v\<close> with the result \<open>r\<close>.\<close>

definition granted_in ::
  "auth_env \<Rightarrow> int list \<Rightarrow> IdToken \<Rightarrow> ProvidedIdToken \<Rightarrow> auth_handler \<Rightarrow>
     ValidationResult \<times> ProvidedIdToken \<times> auth_handler \<Rightarrow> bool" where
  "granted_in env refs i t' s' = (\<lambda>(r, t1, v). \<exists>e u.
     pt_id_token t1 = i \<and> vr_authorization_status r = AuthAccepted \<and>
     select_evse env (publish_token_validation_status (with_parent r t1) TokAccepted
       (vr_tariff_messages r) v) refs i = (Some (EvseSelected e), u) \<and>
     e \<in> set refs \<and> (\<forall>ids. vr_evse_ids r = Some ids \<longrightarrow> e \<in> set ids) \<and>
     may_use u e (tok_value i) (map_option tok_value (vr_parent_id_token r)) \<and>
     t' = (with_parent r t1)\<lparr>pt_connectors := Some [e]\<rparr> \<and>
     s' = notify_evse env e t' (granted_result e t1 r u) (use_reservation e t1 r u) \<and>
     last (calls s') = Notify_Evse (ec_evse_index (evse_of u e)) t' (granted_result e t1 r u))"

definition authorized_for ::
  "auth_env \<Rightarrow> int list \<Rightarrow> ValidationResult list \<Rightarrow> ProvidedIdToken \<Rightarrow> auth_handler \<Rightarrow>
     ProvidedIdToken \<Rightarrow> auth_handler \<Rightarrow> bool" where
  "authorized_for env refs rs t s t' s' \<longleftrightarrow> attempts env refs rs t s \<noteq> [] \<and>
     granted_in env refs (pt_id_token t) t' s' (last (attempts env refs rs t s))"

lemma attempts_results: "fst ` set (attempts env refs rs t s) \<subseteq> set rs"
proof (induction rs arbitrary: t s)
  case (Cons r rs)
  show ?case
  proof (cases "attempt_authorization env refs r t s")
    case (Loop_Done ok r' t' s')
    with Cons.IH [of t s] Cons.IH [of t' s'] show ?thesis by (cases ok) auto
  qed (use Cons.IH [of t s] in auto)
qed simp

lemma notify_last_call:
  "calls (notify_evse env e t r s) \<noteq> []"
  "last (calls (notify_evse env e t r s)) = Notify_Evse (ec_evse_index (evse_of s e)) t r"
  by (simp_all add: notify_evse_def Let_def)

lemma attempt_granted:
  assumes "attempt_authorization env refs r t s = Loop_Done True r' t' s'"
    and "vr_authorization_status r = AuthAccepted" "refs \<noteq> []"
  shows "authorized_for env refs (r # rs) t s t' s'"
proof -
  obtain t1 s1 s2 e s3 where a: "t1 = with_parent r t"
    "s1 = publish_token_validation_status t1 TokAccepted (vr_tariff_messages r) s"
    "select_evse env s1 refs (pt_id_token t1) = (Some (EvseSelected e), s2)"
    "decide_authorization e t1 r s2 = (True, t', r', s3)" "s' = notify_evse env e t' r' s3"
    using assms(1) by (rule attempt_done)
  note d = decide_granted [OF a(4)]
  have t: "pt_id_token t1 = pt_id_token t" by (simp add: a(1))
  have "evse_of s3 e = evse_of s2 e" using d(5) by (simp add: evse_of_def)
  then have "last (calls s') = Notify_Evse (ec_evse_index (evse_of s2 e)) t' r'"
    using notify_last_call(2) [of env e t' r' s3] a(5) by simp
  then have "granted_in env refs (pt_id_token t) t' s' (r, t, s)"
    unfolding granted_in_def prod.case
    using select_evse_member [OF a(3)] assms(2) d(3,4,6-8) a t
      use_reservation_cong [OF t] granted_result_cong [OF t]
    by (intro exI [of _ e] exI [of _ s2]) simp
  moreover have "attempts env refs (r # rs) t s = [(r, t, s)]" using assms by simp
  ultimately show ?thesis by (simp add: authorized_for_def)
qed

lemma attempt_token:
  assumes "attempt_authorization env refs r t s = Loop_Done ok r' t' s'"
  shows "pt_id_token t' = pt_id_token t"
proof -
  obtain t1 s1 s2 e s3 where "t1 = with_parent r t"
    "decide_authorization e t1 r s2 = (ok, t', r', s3)"
    using assms by (rule attempt_done)
  then show ?thesis by (simp add: decide_token)
qed

lemma authorized_for_later:
  assumes "authorized_for env refs rs t s t' s'" "pt_id_token t = pt_id_token t0"
    and "attempts env refs rs' t0 s0 = before @ attempts env refs rs t s"
  shows "authorized_for env refs rs' t0 s0 t' s'"
  using assms by (simp add: authorized_for_def)

lemma loop_granted:
  "authorize_loop env refs rs r0 t s = Loop_Done True r' t' s' \<Longrightarrow>
   authorized_for env refs rs t s t' s'"
proof (induction rs arbitrary: r0 t s)
  case (Cons r rs)
  consider (skip) "refs \<noteq> []" "vr_authorization_status r \<noteq> AuthAccepted"
      "authorize_loop env refs rs r t s = Loop_Done True r' t' s'"
    | (tried) ok r1 t1 s1 where "refs \<noteq> []" "vr_authorization_status r = AuthAccepted"
        "attempt_authorization env refs r t s = Loop_Done ok r1 t1 s1"
    using Cons.prems by (cases "attempt_authorization env refs r t s") (simp_all split: if_split_asm)
  then show ?case
  proof cases
    case skip
    then have "attempts env refs (r # rs) t s = [] @ attempts env refs rs t s" by simp
    with Cons.IH [OF skip(3)] refl show ?thesis by (rule authorized_for_later)
  next
    case tried
    show ?thesis
    proof (cases ok)
      case True
      with tried Cons.prems have "attempt_authorization env refs r t s = Loop_Done True r' t' s'" by simp
      then show ?thesis using tried(2,1) by (rule attempt_granted)
    next
      case False
      with tried Cons.prems have "authorize_loop env refs rs r1 t1 s1 = Loop_Done True r' t' s'" by simp
      from Cons.IH [OF this] attempt_token [OF tried(3)] show ?thesis
      proof (rule authorized_for_later)
        show "attempts env refs (r # rs) t s = [(r, t, s)] @ attempts env refs rs t1 s1"
          using tried False by simp
      qed
    qed
  qed
qed simp

lemma stop_never_starts:
  "stop_with_parent_id_token s t refs rs = Some (res, t', s') \<Longrightarrow> res \<noteq> Some USED_TO_START_TRANSACTION"
  by (induction rs) (auto simp: Let_def stop_by_master_pass_def stop_by_parent_def
      split: option.splits if_splits)

lemma reswipe_never_starts: "fst (handle_reswipe s t e) \<noteq> Some USED_TO_START_TRANSACTION"
  by (simp add: handle_reswipe_def Let_def)

lemma attempt_return:
  "attempt_authorization env refs r t s = Loop_Return res t' s' \<Longrightarrow>
   res \<in> {None, Some REJECTED, Some TIMEOUT, Some WITHDRAWN}"
  by (auto simp: attempt_authorization_def Let_def case_prod_beta
      split: if_splits option.splits SelectEvseResult.splits)

lemma loop_return:
  "authorize_loop env refs rs r0 t s = Loop_Return res t' s' \<Longrightarrow>
   res \<in> {None, Some REJECTED, Some TIMEOUT, Some WITHDRAWN}"
  by (induction rs arbitrary: r0 t s)
    (auto dest: attempt_return split: if_splits authorize_outcome.splits)

lemma authorize_token_start:
  assumes "authorize_token env refs rs t s = (Some USED_TO_START_TRANSACTION, t', s')"
  shows "authorized_for env (filter (\<lambda>e. ec_identifier (evse_of s e) = None) refs) rs t s t' s'"
  using assms
  by (auto simp: authorize_token_def Let_def dest: loop_granted loop_return
      split: if_splits authorize_outcome.splits)

lemma handle_validated_start:
  assumes "handle_validated_token env refs rs t s = (Some USED_TO_START_TRANSACTION, t', s')"
  shows "authorize_token env refs rs t s = (Some USED_TO_START_TRANSACTION, t', s')"
  using assms
  by (auto simp: handle_validated_token_def Let_def dest: stop_never_starts
      split: if_splits option.splits)

lemma handle_token_start:
  assumes "handle_token env t s = (Some USED_TO_START_TRANSACTION, t', s')"
  shows "handle_validated_token env (get_referenced_evses s t) (fst (validate_provided_token env t s)) t
    (snd (validate_provided_token env t s)) = (Some USED_TO_START_TRANSACTION, t', s')"
  using assms reswipe_never_starts [of s t]
  by (auto simp: handle_token_def Let_def case_prod_beta split: if_splits) (metis fst_conv)+

text \<open>
  C4. A token starts a transaction only with good reason. If the result is that the token is used to
  start, then the last iteration of the loop over the validation results granted it: it began in a state
  \<open>v\<close> with a result \<open>r\<close> by which a validator accepts the token, and published the acceptance; the
  selection then gave the EVSE \<open>e\<close> and ended in the state \<open>u\<close>. The EVSE is one the token refers to, had no
  authorization when the token was validated, and is not excluded by the validation result. In \<open>u\<close>
  either a reservation matches the token or its parent token, or the EVSE is not reserved and the
  handler's test for charging without a reservation admits it. The final state is \<open>u\<close> with the matching
  reservation used up and the EVSE notified: the last call made is the acceptance sent to exactly this
  EVSE. This holds whatever other threads do while the handler waits.
\<close>

theorem start_respects_reservations:
  assumes "handle_token env t s = (Some USED_TO_START_TRANSACTION, t', s')"
    and "validate_provided_token env t s = (rs, s0)"
    and "refs = filter (\<lambda>e. ec_identifier (evse_of s0 e) = None) (get_referenced_evses s t)"
  shows "\<exists>r t1 v e u. attempts env refs rs t s0 \<noteq> [] \<and> last (attempts env refs rs t s0) = (r, t1, v) \<and>
    pt_id_token t1 = pt_id_token t \<and> r \<in> set rs \<and> vr_authorization_status r = AuthAccepted \<and>
    select_evse env (publish_token_validation_status (with_parent r t1) TokAccepted
      (vr_tariff_messages r) v) refs (pt_id_token t) = (Some (EvseSelected e), u) \<and>
    e \<in> set (get_referenced_evses s t) \<and> ec_identifier (evse_of s0 e) = None \<and>
    (\<forall>ids. vr_evse_ids r = Some ids \<longrightarrow> e \<in> set ids) \<and>
    (matches_reserved_identifier u (tok_value (pt_id_token t)) (Some (to_u32 e))
       (map_option tok_value (vr_parent_id_token r)) \<noteq> None \<or>
     \<not> is_evse_reserved u (to_u32 e) \<and> is_charging_possible u (to_u32 e)) \<and>
    t' = (with_parent r t1)\<lparr>pt_connectors := Some [e]\<rparr> \<and>
    s' = notify_evse env e t' (granted_result e t r u) (use_reservation e t r u) \<and>
    last (calls s') = Notify_Evse (ec_evse_index (evse_of u e)) t' (granted_result e t r u)"
proof -
  have "authorized_for env refs rs t s0 t' s'"
    using authorize_token_start [OF handle_validated_start [OF handle_token_start [OF assms(1)]]] assms(2,3)
    by simp
  then obtain r t1 v where last: "attempts env refs rs t s0 \<noteq> []"
    "last (attempts env refs rs t s0) = (r, t1, v)" "granted_in env refs (pt_id_token t) t' s' (r, t1, v)"
    unfolding authorized_for_def by (metis prod.collapse)
  have r: "r \<in> set rs" using attempts_results [of env refs rs t s0] last(1,2) last_in_set [OF last(1)]
    by force
  from last(3) obtain e u where g: "pt_id_token t1 = pt_id_token t" "vr_authorization_status r = AuthAccepted"
    "select_evse env (publish_token_validation_status (with_parent r t1) TokAccepted
       (vr_tariff_messages r) v) refs (pt_id_token t) = (Some (EvseSelected e), u)"
    "e \<in> set refs" "\<forall>ids. vr_evse_ids r = Some ids \<longrightarrow> e \<in> set ids"
    "may_use u e (tok_value (pt_id_token t)) (map_option tok_value (vr_parent_id_token r))"
    "t' = (with_parent r t1)\<lparr>pt_connectors := Some [e]\<rparr>"
    "s' = notify_evse env e t' (granted_result e t1 r u) (use_reservation e t1 r u)"
    "last (calls s') = Notify_Evse (ec_evse_index (evse_of u e)) t' (granted_result e t1 r u)"
    unfolding granted_in_def prod.case by (elim exE conjE)
  have e: "e \<in> set (get_referenced_evses s t)" "ec_identifier (evse_of s0 e) = None"
    using g(4) by (simp_all add: assms(3))
  show ?thesis
    using g(5,6) e r last(1,2) g(1-3,7-9)
    unfolding may_use_def use_reservation_cong [OF g(1)] granted_result_cong [OF g(1)]
    by (intro exI [of _ r] exI [of _ t1] exI [of _ v] exI [of _ e] exI [of _ u] conjI)
qed

definition example_token :: ProvidedIdToken where
  "example_token = \<lparr>pt_request_id = None, pt_id_token = \<lparr>tok_value = ''TAG'', tok_type = ISO14443\<rparr>,
     pt_parent_id_token = None, pt_authorization_type = RFID, pt_connectors = None,
     pt_prevalidated = None\<rparr>"

abbreviation example_run :: token_outcome where
  "example_run \<equiv> handle_token (idle_env accepting_validator) example_token example_station"

theorem start_respects_reservations_witness:
  "pt_connectors (fst (snd example_run)) = Some [1] \<and>
   (\<exists>e. Some [e] = pt_connectors (fst (snd example_run)) \<and>
      e \<in> set (get_referenced_evses example_station example_token))"
proof -
  have "fst example_run = Some USED_TO_START_TRANSACTION" by code_simp
  then have "example_run = (Some USED_TO_START_TRANSACTION, fst (snd example_run), snd (snd example_run))"
    by (metis prod.collapse)
  from start_respects_reservations [OF this surjective_pairing refl] obtain r t1 e where
    "fst (snd example_run) = (with_parent r t1)\<lparr>pt_connectors := Some [e]\<rparr>"
    "e \<in> set (get_referenced_evses example_station example_token)" by blast
  then have "pt_connectors (fst (snd example_run)) = Some [e]"
    "e \<in> set (get_referenced_evses example_station example_token)" by simp_all
  then have "\<exists>e. Some [e] = pt_connectors (fst (snd example_run)) \<and>
      e \<in> set (get_referenced_evses example_station example_token)" by (metis (no_types))
  moreover have "pt_connectors (fst (snd example_run)) = Some [1]" by code_simp
  ultimately show ?thesis by blast
qed

subsection \<open>At most one acceptance per token\<close>

primrec accepting :: "auth_call \<Rightarrow> bool" where
  "accepting (Notify_Evse i t r) = (vr_authorization_status r = AuthAccepted)"
| "accepting (Reservation_Cancelled_Call e i reason upd) = False"
| "accepting (Reserved_Call e i r) = False"
| "accepting (Withdraw_Authorization i) = False"
| "accepting (Stop_Transaction i r) = False"
| "accepting (Publish_Status t st m) = False"

abbreviation acceptances :: "auth_handler \<Rightarrow> nat" where
  "acceptances s \<equiv> length (filter accepting (calls s))"

text \<open>The other threads make no calls while this token is handled.\<close>

definition no_foreign_calls :: "auth_env \<Rightarrow> bool" where
  "no_foreign_calls env \<longleftrightarrow> (\<forall>s. calls (during_validation env s) = calls s \<and>
     calls (during_plug_in_wait env s) = calls s \<and> calls (during_timeout_task env s) = calls s)"

lemma calls_on_reservation_used [simp]:
  "calls (on_reservation_used s i) = calls (s :: auth_handler)"
proof -
  have "calls (store_reservations t) = calls t" for t :: auth_handler
    by (simp add: store_reservations_def)
  moreover have "calls (erase_reservation i e t) = calls t" for e and t :: auth_handler
    by (simp add: erase_reservation_def split: option.splits)
  ultimately show ?thesis by (simp add: on_reservation_used_def cancel_reservation_def Let_def)
qed

lemma calls_publish: "acceptances (publish_token_validation_status t st m s) = acceptances s"
  by (simp add: publish_token_validation_status_def)

lemma calls_stop: "acceptances (stop_transaction e reason t s) = acceptances s"
  by (simp add: stop_transaction_def)

lemma calls_select:
  "no_foreign_calls env \<Longrightarrow> calls (snd (select_evse env s refs t)) = calls s"
  by (simp add: select_evse_def select_by_plug_in_def wait_for_plug_in_def Let_def no_foreign_calls_def
      split: SelectionAlgorithm.splits)

lemma calls_decide: "decide_authorization e t r s = (ok, t', r', s') \<Longrightarrow> calls s' = calls s"
  by (auto simp: decide_authorization_def Let_def split: if_splits option.splits)

lemma calls_notify:
  assumes "no_foreign_calls env"
  shows "acceptances (notify_evse env e t r s) =
    acceptances s + (if vr_authorization_status r = AuthAccepted then 1 else 0)"
proof -
  have "calls (grant_authorization env e t r s) = calls s"
    using assms by (simp add: grant_authorization_def Let_def remove_plug_in_def
        wait_for_timeout_task_def no_foreign_calls_def)
  then show ?thesis by (simp add: notify_evse_def Let_def)
qed

lemma decide_status:
  "decide_authorization e t r s = (ok, t', r', s') \<Longrightarrow> vr_authorization_status r = AuthAccepted \<Longrightarrow>
   vr_authorization_status r' = AuthAccepted \<longleftrightarrow> ok"
  using decide_granted(2) decide_refused(2) by (cases ok) auto

lemma attempt_acceptances:
  assumes quiet: "no_foreign_calls env" and r: "vr_authorization_status r = AuthAccepted"
  shows "attempt_authorization env refs r t s = Loop_Done ok r' t' s' \<Longrightarrow>
      acceptances s' = acceptances s + (if ok then 1 else 0) \<and>
      (vr_authorization_status r' = AuthAccepted \<longleftrightarrow> ok)"
    and "attempt_authorization env refs r t s = Loop_Return res t' s' \<Longrightarrow> acceptances s' = acceptances s"
proof -
  assume "attempt_authorization env refs r t s = Loop_Done ok r' t' s'"
  then obtain t1 s1 s2 e s3 where
    a: "s1 = publish_token_validation_status t1 TokAccepted (vr_tariff_messages r) s"
    "select_evse env s1 refs (pt_id_token t1) = (Some (EvseSelected e), s2)"
    "decide_authorization e t1 r s2 = (ok, t', r', s3)" "s' = notify_evse env e t' r' s3"
    by (rule attempt_done)
  have "calls s2 = calls s1" using calls_select [OF quiet, of s1 refs "pt_id_token t1"] a(2) by simp
  with a calls_publish have "acceptances s3 = acceptances s" by (simp add: calls_decide [OF a(3)])
  then show "acceptances s' = acceptances s + (if ok then 1 else 0) \<and>
      (vr_authorization_status r' = AuthAccepted \<longleftrightarrow> ok)"
    using decide_status [OF a(3) r] by (simp add: a(4) calls_notify [OF quiet])
next
  assume ret: "attempt_authorization env refs r t s = Loop_Return res t' s'"
  define t1 where "t1 = (if vr_parent_id_token r \<noteq> None
    then t\<lparr>pt_parent_id_token := vr_parent_id_token r\<rparr> else t)"
  define s1 where "s1 = publish_token_validation_status t1 TokAccepted (vr_tariff_messages r) s"
  obtain selected s2 where s2: "select_evse env s1 refs (pt_id_token t1) = (selected, s2)" by fastforce
  have "calls s2 = calls s1" using calls_select [OF quiet, of s1 refs "pt_id_token t1"] s2 by simp
  then have "acceptances s2 = acceptances s" using calls_publish by (simp add: s1_def)
  moreover have "s' = s \<or> s' = s2"
    using ret s2
    unfolding attempt_authorization_def t1_def [symmetric] s1_def [symmetric] Let_def
    by (auto split: if_splits option.splits SelectEvseResult.splits prod.splits)
  ultimately show "acceptances s' = acceptances s" by auto
qed

primrec loop_counted :: "nat \<Rightarrow> authorize_outcome \<Rightarrow> bool" where
  "loop_counted n (Loop_Return res t s) \<longleftrightarrow> acceptances s = n"
| "loop_counted n (Loop_Done ok r t s) \<longleftrightarrow>
     acceptances s = n + (if ok then 1 else 0) \<and> (vr_authorization_status r = AuthAccepted \<longleftrightarrow> ok)"

lemma loop_acceptances:
  assumes quiet: "no_foreign_calls env"
  shows "vr_authorization_status r0 \<noteq> AuthAccepted \<Longrightarrow>
    loop_counted (acceptances s) (authorize_loop env refs rs r0 t s)"
proof (induction rs arbitrary: r0 t s)
  case (Cons r rs)
  show ?case
  proof (cases "vr_authorization_status r = AuthAccepted \<and> refs \<noteq> []")
    case False
    with Cons show ?thesis by (cases "refs = []") simp_all
  next
    case accepted: True
    show ?thesis
    proof (cases "attempt_authorization env refs r t s")
      case (Loop_Return res t' s')
      with accepted attempt_acceptances(2) [OF quiet _ Loop_Return] show ?thesis by simp
    next
      case (Loop_Done ok r' t' s')
      note counts = attempt_acceptances(1) [OF quiet _ Loop_Done]
      with accepted Loop_Done Cons.IH [of r' s' t'] show ?thesis by (cases ok) simp_all
    qed
  qed
qed simp

lemma rejected_acceptances:
  assumes "no_foreign_calls env" "vr_authorization_status r \<noteq> AuthAccepted"
  shows "acceptances (notify_rejected env t r s) = acceptances s"
proof -
  have "acceptances (fold (\<lambda>e s. if map_of (evses s) e \<noteq> None then notify_evse env e t r s else s) es s)
      = acceptances s" for es
    using assms by (induction es arbitrary: s) (auto simp: calls_notify)
  then show ?thesis by (simp add: notify_rejected_def split: option.splits)
qed

lemma authorize_token_acceptances:
  assumes "no_foreign_calls env" "authorize_token env refs rs t s = (res, t', s')"
  shows "acceptances s' = acceptances s + (if res = Some USED_TO_START_TRANSACTION then 1 else 0)"
proof -
  let ?refs = "filter (\<lambda>e. ec_identifier (evse_of s e) = None) refs"
  have counted: "loop_counted (acceptances s) (authorize_loop env ?refs rs unknown_result t s)"
    using loop_acceptances [OF assms(1)] by (simp add: unknown_result_def)
  show ?thesis
  proof (cases "authorize_loop env ?refs rs unknown_result t s")
    case (Loop_Return res1 t1 s1)
    with counted assms(2) loop_return [OF Loop_Return] show ?thesis
      by (auto simp: authorize_token_def Let_def split: if_splits)
  next
    case (Loop_Done ok r1 t1 s1)
    with counted assms(2) rejected_acceptances [OF assms(1), of r1 t1 s1] show ?thesis
      by (auto simp: authorize_token_def Let_def split: if_splits)
  qed
qed

lemma stop_acceptances:
  "stop_with_parent_id_token s t refs rs = Some (res, t', s') \<Longrightarrow> acceptances s' = acceptances s"
proof (induction rs)
  case (Cons r rs)
  have "acceptances (fold (\<lambda>e. stop_transaction e MasterPass (Some t)) es s) = acceptances s" for es
    by (induction es arbitrary: s) (simp_all add: calls_stop)
  with Cons show ?case
    by (auto simp: Let_def stop_by_master_pass_def stop_by_parent_def calls_stop
        split: option.splits if_splits)
qed simp

lemma handle_validated_acceptances:
  assumes "no_foreign_calls env" "handle_validated_token env refs rs t s = (res, t', s')"
  shows "acceptances s' = acceptances s + (if res = Some USED_TO_START_TRANSACTION then 1 else 0)"
  using assms(2) authorize_token_acceptances [OF assms(1)] stop_acceptances stop_never_starts
  by (auto simp: handle_validated_token_def Let_def split: if_splits option.splits)

text \<open>
  C5. One token, one EVSE: while a token is handled, exactly one EVSE is told that the token is
  accepted if the result is that it is used to start, and none in every other case; in particular the
  notifications sent for a rejected token never carry an acceptance. (The other threads are assumed
  to make no calls meanwhile, so that the calls counted are those of this token.)
\<close>

theorem one_acceptance_per_token:
  assumes "no_foreign_calls env" and "handle_token env t s = (res, t', s')"
  shows "length (filter accepting (calls s')) = length (filter accepting (calls s)) +
    (if res = Some USED_TO_START_TRANSACTION then 1 else 0)"
proof -
  have v: "acceptances (snd (validate_provided_token env t s)) = acceptances s"
    using assms(1) by (simp add: validate_provided_token_def no_foreign_calls_def)
  have r: "acceptances (snd (snd (handle_reswipe s t e))) = acceptances s" for e
    by (simp add: handle_reswipe_def Let_def calls_stop)
  from assms(2) consider e where "handle_reswipe s t e = (res, t', s')"
    | "res = Some NO_CONNECTOR_AVAILABLE" "s' = s"
    | "handle_validated_token env (get_referenced_evses s t) (fst (validate_provided_token env t s)) t
        (snd (validate_provided_token env t s)) = (res, t', s')"
    unfolding handle_token_def Let_def case_prod_beta by (auto split: if_split_asm)
  then show ?thesis
  proof cases
    case (1 e)
    with r [of e] reswipe_never_starts [of s t e] show ?thesis by simp
  next
    case 3
    with v handle_validated_acceptances [OF assms(1)] show ?thesis by simp
  qed simp
qed

theorem one_acceptance_per_token_witness:
  "length (filter accepting (calls (snd (snd example_run)))) = 1"
proof -
  have "no_foreign_calls (idle_env accepting_validator)" by (simp add: no_foreign_calls_def idle_env_def)
  moreover have "fst example_run = Some USED_TO_START_TRANSACTION" by code_simp
  then have "example_run = (Some USED_TO_START_TRANSACTION, fst (snd example_run), snd (snd example_run))"
    by (metis prod.collapse)
  ultimately have "length (filter accepting (calls (snd (snd example_run)))) =
      length (filter accepting (calls example_station)) +
        (if Some USED_TO_START_TRANSACTION = Some USED_TO_START_TRANSACTION then 1 else 0)"
    by (rule one_acceptance_per_token)
  also have "\<dots> = length (filter accepting (calls example_station)) + 1" by simp
  also have "\<dots> = 1" by code_simp
  finally show ?thesis .
qed

end
