(* ===== verification/Auth_Properties.thy ===== *)
theory Auth_Properties
  imports Auth_Safety
begin

text \<open>
  Further properties of the authorization handler: tokens that stop transactions, the master pass
  group, the bookkeeping of tokens in process, withdrawal of authorizations, and reservations that the
  EVSE manager refuses.
\<close>

subsection \<open>Tokens that stop a transaction\<close>

definition holds_token :: "auth_handler \<Rightarrow> string \<Rightarrow> int \<Rightarrow> bool" where
  "holds_token s token e \<longleftrightarrow>
     (\<exists>i. ec_identifier (evse_of s e) = Some i \<and> identifier_matches i token)"

lemma used_for_transaction_iff:
  assumes "- 1 \<notin> set refs" "\<exists>e\<in>set refs. holds_token s token e"
  shows "used_for_transaction s refs token \<in> set refs \<and>
    holds_token s token (used_for_transaction s refs token) \<and> used_for_transaction s refs token \<noteq> - 1"
proof -
  let ?P = "\<lambda>e. case ec_identifier (evse_of s e) of Some i \<Rightarrow> identifier_matches i token | None \<Rightarrow> False"
  have P: "?P e \<longleftrightarrow> holds_token s token e" for e by (auto simp: holds_token_def split: option.splits)
  with assms(2) obtain e where e: "find ?P refs = Some e"
    by (cases "find ?P refs") (auto simp: find_None_iff)
  from find_member [OF this] P have "e \<in> set refs" "holds_token s token e" by auto
  with assms(1) show ?thesis by (auto simp: used_for_transaction_def e)
qed

text \<open>
  C21. A card that is presented again never starts anything: if the token is an RFID or bank card token
  and a referenced EVSE holds an authorization whose token or parent token matches, then nothing is
  validated or selected and no reservation is touched. If stopping by a second presentation is enabled,
  the only call is one request to stop the transaction of such an EVSE; if it is not, no call is made,
  the state is unchanged, and the result is that the token is used to authorize again. (The id -1, with
  which the search reports that there is no such EVSE, is not the id of a referenced EVSE.)
\<close>

theorem presented_again_stops:
  assumes "pt_authorization_type t = RFID \<or> pt_authorization_type t = BankCard"
    and "- 1 \<notin> set (get_referenced_evses s t)"
    and "\<exists>e\<in>set (get_referenced_evses s t). holds_token s (tok_value (pt_id_token t)) e"
  shows "\<exists>e\<in>set (get_referenced_evses s t). holds_token s (tok_value (pt_id_token t)) e \<and>
    (if stop_transaction_on_reswipe s
     then fst (handle_token env t s) = Some USED_TO_STOP_TRANSACTION \<and>
       snd (snd (handle_token env t s)) = s\<lparr>calls := calls s @
         [Stop_Transaction (ec_evse_index (evse_of s e))
            \<lparr>stop_reason = LocalStop, stop_id_tag = Some t\<rparr>]\<rparr>
     else fst (handle_token env t s) = Some USED_TO_REAUTHORIZE \<and>
       snd (snd (handle_token env t s)) = s)"
proof -
  define e where "e = used_for_transaction s (get_referenced_evses s t) (tok_value (pt_id_token t))"
  have e: "e \<in> set (get_referenced_evses s t)" "holds_token s (tok_value (pt_id_token t)) e" "e \<noteq> - 1"
    using used_for_transaction_iff [OF assms(2,3)] by (simp_all add: e_def)
  then have "handle_token env t s = handle_reswipe s t e"
    using assms(1) by (auto simp: handle_token_def Let_def e_def)
  with e show ?thesis
    by (intro bexI [of _ e]) (auto simp: handle_reswipe_def Let_def stop_transaction_def emit_def)
qed

definition charging_station :: auth_handler where
  "charging_station = snd (snd example_run)"

theorem presented_again_stops_witness:
  "\<exists>e\<in>set (get_referenced_evses charging_station example_token).
     holds_token charging_station ''TAG'' e \<and>
     fst (handle_token (idle_env accepting_validator) example_token charging_station) =
       Some USED_TO_STOP_TRANSACTION"
proof -
  have refs: "get_referenced_evses charging_station example_token = [1, 2]" by code_simp
  have tok: "pt_authorization_type example_token = RFID" "tok_value (pt_id_token example_token) = ''TAG''"
    by (simp_all add: example_token_def)
  have "identifier_matches (the (ec_identifier (evse_of charging_station 1))) ''TAG''"
    "ec_identifier (evse_of charging_station 1) \<noteq> None" by code_simp+
  then have "holds_token charging_station ''TAG'' 1" by (auto simp: holds_token_def)
  moreover have "stop_transaction_on_reswipe charging_station" by code_simp
  ultimately show ?thesis
    using presented_again_stops [of example_token charging_station "idle_env accepting_validator"]
    by (auto simp: refs tok)
qed

subsection \<open>The master pass group\<close>

lemma attempt_master:
  "equals_master_pass_group_id s (vr_parent_id_token r) \<Longrightarrow>
   attempt_authorization env refs r t s = Loop_Return (Some REJECTED) t s"
  by (simp add: attempt_authorization_def)

lemma loop_master:
  assumes "\<forall>r\<in>set rs. vr_authorization_status r = AuthAccepted \<longrightarrow>
    equals_master_pass_group_id s (vr_parent_id_token r)"
  shows "(\<exists>r' t'. authorize_loop env refs rs r0 t s = Loop_Done False r' t' s) \<or>
    authorize_loop env refs rs r0 t s = Loop_Return (Some REJECTED) t s"
  using assms by (induction rs arbitrary: r0) (auto simp: attempt_master)

text \<open>
  C22. A token of the master pass group starts nothing: if, when the token has been validated, every
  validator that accepts it names the master pass group as its parent, the result is never that the
  token is used to start.
\<close>

theorem master_pass_never_starts:
  assumes "\<forall>r\<in>set (fst (validate_provided_token env t s)).
    vr_authorization_status r = AuthAccepted \<longrightarrow>
    equals_master_pass_group_id (snd (validate_provided_token env t s)) (vr_parent_id_token r)"
  shows "fst (handle_token env t s) \<noteq> Some USED_TO_START_TRANSACTION"
proof
  let ?s = "snd (validate_provided_token env t s)" and ?rs = "fst (validate_provided_token env t s)"
  let ?refs = "filter (\<lambda>e. ec_identifier (evse_of ?s e) = None) (get_referenced_evses s t)"
  assume "fst (handle_token env t s) = Some USED_TO_START_TRANSACTION"
  then obtain t' s' where "handle_token env t s = (Some USED_TO_START_TRANSACTION, t', s')"
    by (metis prod.collapse)
  then have "authorize_token env (get_referenced_evses s t) ?rs t ?s =
      (Some USED_TO_START_TRANSACTION, t', s')"
    by (intro handle_validated_start handle_token_start)
  with loop_master [OF assms, of env ?refs unknown_result t] show False
    by (auto simp: authorize_token_def Let_def split: if_splits)
qed

definition master_token :: ProvidedIdToken where
  "master_token = example_token\<lparr>pt_prevalidated := Some True,
     pt_parent_id_token := Some \<lparr>tok_value = ''MASTER'', tok_type = Central\<rparr>\<rparr>"

theorem master_pass_never_starts_witness:
  "fst (handle_token (idle_env accepting_validator) master_token
     (set_master_pass_group_id ''Master'' example_station)) \<noteq> Some USED_TO_START_TRANSACTION"
  by (rule master_pass_never_starts) code_simp

subsection \<open>Tokens in process\<close>

definition no_foreign_tokens :: "auth_env \<Rightarrow> bool" where
  "no_foreign_tokens env \<longleftrightarrow> (\<forall>s. tokens_in_process (during_validation env s) = tokens_in_process s \<and>
     tokens_in_process (during_plug_in_wait env s) = tokens_in_process s \<and>
     tokens_in_process (during_timeout_task env s) = tokens_in_process s)"

lemma tokens_emit [simp]: "tokens_in_process (emit c s) = tokens_in_process s"
  by (simp add: emit_def)

lemma tokens_publish [simp]:
  "tokens_in_process (publish_token_validation_status t st m s) = tokens_in_process s"
  by (simp add: publish_token_validation_status_def)

lemma tokens_store [simp]: "tokens_in_process (store_reservations s) = tokens_in_process s"
  by (simp add: store_reservations_def)

lemma tokens_erase [simp]: "tokens_in_process (erase_reservation i e s) = tokens_in_process s"
  by (simp add: erase_reservation_def split: option.splits)

lemma tokens_used [simp]: "tokens_in_process (on_reservation_used s i) = tokens_in_process s"
  by (simp add: on_reservation_used_def cancel_reservation_def Let_def)

lemma tokens_select:
  "no_foreign_tokens env \<Longrightarrow> tokens_in_process (snd (select_evse env s refs t)) = tokens_in_process s"
  by (simp add: select_evse_def select_by_plug_in_def wait_for_plug_in_def Let_def no_foreign_tokens_def
      split: SelectionAlgorithm.splits)

lemma tokens_notify:
  "no_foreign_tokens env \<Longrightarrow> tokens_in_process (notify_evse env e t r s) = tokens_in_process s"
  by (simp add: notify_evse_def grant_authorization_def Let_def remove_plug_in_def
      wait_for_timeout_task_def no_foreign_tokens_def)

lemma tokens_decide:
  "tokens_in_process (snd (snd (snd (decide_authorization e t r s)))) = tokens_in_process s"
  by (simp add: decide_authorization_def Let_def split: option.splits)

primrec outcome_tokens :: "authorize_outcome \<Rightarrow> ProvidedIdToken list" where
  "outcome_tokens (Loop_Return result token s) = tokens_in_process s"
| "outcome_tokens (Loop_Done ok result token s) = tokens_in_process s"

lemma tokens_attempt:
  assumes "no_foreign_tokens env"
  shows "outcome_tokens (attempt_authorization env refs r t s) = tokens_in_process s"
proof -
  define t1 where "t1 = (if vr_parent_id_token r \<noteq> None
    then t\<lparr>pt_parent_id_token := vr_parent_id_token r\<rparr> else t)"
  define s1 where "s1 = publish_token_validation_status t1 TokAccepted (vr_tariff_messages r) s"
  obtain selected s2 where s2: "select_evse env s1 refs (pt_id_token t1) = (selected, s2)" by fastforce
  have "tokens_in_process s2 = tokens_in_process s"
    using tokens_select [OF assms, of s1 refs "pt_id_token t1"] s2 by (simp add: s1_def)
  then show ?thesis
    unfolding attempt_authorization_def t1_def [symmetric] s1_def [symmetric] Let_def s2 case_prod_beta
    by (simp add: tokens_notify [OF assms] tokens_decide split: option.split SelectEvseResult.split)
qed

lemma tokens_loop:
  assumes "no_foreign_tokens env"
  shows "outcome_tokens (authorize_loop env refs rs r t s) = tokens_in_process s"
proof (induction rs arbitrary: r t s)
  case (Cons r' rs)
  from tokens_attempt [OF assms, of refs r' t s] Cons show ?case
    by (auto split: authorize_outcome.splits)
qed simp

lemma tokens_authorize:
  assumes "no_foreign_tokens env"
  shows "tokens_in_process (snd (snd (authorize_token env refs rs t s))) = tokens_in_process s"
proof -
  have "tokens_in_process (fold (\<lambda>e s. if map_of (evses s) e \<noteq> None then notify_evse env e t' r s else s)
      es s') = tokens_in_process s'" for es t' r s'
    by (induction es arbitrary: s') (auto simp: tokens_notify [OF assms])
  then have "tokens_in_process (notify_rejected env t' r s') = tokens_in_process s'" for t' r s'
    by (simp add: notify_rejected_def split: option.splits)
  with tokens_loop [OF assms, of "filter (\<lambda>e. ec_identifier (evse_of s e) = None) refs" rs
      unknown_result t s]
  show ?thesis by (auto simp: authorize_token_def Let_def split: authorize_outcome.splits)
qed

lemma tokens_stop:
  "stop_with_parent_id_token s t refs rs = Some (res, t', s') \<Longrightarrow>
   tokens_in_process s' = tokens_in_process s"
proof (induction rs)
  case (Cons r rs)
  have "tokens_in_process (fold (\<lambda>e. stop_transaction e MasterPass (Some t)) es s) =
      tokens_in_process s" for es
    by (induction es arbitrary: s) (simp_all add: stop_transaction_def)
  with Cons show ?case
    by (auto simp: Let_def stop_by_master_pass_def stop_by_parent_def stop_transaction_def
        split: option.splits if_splits)
qed simp

lemma tokens_handle:
  assumes "no_foreign_tokens env"
  shows "tokens_in_process (snd (snd (handle_token env t s))) = tokens_in_process s"
proof -
  let ?s = "snd (validate_provided_token env t s)"
  have v: "tokens_in_process ?s = tokens_in_process s"
    using assms by (simp add: validate_provided_token_def no_foreign_tokens_def)
  have "tokens_in_process (snd (snd (handle_validated_token env refs rs t ?s))) = tokens_in_process s"
    for refs rs
    using tokens_authorize [OF assms, of refs rs t ?s] tokens_stop [of ?s t refs rs] v
    by (auto simp: handle_validated_token_def Let_def split: option.splits)
  moreover have "tokens_in_process (snd (snd (handle_reswipe s t e))) = tokens_in_process s" for e
    by (simp add: handle_reswipe_def Let_def stop_transaction_def)
  ultimately show ?thesis by (simp add: handle_token_def Let_def case_prod_beta)
qed

text \<open>The token that is handled keeps its id token on every path.\<close>

primrec outcome_token :: "authorize_outcome \<Rightarrow> ProvidedIdToken" where
  "outcome_token (Loop_Return result token s) = token"
| "outcome_token (Loop_Done ok result token s) = token"

lemma id_attempt: "pt_id_token (outcome_token (attempt_authorization env refs r t s)) = pt_id_token t"
proof (cases "attempt_authorization env refs r t s")
  case (Loop_Done ok r' t' s')
  from attempt_token [OF Loop_Done] Loop_Done show ?thesis by simp
next
  case (Loop_Return res t' s')
  then have "t' = t \<or> t' = with_parent r t"
    by (auto simp: attempt_authorization_def with_parent_def Let_def case_prod_beta
        split: if_split_asm option.split_asm SelectEvseResult.split_asm)
  with Loop_Return show ?thesis by auto
qed

lemma id_loop: "pt_id_token (outcome_token (authorize_loop env refs rs r t s)) = pt_id_token t"
proof (induction rs arbitrary: r t s)
  case (Cons r' rs)
  with id_attempt [of env refs r' t s] show ?case by (auto split: authorize_outcome.splits)
qed simp

lemma id_authorize: "pt_id_token (fst (snd (authorize_token env refs rs t s))) = pt_id_token t"
  using id_loop [of env "filter (\<lambda>e. ec_identifier (evse_of s e) = None) refs" rs unknown_result t s]
  by (auto simp: authorize_token_def Let_def split: authorize_outcome.splits)

lemma id_stop: "stop_with_parent_id_token s t refs rs = Some out \<Longrightarrow> pt_id_token (fst (snd out)) = pt_id_token t"
  by (induction rs) (auto simp: Let_def stop_by_master_pass_def stop_by_parent_def
      split: option.splits if_splits)

lemma id_handle: "pt_id_token (fst (snd (handle_token env t s))) = pt_id_token t"
proof -
  have "pt_id_token (fst (snd (handle_validated_token env refs rs t u))) = pt_id_token t" for refs rs u
    using id_stop [of u t refs rs]
    by (simp add: handle_validated_token_def Let_def id_authorize split: option.split)
  moreover have "pt_id_token (fst (snd (handle_reswipe s t e))) = pt_id_token t" for e
    by (simp add: handle_reswipe_def Let_def)
  ultimately show ?thesis by (simp add: handle_token_def Let_def case_prod_beta)
qed

lemma already_in_process_iff:
  "is_token_already_in_process s t refs \<longleftrightarrow>
   (\<exists>x\<in>set (tokens_in_process s). tok_value (pt_id_token x) = tok_value (pt_id_token t)) \<or>
   (\<exists>e\<in>set refs. \<not> ec_transaction_active (evse_of s e) \<and>
      (\<exists>i. ec_identifier (evse_of s e) = Some i \<and> id_token_equal (ident_id_token i) (pt_id_token t)))"
  by (auto simp: is_token_already_in_process_def in_process_def list_ex_iff Let_def split: option.splits)

lemma on_token_outcome:
  assumes "no_foreign_tokens env"
    and "handle_token env t (publish_token_validation_status t TokProcessing [] (insert_in_process t s)) =
      (result, t', u)"
  shows "if \<not> publish_callback_registered s then on_token env t s = (Some REJECTED, s)
    else if is_token_already_in_process s t (get_referenced_evses s t)
    then on_token env t s = (Some ALREADY_IN_PROCESS, s)
    else case result of
        None \<Rightarrow> on_token env t s = (None, u) \<and> tokens_in_process u = tokens_in_process s @ [t]
      | Some r \<Rightarrow> pt_id_token t' = pt_id_token t \<and>
          on_token env t s = (Some r, u\<lparr>tokens_in_process := tokens_in_process s,
            calls := calls u @ (case map_of [(TIMEOUT, TokTimedOut), (NO_CONNECTOR_AVAILABLE, TokRejected),
                (REJECTED, TokRejected), (USED_TO_START_TRANSACTION, TokUsedToStart),
                (USED_TO_STOP_TRANSACTION, TokUsedToStop), (WITHDRAWN, TokWithdrawn),
                (USED_TO_REAUTHORIZE, TokUsedToReauthorize)] r of
              Some status \<Rightarrow> [Publish_Status t' status []] | None \<Rightarrow> [])\<rparr>)"
proof (cases "publish_callback_registered s \<and> \<not> is_token_already_in_process s t (get_referenced_evses s t)")
  case False
  then show ?thesis by (auto simp: on_token_def publish_final_status_def)
next
  case True
  let ?s = "publish_token_validation_status t TokProcessing [] (insert_in_process t s)"
  have new: "\<not> in_process s t" using True by (auto simp: is_token_already_in_process_def)
  then have "tokens_in_process ?s = tokens_in_process s @ [t]"
    by (simp add: insert_in_process_def)
  then have u: "tokens_in_process u = tokens_in_process s @ [t]"
    using tokens_handle [OF assms(1), of t ?s] assms(2) by simp
  moreover have "filter (\<lambda>x. tok_value (pt_id_token x) \<noteq> tok_value (pt_id_token t))
      (tokens_in_process s @ [t]) = tokens_in_process s"
    using new by (auto simp: in_process_def list_ex_iff filter_id_conv)
  moreover have "final_status r = map_of [(TIMEOUT, TokTimedOut), (NO_CONNECTOR_AVAILABLE, TokRejected),
      (REJECTED, TokRejected), (USED_TO_START_TRANSACTION, TokUsedToStart),
      (USED_TO_STOP_TRANSACTION, TokUsedToStop), (WITHDRAWN, TokWithdrawn),
      (USED_TO_REAUTHORIZE, TokUsedToReauthorize)] r" for r by (cases r) simp_all
  moreover have "pt_id_token t' = pt_id_token t" using id_handle [of env t ?s] assms(2) by simp
  ultimately show ?thesis
    using True assms(2)
    by (cases result) (simp_all add: on_token_def Let_def erase_in_process_def publish_final_status_def
        publish_token_validation_status_def emit_def)
qed

text \<open>
  C23. Every token is processed once. Without a callback for the status every token is rejected without
  any effect. A token that is in process, or that has already been granted an authorization at a
  referenced EVSE whose transaction has not started, is refused without any call or change. Otherwise the
  token is entered among the tokens in process, the processing is announced, and the token is handled
  (outcome \<open>result\<close>, token \<open>t'\<close> with the same id token, state \<open>u\<close>). If the handling leaves by an exception,
  no status is published and the token stays in process. If it returns, the tokens in process are as
  before, and the calls made are those of the handling and then the announcement of the final status of
  the handled token, the one that belongs to the result; for the result that it is already in process no
  status is announced. The other threads are assumed not to add or remove tokens in process while they
  run during this handling.
\<close>

theorem token_processed_once:
  assumes "no_foreign_tokens env"
    and "handle_token env t (publish_token_validation_status t TokProcessing [] (insert_in_process t s)) =
      (result, t', u)"
  shows "if \<not> publish_callback_registered s then on_token env t s = (Some REJECTED, s)
    else if (\<exists>x\<in>set (tokens_in_process s). tok_value (pt_id_token x) = tok_value (pt_id_token t)) \<or>
      (\<exists>e\<in>set (get_referenced_evses s t). \<not> ec_transaction_active (evse_of s e) \<and>
         (\<exists>i. ec_identifier (evse_of s e) = Some i \<and> id_token_equal (ident_id_token i) (pt_id_token t)))
    then on_token env t s = (Some ALREADY_IN_PROCESS, s)
    else case result of
        None \<Rightarrow> on_token env t s = (None, u) \<and> tokens_in_process u = tokens_in_process s @ [t]
      | Some r \<Rightarrow> pt_id_token t' = pt_id_token t \<and>
          on_token env t s = (Some r, u\<lparr>tokens_in_process := tokens_in_process s,
            calls := calls u @ (case map_of [(TIMEOUT, TokTimedOut), (NO_CONNECTOR_AVAILABLE, TokRejected),
                (REJECTED, TokRejected), (USED_TO_START_TRANSACTION, TokUsedToStart),
                (USED_TO_STOP_TRANSACTION, TokUsedToStop), (WITHDRAWN, TokWithdrawn),
                (USED_TO_REAUTHORIZE, TokUsedToReauthorize)] r of
              Some status \<Rightarrow> [Publish_Status t' status []] | None \<Rightarrow> [])\<rparr>)"
  using on_token_outcome [OF assms] unfolding already_in_process_iff .

theorem token_processed_once_witness:
  "fst (on_token (idle_env accepting_validator) example_token example_station) = Some USED_TO_START_TRANSACTION
   \<and> tokens_in_process (snd (on_token (idle_env accepting_validator) example_token example_station)) = []"
proof -
  let ?s = "publish_token_validation_status example_token TokProcessing []
    (insert_in_process example_token example_station)"
  let ?h = "handle_token (idle_env accepting_validator) example_token ?s"
  have quiet: "no_foreign_tokens (idle_env accepting_validator)"
    by (simp add: no_foreign_tokens_def idle_env_def)
  have h: "?h = (fst ?h, fst (snd ?h), snd (snd ?h))" by simp
  have "fst ?h = Some USED_TO_START_TRANSACTION" by code_simp
  moreover have "publish_callback_registered example_station" by code_simp
  moreover have "\<not> is_token_already_in_process example_station example_token
      (get_referenced_evses example_station example_token)" by code_simp
  moreover have "tokens_in_process example_station = []" by code_simp
  ultimately show ?thesis
    using token_processed_once [OF quiet h, folded already_in_process_iff] by simp
qed

subsection \<open>Withdrawal of authorizations\<close>

text \<open>
  The calls that withdraw the authorization granted at an EVSE: a running transaction is stopped;
  otherwise the authorization is withdrawn and the withdrawal of its token announced.
\<close>

definition withdrawal_calls :: "EVSEContext \<Rightarrow> auth_call list" where
  "withdrawal_calls evse =
     (if ec_transaction_active evse
      then [Stop_Transaction (ec_evse_index evse) \<lparr>stop_reason = DeAuthorized, stop_id_tag = None\<rparr>]
      else Withdraw_Authorization (ec_evse_index evse) #
        (case ec_identifier evse of
           Some i \<Rightarrow> [Publish_Status
             \<lparr>pt_request_id = None, pt_id_token = ident_id_token i,
              pt_parent_id_token = ident_parent_id_token i, pt_authorization_type = ident_type i,
              pt_connectors = Some [ec_evse_id evse], pt_prevalidated = None\<rparr> TokWithdrawn []]
         | None \<Rightarrow> []))"

lemma withdraw_one:
  "withdraw_authorization_or_stop_transaction evse s = s\<lparr>calls := calls s @ withdrawal_calls evse\<rparr>"
  by (simp add: withdraw_authorization_or_stop_transaction_def emit_def Let_def withdrawal_calls_def
      publish_token_validation_status_def bare_token_def split: option.splits)

lemma withdraw_all:
  "fold withdraw_authorization_or_stop_transaction es s =
     s\<lparr>calls := calls s @ concat (map withdrawal_calls es)\<rparr>"
  by (induction es arbitrary: s) (simp_all add: withdraw_one)

definition withdraw_targets ::
  "WithdrawAuthorizationRequest \<Rightarrow> (int, EVSEContext) omap \<Rightarrow> EVSEContext list" where
  "withdraw_targets request es = map snd (filter (\<lambda>(e, evse).
     (wr_evse_id request = None \<or> wr_evse_id request = Some e) \<and>
     granted_to (wr_id_token request) evse) es)"

lemma granted_to_iff:
  "granted_to id_token evse \<longleftrightarrow> (\<exists>i. ec_identifier evse = Some i \<and>
     (\<forall>t. id_token = Some t \<longrightarrow> id_token_equal t (ident_id_token i)))"
  by (auto simp: granted_to_def split: option.splits)

lemma withdraw_granted_targets:
  assumes "omap_wf (evses s)" "\<And>e. wr_evse_id request = Some e \<Longrightarrow> e \<in> fst ` set (evses s)"
  shows "withdraw_granted request result s =
    (if withdraw_targets request (evses s) = [] then result else WAccepted,
     fold withdraw_authorization_or_stop_transaction (withdraw_targets request (evses s)) s)"
proof (cases "wr_evse_id request")
  case None
  then show ?thesis
    by (simp add: withdraw_granted_def withdraw_targets_def filter_map comp_def split_def)
next
  case (Some e)
  obtain evse where evse: "map_of (evses s) e = Some evse"
    using assms(2) [OF Some] by (metis map_of_eq_None_iff not_None_eq)
  have "(\<lambda>(k, v). (wr_evse_id request = None \<or> wr_evse_id request = Some k) \<and>
      granted_to (wr_id_token request) v) = (\<lambda>(k, v). k = e \<and> granted_to (wr_id_token request) v)"
    by (auto simp: Some)
  then have "filter (granted_to (wr_id_token request)) [evse_of s e] = withdraw_targets request (evses s)"
    by (simp add: withdraw_targets_def omap_filter_key [OF assms(1) evse] evse_of_def evse)
  then show ?thesis by (simp only: withdraw_granted_def Let_def Some option.case)
qed

lemma referenced_withdraw_request [simp]:
  "get_referenced_evses (s\<lparr>withdraw_request := w\<rparr>) t = get_referenced_evses s t"
  by (simp add: get_referenced_evses_def split: option.split)

text \<open>
  C24. A request to withdraw authorizations reaches exactly the EVSEs it targets. If it names an unknown
  EVSE, the answer is that there is none and nothing happens. If a token in process is targeted, the
  request is held while the handler waits, and the handler goes on, in the state \<open>u\<close> at the end of the
  wait, only once no such token is left; it does not return before. Then the request is dropped, and the
  calls made are, for each EVSE in the order of the map whose granted authorization matches the EVSE and
  the token of the request: the stop of its transaction as deauthorized if one is running, otherwise the
  withdrawal and the announcement that its token is withdrawn. Nothing else is called or changed. The
  answer is accepted if there was such an EVSE or a token in process was targeted, and otherwise that
  there is no such authorization. The other threads add and remove no EVSE.
\<close>

theorem withdrawal_reaches_targets:
  assumes "omap_wf (evses s)"
    and "\<forall>s. map fst (evses (during_withdraw_wait env s)) = map fst (evses s)"
    and "waits = is_withdraw_request_targeting_token_in_process s request"
    and "u = (if waits then during_withdraw_wait env (s\<lparr>withdraw_request := Some request\<rparr>) else s)"
    and "targets = map snd (filter (\<lambda>(e, evse). (wr_evse_id request = None \<or> wr_evse_id request = Some e) \<and>
         (\<exists>i. ec_identifier evse = Some i \<and>
            (\<forall>t. wr_id_token request = Some t \<longrightarrow> id_token_equal t (ident_id_token i)))) (evses u))"
  shows "handle_withdraw_authorization env request s =
    (if \<exists>e. wr_evse_id request = Some e \<and> e \<notin> fst ` set (evses s) then Some (WEvseNotFound, s)
     else if waits \<and> is_withdraw_request_targeting_token_in_process u request then None
     else Some (if targets = [] \<and> \<not> waits then WAuthorizationNotFound else WAccepted,
       u\<lparr>withdraw_request := None, calls := calls u @ concat (map withdrawal_calls targets)\<rparr>))"
proof (cases "\<exists>e. wr_evse_id request = Some e \<and> e \<notin> fst ` set (evses s)")
  case True
  then show ?thesis
    by (auto simp: handle_withdraw_authorization_def map_of_eq_None_iff)
next
  case False
  have keys: "map fst (evses u) = map fst (evses s)" using assms(2,4) by simp
  then have wf: "omap_wf (evses u)" using assms(1) by (simp add: omap_wf_def)
  have known: "e \<in> fst ` set (evses u)" if "wr_evse_id request = Some e" for e
    using False that keys by (metis list.set_map)
  have "targets = withdraw_targets request (evses u)"
    by (simp add: assms(5) withdraw_targets_def granted_to_iff)
  then have granted: "withdraw_granted request result (u\<lparr>withdraw_request := None\<rparr>) =
      (if targets = [] then result else WAccepted,
       u\<lparr>withdraw_request := None, calls := calls u @ concat (map withdrawal_calls targets)\<rparr>)" for result
    using withdraw_granted_targets [of "u\<lparr>withdraw_request := None\<rparr>" request result] wf known
    by (simp add: withdraw_all)
  have found: "\<not> (case wr_evse_id request of Some e \<Rightarrow> map_of (evses s) e = None | None \<Rightarrow> False)"
    using False by (auto simp: map_of_eq_None_iff split: option.splits)
  have held: "is_withdraw_request_targeting_token_in_process (s\<lparr>withdraw_request := w\<rparr>) request = waits" for w
    by (simp add: assms(3) is_withdraw_request_targeting_token_in_process_def)
  show ?thesis
  proof (cases waits)
    case True
    with False found held granted [of WAccepted] assms(4) show ?thesis
      by (simp add: handle_withdraw_authorization_def Let_def)
  next
    case waits: False
    with False found held granted [of WAuthorizationNotFound] assms(4) show ?thesis
      by (simp add: handle_withdraw_authorization_def Let_def)
  qed
qed

definition withdraw_at_1 :: WithdrawAuthorizationRequest where
  "withdraw_at_1 = \<lparr>wr_evse_id = Some 1, wr_id_token = None\<rparr>"

theorem withdrawal_reaches_targets_witness:
  "map_option fst (handle_withdraw_authorization (idle_env accepting_validator) withdraw_at_1
     charging_station) = Some WAccepted"
proof -
  have "\<not> is_withdraw_request_targeting_token_in_process charging_station withdraw_at_1" by code_simp
  moreover have "omap_wf (evses charging_station)" by code_simp
  moreover have "fst ` set (evses charging_station) = {1, 2}" by code_simp
  moreover have "\<exists>x\<in>set (evses charging_station). fst x = 1 \<and> ec_identifier (snd x) \<noteq> None" by code_simp
  moreover have "\<forall>s. map fst (evses (during_withdraw_wait (idle_env accepting_validator) s)) =
      map fst (evses s)" by (simp add: idle_env_def)
  ultimately show ?thesis
    using withdrawal_reaches_targets [of charging_station "idle_env accepting_validator"
        "is_withdraw_request_targeting_token_in_process charging_station withdraw_at_1" withdraw_at_1
        charging_station]
    by (fastforce simp: withdraw_at_1_def filter_empty_conv split: if_splits)
qed

subsection \<open>Reservations the EVSE manager refuses\<close>

definition reserved_ids :: "auth_handler \<Rightarrow> int set" where
  "reserved_ids s = res_reservation_id ` set (all_reservations s)"

lemma reserved_ids_unchanged [simp]:
  "reserved_ids (emit c s) = reserved_ids s"
  "reserved_ids (check_evse_reserved_and_send_updates s) = reserved_ids s"
  by (simp_all add: reserved_ids_def all_reservations_def)

lemma drop_replaced_ids:
  assumes "\<forall>n s. i \<notin> reserved_ids s \<longrightarrow> i \<notin> reserved_ids (between_sections env n s)" "i \<notin> reserved_ids s"
  shows "i \<notin> reserved_ids (snd (cancel_replaced_if_dropped env i (e, s)))"
  using assms by (simp add: cancel_replaced_if_dropped_def call_reservation_cancelled_unlocked_def Let_def
      split: option.split)

text \<open>
  C12. A reservation that the EVSE manager refuses is taken back: if the reservation handler accepted the
  reservation but the command does not answer so, the answer is that it is rejected, no reservation with
  its id is in force afterwards and no timer runs for it, whatever the other threads did while the
  manager was called and between the sections of the command, as long as none of them places a
  reservation with the same id anew.
\<close>

theorem refused_by_manager_not_in_force:
  assumes "other_threads env" "handler_wf s"
    and "\<forall>n s. res_reservation_id r \<notin> res_reservation_id ` set (all_reservations s) \<longrightarrow>
      res_reservation_id r \<notin> res_reservation_id ` set (all_reservations (between_sections env n s))"
    and "fst (handle_reservation now r (between_sections env 3 s)) = RAccepted"
    and "place_reservation env now r s = (result, s')" "result \<noteq> RAccepted"
  shows "result = RRejected \<and> res_reservation_id r \<notin> res_reservation_id ` set (all_reservations s') \<and>
    map_of (reservation_timers s') (res_reservation_id r) = None"
proof -
  let ?i = "res_reservation_id r"
  have others: "\<forall>n s. ?i \<notin> reserved_ids s \<longrightarrow> ?i \<notin> reserved_ids (between_sections env n s)"
    using assms(3) by (simp add: reserved_ids_def)
  note keep = other_threads.keep_between [OF assms(1)]
  obtain s1 where s1: "handle_reservation now r (between_sections env 3 s) = (RAccepted, s1)"
    using assms(4) by (metis prod.collapse)
  obtain rep s2 where s2: "cancel_replaced_if_dropped env ?i
      (map_option to_s32 (get_evse_id_of_reservation s ?i), between_sections env 4 s1) = (rep, s2)" by fastforce
  obtain ok s3 where s3: "call_reserved env ?i (res_evse_id r) (between_sections env 5 s2) = (ok, s3)"
    by fastforce
  let ?s3 = "between_sections env 6 s3"
  have "handler_wf s1" using wf_handle_reservation [OF keep [OF assms(2)], of now r] s1 by (metis snd_conv)
  then have "handler_wf s2" using other_threads.rely_cancel_replaced [OF assms(1) keep] s2 by (metis snd_conv)
  then have "handler_wf s3" using other_threads.rely_call_reserved [OF assms(1) keep] s3 by (metis snd_conv)
  then have wf: "handler_wf ?s3" by (rule keep)
  have "snd (handle_cancel_reservation ?i ?s3) = cancelled ?s3 ?i False Cancelled"
    by (simp add: handle_cancel_reservation_def Let_def case_prod_beta)
  then have s': "result = RRejected" "s' = snd (cancel_replaced_if_dropped env ?i
      (rep, between_sections env 7 (cancelled ?s3 ?i False Cancelled)))"
    using assms(5,6) by (auto simp: place_reservation_def Let_def s1 s2 s3 split: if_splits)
  have "?i \<notin> reserved_ids (cancelled ?s3 ?i False Cancelled)"
    using wf by (auto simp: handler_wf_def cancelled_all_reservations reserved_ids_def)
  with others drop_replaced_ids [OF others] have free: "?i \<notin> reserved_ids s'" by (simp add: s')
  have "handler_wf s'" unfolding s'(2)
    by (intro other_threads.rely_cancel_replaced [OF assms(1)] keep cancelled_handler_wf wf)
  with free s'(1) show ?thesis
    by (auto simp: reserved_ids_def handler_wf_def reservations_wf_def map_of_eq_None_iff)
qed

definition refusing_station :: auth_handler where
  "refusing_station = example_station\<lparr>manager_accepts := \<lambda>_. False\<rparr>"

theorem refused_by_manager_not_in_force_witness:
  "fst (place_reservation (idle_env accepting_validator) 0 (example_reservation 7 (Some cType2)) refusing_station) = RRejected
   \<and> map_of (reservation_timers
       (snd (place_reservation (idle_env accepting_validator) 0 (example_reservation 7 (Some cType2)) refusing_station))) 7 = None"
proof -
  have "handler_wf example_station"
    using auth_init_wf by (simp add: example_station_def register_publish_token_validation_status_callback_def)
  then have "handler_wf refusing_station"
    by (subst handler_wf_cong [of _ example_station]) (simp_all add: refusing_station_def)
  moreover have "fst (handle_reservation 0 (example_reservation 7 (Some cType2)) refusing_station) = RAccepted" by code_simp
  moreover have "fst (place_reservation (idle_env accepting_validator) 0 (example_reservation 7 (Some cType2))
      refusing_station) \<noteq> RAccepted" by code_simp
  ultimately show ?thesis
    using refused_by_manager_not_in_force [OF idle_threads.other_threads_axioms, of refusing_station
        "example_reservation 7 (Some cType2)" accepting_validator 0]
    by (auto simp: prod_eq_iff example_reservation_def idle_env_def)
qed

end
