(* ===== verification/Ocpp_String.thy ===== *)
theory Ocpp_String
  imports Prelude
begin

text \<open>
  The length limited strings of the OCPP library, after \<^verbatim>\<open>ocpp/common/string.hpp\<close> and
  \<^verbatim>\<open>ocpp/common/cistring.hpp\<close>. A \<^verbatim>\<open>CiString<L>\<close> is its character sequence; the maximal length is
  an argument of the operations. The comparison \<open>iequals\<close> is that of the boost library and a
  parameter; what is used of it is that it ignores the case.
\<close>

datatype StringTooLarge = Throw | Truncate

datatype string_error = StringConversionException

text \<open>
  \<^verbatim>\<open>String<L>::is_valid\<close>. It is not virtual: \<^verbatim>\<open>String<L>::set\<close> calls this one also for a
  \<^verbatim>\<open>CiString<L>\<close>, whose own \<^verbatim>\<open>is_valid\<close> only hides it.
\<close>

definition string_is_valid :: "string \<Rightarrow> bool" where
  "string_is_valid data = True"

text \<open>\<^verbatim>\<open>CiString<L>::is_valid\<close>, which throws where this is \<open>False\<close>. The type char is signed.\<close>

definition signed_char :: "char \<Rightarrow> int" where
  "signed_char c = (let n = int (of_char c) in if n < 128 then n else n - 256)"

definition cistring_is_valid :: "string \<Rightarrow> bool" where
  "cistring_is_valid data =
     list_all (\<lambda>c. \<not> ((signed_char c < 32 \<or> signed_char c > 126) \<and> signed_char c \<noteq> 10)) data"

definition string_set :: "nat \<Rightarrow> string \<Rightarrow> StringTooLarge \<Rightarrow> string_error + string" where
  "string_set L data too_large =
     (if length data > L \<and> too_large = Throw then Inl StringConversionException
      else
        let view = (if length data > L then take L data else data)
        in if string_is_valid view then Inr view else Inl StringConversionException)"

definition ci_string :: "nat \<Rightarrow> string \<Rightarrow> StringTooLarge \<Rightarrow> string_error + string" where
  "ci_string L data too_large = string_set L data too_large"

text \<open>A truncating construction does not throw.\<close>

definition ci_truncated :: "nat \<Rightarrow> string \<Rightarrow> string" where
  "ci_truncated L data = (case ci_string L data Truncate of Inr s \<Rightarrow> s | Inl e \<Rightarrow> [])"

definition ci_eq :: "(string \<Rightarrow> string \<Rightarrow> bool) \<Rightarrow> string \<Rightarrow> string \<Rightarrow> bool" where
  "ci_eq iequals lhs rhs = iequals lhs rhs"

definition ci_ne :: "string \<Rightarrow> string \<Rightarrow> bool" where
  "ci_ne lhs rhs = (\<not> lhs = rhs)"

text \<open>\<^verbatim>\<open>operator==\<close> of optional values.\<close>

definition optional_ci_eq ::
  "(string \<Rightarrow> string \<Rightarrow> bool) \<Rightarrow> string option \<Rightarrow> string option \<Rightarrow> bool" where
  "optional_ci_eq iequals lhs rhs = (case (lhs, rhs) of
       (Some l, Some r) \<Rightarrow> ci_eq iequals l r
     | (None, None) \<Rightarrow> True
     | _ \<Rightarrow> False)"

lemma ci_truncated_eq [simp]: "ci_truncated L data = take L data"
  by (simp add: ci_truncated_def ci_string_def string_set_def string_is_valid_def)

text \<open>
  A string type of maximal length \<open>L\<close> never holds more than \<open>L\<close> characters: construction from too
  long data throws or cuts it off after the first \<open>L\<close> characters, as asked for, and shorter data is kept
  as it is. These are the only outcomes.
\<close>

lemma ci_string_bounded:
  "ci_string L data too_large =
     (if length data \<le> L then Inr data
      else if too_large = Throw then Inl StringConversionException
      else Inr (take L data)) \<and>
   (\<forall>s. ci_string L data too_large = Inr s \<longrightarrow> length s \<le> L)"
  by (auto simp: ci_string_def string_set_def string_is_valid_def Let_def)

text \<open>
  The restriction of case insensitive strings to printable characters is without effect: a string that
  the check of the class refuses (here, with a control character) is accepted by the constructor.
\<close>

lemma cistring_accepts_unprintable:
  "\<not> cistring_is_valid [CHR 0x07]" "ci_string 50 [CHR 0x07] Throw = Inr [CHR 0x07]"
  by code_simp+

text \<open>
  The two comparisons of case insensitive strings contradict each other: for two strings that differ,
  but only in case, both the operator for equality and the one for inequality are true.
\<close>

lemma ci_comparisons_contradict:
  "iequals lhs rhs \<Longrightarrow> lhs \<noteq> rhs \<Longrightarrow> ci_eq iequals lhs rhs \<and> ci_ne lhs rhs"
  by (simp add: ci_eq_def ci_ne_def)

end
