(* ===== verification/Charge_Point_FSM.thy ===== *)
theory Charge_Point_FSM
  imports Ocpp_String
begin

text \<open>
  The connector status machine of OCPP 1.6, after
  \<^verbatim>\<open>lib/everest/ocpp/lib/ocpp/v16/charge_point_state_machine.cpp\<close>: \<^verbatim>\<open>ChargePointFSM\<close> for one connector
  and \<^verbatim>\<open>ChargePointStates\<close> for the connectors of a charge point. The calls of the status notification
  callback are recorded in the ghost field \<open>notifications\<close> of the machine.

  What the code takes from elsewhere is in the record \<open>fsm_env\<close>: the current time, the comparison of
  strings that ignores the case, and the order in which an unordered map is iterated.
\<close>

subsection \<open>States, events, transitions\<close>

datatype ChargePointStatus =
  Available | Preparing | Charging | SuspendedEVSE | SuspendedEV | Finishing | Reserved
| Unavailable | Faulted

datatype ChargePointErrorCode =
  ConnectorLockFailure | EVCommunicationError | GroundFailure | HighTemperature | InternalError
| LocalListConflict | NoError | OtherError | OverCurrentFailure | PowerMeterFailure
| PowerSwitchFailure | ReaderFailure | ResetFailure | UnderVoltage | OverVoltage | WeakSignal

datatype FSMEvent =
  BecomeAvailable | UsageInitiated | StartCharging | PauseChargingEV | PauseChargingEVSE
| ReserveConnector | TransactionStoppedAndUserActionRequired | ChangeAvailabilityToUnavailable
| FSMReservationEnd | I1_ReturnToAvailable | I2_ReturnToPreparing | I3_ReturnToCharging
| I4_ReturnToSuspendedEV | I5_ReturnToSuspendedEVSE | I6_ReturnToFinishing | I7_ReturnToReserved
| I8_ReturnToUnavailable

type_synonym FSMStateTransitions = "(FSMEvent \<times> ChargePointStatus) list"
type_synonym FSMDefinition = "(ChargePointStatus \<times> FSMStateTransitions) list"

definition FSM_DEF :: FSMDefinition where
  "FSM_DEF =
    [(Available,
       [(UsageInitiated, Preparing), (StartCharging, Charging), (PauseChargingEV, SuspendedEV),
        (PauseChargingEVSE, SuspendedEVSE), (ReserveConnector, Reserved),
        (ChangeAvailabilityToUnavailable, Unavailable)]),
     (Preparing,
       [(BecomeAvailable, Available), (StartCharging, Charging), (PauseChargingEV, SuspendedEV),
        (PauseChargingEVSE, SuspendedEVSE), (TransactionStoppedAndUserActionRequired, Finishing)]),
     (Charging,
       [(BecomeAvailable, Available), (PauseChargingEV, SuspendedEV),
        (PauseChargingEVSE, SuspendedEVSE), (TransactionStoppedAndUserActionRequired, Finishing),
        (ChangeAvailabilityToUnavailable, Unavailable)]),
     (SuspendedEV,
       [(BecomeAvailable, Available), (StartCharging, Charging), (PauseChargingEVSE, SuspendedEVSE),
        (TransactionStoppedAndUserActionRequired, Finishing),
        (ChangeAvailabilityToUnavailable, Unavailable)]),
     (SuspendedEVSE,
       [(BecomeAvailable, Available), (StartCharging, Charging), (PauseChargingEV, SuspendedEV),
        (PauseChargingEVSE, SuspendedEVSE), (TransactionStoppedAndUserActionRequired, Finishing),
        (ChangeAvailabilityToUnavailable, Unavailable)]),
     (Finishing,
       [(BecomeAvailable, Available), (UsageInitiated, Preparing),
        (ChangeAvailabilityToUnavailable, Unavailable)]),
     (Reserved,
       [(BecomeAvailable, Available), (UsageInitiated, Preparing),
        (ChangeAvailabilityToUnavailable, Unavailable), (FSMReservationEnd, Available)]),
     (Unavailable,
       [(BecomeAvailable, Available), (UsageInitiated, Preparing), (StartCharging, Charging),
        (PauseChargingEV, SuspendedEV), (PauseChargingEVSE, SuspendedEVSE)]),
     (Faulted,
       [(I1_ReturnToAvailable, Available), (I2_ReturnToPreparing, Preparing),
        (I3_ReturnToCharging, Charging), (I4_ReturnToSuspendedEV, SuspendedEV),
        (I5_ReturnToSuspendedEVSE, SuspendedEVSE), (I6_ReturnToFinishing, Finishing),
        (I7_ReturnToReserved, Reserved), (I8_ReturnToUnavailable, Unavailable)])]"

text \<open>The definition for connector 0. No function refers to it.\<close>

definition FSM_DEF_CONNECTOR_ZERO :: FSMDefinition where
  "FSM_DEF_CONNECTOR_ZERO =
    [(Available, [(ChangeAvailabilityToUnavailable, Unavailable)]),
     (Unavailable, [(BecomeAvailable, Available)]),
     (Faulted, [(I1_ReturnToAvailable, Available), (I8_ReturnToUnavailable, Unavailable)])]"

subsection \<open>Errors\<close>

record ErrorInfo =
  err_uuid :: string
  err_error_code :: ChargePointErrorCode
  err_is_fault :: bool
  err_info :: "string option"
  err_vendor_id :: "string option"
  err_vendor_error_code :: "string option"
  err_timestamp :: int

definition new_error_info ::
  "int \<Rightarrow> string \<Rightarrow> ChargePointErrorCode \<Rightarrow> bool \<Rightarrow> ErrorInfo" where
  "new_error_info now uuid error_code is_fault =
     \<lparr>err_uuid = uuid, err_error_code = error_code, err_is_fault = is_fault, err_info = None,
      err_vendor_id = None, err_vendor_error_code = None, err_timestamp = now\<rparr>"

definition error_info_full ::
  "int \<Rightarrow> string \<Rightarrow> ChargePointErrorCode \<Rightarrow> bool \<Rightarrow> string option \<Rightarrow> string option \<Rightarrow> string option \<Rightarrow>
     ErrorInfo" where
  "error_info_full now uuid error_code is_fault info vendor_id vendor_error_code =
     (new_error_info now uuid error_code is_fault)
       \<lparr>err_info := map_option (ci_truncated 50) info,
        err_vendor_id := map_option (ci_truncated 255) vendor_id,
        err_vendor_error_code := map_option (ci_truncated 50) vendor_error_code\<rparr>"

subsection \<open>The machine of a connector\<close>

record status_notification =
  sn_status :: ChargePointStatus
  sn_error_code :: ChargePointErrorCode
  sn_timestamp :: int
  sn_info :: "string option"
  sn_vendor_id :: "string option"
  sn_vendor_error_code :: "string option"

record fsm_env =
  env_now :: int
  env_iequals :: "string \<Rightarrow> string \<Rightarrow> bool"
  env_iteration :: "(string \<times> ErrorInfo) list \<Rightarrow> (string \<times> ErrorInfo) list"

record ChargePointFSM =
  fsm_state :: ChargePointStatus
  active_errors :: "(string \<times> ErrorInfo) list"
  report_cleared_errors :: bool
  last_emitted_info :: "string option"
  suspend_reason :: "string option"
  notifications :: "status_notification list"

definition new_fsm :: "ChargePointStatus \<Rightarrow> bool \<Rightarrow> ChargePointFSM" where
  "new_fsm initial_state report =
     \<lparr>fsm_state = initial_state, active_errors = [], report_cleared_errors = report,
      last_emitted_info = None, suspend_reason = None, notifications = []\<rparr>"

definition is_faulted :: "ChargePointFSM \<Rightarrow> bool" where
  "is_faulted m = list_ex (\<lambda>entry. err_is_fault (snd entry)) (active_errors m)"

definition fsm_get_state :: "ChargePointFSM \<Rightarrow> ChargePointStatus" where
  "fsm_get_state m = (if is_faulted m then Faulted else fsm_state m)"

definition get_suspend_reason :: "ChargePointFSM \<Rightarrow> string option" where
  "get_suspend_reason m = suspend_reason m"

text \<open>The loop keeps the first of the errors with the greatest timestamp, in the order of iteration.\<close>

definition later_error :: "ErrorInfo \<Rightarrow> string \<times> ErrorInfo \<Rightarrow> ErrorInfo" where
  "later_error latest entry =
     (if err_timestamp (snd entry) > err_timestamp latest then snd entry else latest)"

definition fsm_get_latest_error :: "fsm_env \<Rightarrow> ChargePointFSM \<Rightarrow> ErrorInfo option" where
  "fsm_get_latest_error env m =
     (case env_iteration env (active_errors m) of
        [] \<Rightarrow> None
      | entry # entries \<Rightarrow> Some (foldl later_error (snd entry) (entry # entries)))"

definition latest_error_or_none :: "fsm_env \<Rightarrow> ChargePointFSM \<Rightarrow> ErrorInfo" where
  "latest_error_or_none env m =
     (case fsm_get_latest_error env m of
        Some e \<Rightarrow> e | None \<Rightarrow> new_error_info (env_now env) [] NoError False)"

definition emit_status_notification :: "status_notification \<Rightarrow> ChargePointFSM \<Rightarrow> ChargePointFSM" where
  "emit_status_notification n m =
     m\<lparr>last_emitted_info := sn_info n, notifications := notifications m @ [n]\<rparr>"

text \<open>\<open>None\<close> is the exception of \<^verbatim>\<open>FSM_DEF.at(state)\<close>.\<close>

definition fsm_handle_event ::
  "fsm_env \<Rightarrow> FSMEvent \<Rightarrow> int \<Rightarrow> string option \<Rightarrow> ChargePointFSM \<Rightarrow> (bool \<times> ChargePointFSM) option" where
  "fsm_handle_event env event timestamp info m =
     (case map_of FSM_DEF (fsm_state m) of
        None \<Rightarrow> None
      | Some transitions \<Rightarrow>
          (case map_of transitions event of
             None \<Rightarrow> Some (False, m)
           | Some dest \<Rightarrow>
               if dest = fsm_state m \<and> optional_ci_eq (env_iequals env) info (last_emitted_info m)
               then Some (False, m)
               else
                 let m = m\<lparr>fsm_state := dest\<rparr>;
                     error_info = latest_error_or_none env m;
                     m = m\<lparr>suspend_reason := (if dest = SuspendedEVSE then info else None)\<rparr>
                 in Some (True,
                      if \<not> is_faulted m
                      then emit_status_notification
                             \<lparr>sn_status = dest, sn_error_code = err_error_code error_info,
                              sn_timestamp = timestamp, sn_info = info,
                              sn_vendor_id = err_vendor_id error_info,
                              sn_vendor_error_code = err_vendor_error_code error_info\<rparr> m
                      else m)))"

text \<open>A notification that reports an error with its own time and texts.\<close>

definition error_notification :: "ChargePointStatus \<Rightarrow> ErrorInfo \<Rightarrow> status_notification" where
  "error_notification status e =
     \<lparr>sn_status = status, sn_error_code = err_error_code e, sn_timestamp = err_timestamp e,
      sn_info = err_info e, sn_vendor_id = err_vendor_id e,
      sn_vendor_error_code = err_vendor_error_code e\<rparr>"

definition handle_error :: "ErrorInfo \<Rightarrow> ChargePointFSM \<Rightarrow> bool \<times> ChargePointFSM" where
  "handle_error error_info m =
     (if map_of (active_errors m) (err_uuid error_info) \<noteq> None then (False, m)
      else
        let m = m\<lparr>active_errors := (err_uuid error_info, error_info) # active_errors m\<rparr>
        in (True,
            if \<not> is_faulted m
            then emit_status_notification (error_notification (fsm_state m) error_info) m
            else emit_status_notification (error_notification Faulted error_info) m))"

text \<open>The report of a cleared error, once it is decided that and with which state it is sent.\<close>

definition cleared_notification ::
  "fsm_env \<Rightarrow> ErrorInfo \<Rightarrow> ChargePointStatus \<Rightarrow> ChargePointFSM \<Rightarrow> status_notification" where
  "cleared_notification env cleared_error status m =
     (let n = \<lparr>sn_status = status, sn_error_code = NoError, sn_timestamp = env_now env,
               sn_info = None, sn_vendor_id = None, sn_vendor_error_code = None\<rparr>;
          n = (if report_cleared_errors m
               then n\<lparr>sn_info := map_option (\<lambda>code. ci_truncated 50 (code @ '' resolved''))
                                   (err_vendor_error_code cleared_error),
                      sn_vendor_id := err_vendor_id cleared_error,
                      sn_vendor_error_code := err_vendor_error_code cleared_error\<rparr>
               else n)
      in case (if active_errors m \<noteq> [] then fsm_get_latest_error env m else None) of
           None \<Rightarrow> n
         | Some latest_error \<Rightarrow>
             if \<not> report_cleared_errors m
             then n\<lparr>sn_error_code := err_error_code latest_error, sn_info := err_info latest_error,
                    sn_vendor_id := err_vendor_id latest_error,
                    sn_vendor_error_code := err_vendor_error_code latest_error\<rparr>
             else n\<lparr>sn_error_code := err_error_code latest_error\<rparr>)"

definition handle_error_cleared ::
  "fsm_env \<Rightarrow> string \<Rightarrow> ChargePointFSM \<Rightarrow> bool \<times> ChargePointFSM" where
  "handle_error_cleared env uuid m =
     (case map_of (active_errors m) uuid of
        None \<Rightarrow> (False, m)
      | Some cleared_error \<Rightarrow>
          let m = m\<lparr>active_errors := filter (\<lambda>entry. fst entry \<noteq> uuid) (active_errors m)\<rparr>
          in if is_faulted m \<and> \<not> report_cleared_errors m then (False, m)
             else
               let status = (if is_faulted m then Faulted else fsm_state m)
               in (True, emit_status_notification (cleared_notification env cleared_error status m) m))"

definition handle_all_errors_cleared :: "fsm_env \<Rightarrow> ChargePointFSM \<Rightarrow> bool \<times> ChargePointFSM" where
  "handle_all_errors_cleared env m =
     (let m = m\<lparr>active_errors := []\<rparr>
      in (True, emit_status_notification
            \<lparr>sn_status = fsm_state m, sn_error_code = NoError, sn_timestamp = env_now env,
             sn_info = None, sn_vendor_id = None, sn_vendor_error_code = None\<rparr> m))"

definition fsm_trigger_status_notification :: "fsm_env \<Rightarrow> ChargePointFSM \<Rightarrow> ChargePointFSM" where
  "fsm_trigger_status_notification env m =
     (let error_info = latest_error_or_none env m
      in if \<not> is_faulted m
         then emit_status_notification (error_notification (fsm_state m) error_info) m
         else emit_status_notification (error_notification Faulted error_info) m)"

subsection \<open>The connectors of a charge point\<close>

datatype states_error =
    Invalid_Initial_Status | Out_Of_Range
  | Null_Pointer \<comment> \<open>connector 0 is used before the first reset\<close>

record ChargePointStates =
  state_machine_connector_zero :: "ChargePointFSM option"
  state_machines :: "ChargePointFSM list"
  states_report_cleared_errors :: bool

definition new_states :: "bool \<Rightarrow> ChargePointStates" where
  "new_states report =
     \<lparr>state_machine_connector_zero = None, state_machines = [], states_report_cleared_errors = report\<rparr>"

text \<open>
  The loop of \<^verbatim>\<open>reset\<close> over the connector ids from \<open>connector_id\<close> on, for the number of rounds left. An
  exception leaves what has been built so far.
\<close>

fun reset_loop ::
  "(int, ChargePointStatus) omap \<Rightarrow> nat \<Rightarrow> nat \<Rightarrow> ChargePointStates \<Rightarrow>
     states_error option \<times> ChargePointStates" where
  "reset_loop connector_status_map connector_id 0 s = (None, s)"
| "reset_loop connector_status_map connector_id (Suc rounds) s =
     (case map_of connector_status_map (min (int connector_id) (2 ^ 31 - 1)) of
        None \<Rightarrow> (Some Out_Of_Range, s)
      | Some initial_state \<Rightarrow>
          if connector_id = 0 \<and> initial_state \<noteq> Available \<and> initial_state \<noteq> Unavailable \<and>
             initial_state \<noteq> Faulted
          then (Some Invalid_Initial_Status, s)
          else
            let m = new_fsm initial_state (states_report_cleared_errors s)
            in reset_loop connector_status_map (Suc connector_id) rounds
                 (if connector_id = 0 then s\<lparr>state_machine_connector_zero := Some m\<rparr>
                  else s\<lparr>state_machines := state_machines s @ [m]\<rparr>))"

definition states_reset ::
  "(int, ChargePointStatus) omap \<Rightarrow> ChargePointStates \<Rightarrow> states_error option \<times> ChargePointStates" where
  "states_reset connector_status_map s =
     reset_loop connector_status_map 0 (length connector_status_map) (s\<lparr>state_machines := []\<rparr>)"

text \<open>
  The dispatch shared by the operations: connector 0 goes to its own machine, a valid id to the machine
  of the connector, any other id is ignored.
\<close>

definition on_connector ::
  "int \<Rightarrow> (ChargePointFSM \<Rightarrow> ChargePointFSM option) \<Rightarrow> ChargePointStates \<Rightarrow>
     states_error + ChargePointStates" where
  "on_connector connector_id f s =
     (if connector_id = 0 then
        (case state_machine_connector_zero s of
           None \<Rightarrow> Inl Null_Pointer
         | Some m \<Rightarrow> (case f m of None \<Rightarrow> Inl Out_Of_Range
                     | Some m' \<Rightarrow> Inr (s\<lparr>state_machine_connector_zero := Some m'\<rparr>)))
      else if connector_id > 0 \<and> nat connector_id \<le> length (state_machines s) then
        (let i = nat connector_id - 1
         in case f (state_machines s ! i) of None \<Rightarrow> Inl Out_Of_Range
            | Some m' \<Rightarrow> Inr (s\<lparr>state_machines := (state_machines s)[i := m']\<rparr>))
      else Inr s)"

definition states_submit_event ::
  "fsm_env \<Rightarrow> int \<Rightarrow> FSMEvent \<Rightarrow> int \<Rightarrow> string option \<Rightarrow> ChargePointStates \<Rightarrow>
     states_error + ChargePointStates" where
  "states_submit_event env connector_id event timestamp info =
     on_connector connector_id (\<lambda>m. map_option snd (fsm_handle_event env event timestamp info m))"

definition submit_error :: "int \<Rightarrow> ErrorInfo \<Rightarrow> ChargePointStates \<Rightarrow> states_error + ChargePointStates" where
  "submit_error connector_id error_info =
     on_connector connector_id (\<lambda>m. Some (snd (handle_error error_info m)))"

definition submit_error_cleared ::
  "fsm_env \<Rightarrow> int \<Rightarrow> string \<Rightarrow> ChargePointStates \<Rightarrow> states_error + ChargePointStates" where
  "submit_error_cleared env connector_id uuid =
     on_connector connector_id (\<lambda>m. Some (snd (handle_error_cleared env uuid m)))"

definition submit_all_errors_cleared ::
  "fsm_env \<Rightarrow> int \<Rightarrow> ChargePointStates \<Rightarrow> states_error + ChargePointStates" where
  "submit_all_errors_cleared env connector_id =
     on_connector connector_id (\<lambda>m. Some (snd (handle_all_errors_cleared env m)))"

text \<open>Unlike the others, this operation throws for an id without a machine.\<close>

definition states_trigger_status_notification ::
  "fsm_env \<Rightarrow> int \<Rightarrow> ChargePointStates \<Rightarrow> states_error + ChargePointStates" where
  "states_trigger_status_notification env connector_id s =
     (if connector_id \<noteq> 0 \<and> \<not> (connector_id > 0 \<and> nat connector_id \<le> length (state_machines s))
      then Inl Out_Of_Range
      else on_connector connector_id (\<lambda>m. Some (fsm_trigger_status_notification env m)) s)"

definition trigger_status_notifications ::
  "fsm_env \<Rightarrow> ChargePointStates \<Rightarrow> states_error + ChargePointStates" where
  "trigger_status_notifications env s =
     (case state_machine_connector_zero s of
        None \<Rightarrow> Inl Null_Pointer
      | Some m \<Rightarrow> Inr (s\<lparr>state_machine_connector_zero := Some (fsm_trigger_status_notification env m),
                       state_machines := map (fsm_trigger_status_notification env) (state_machines s)\<rparr>))"

definition states_get_state :: "int \<Rightarrow> ChargePointStates \<Rightarrow> states_error + ChargePointStatus" where
  "states_get_state connector_id s =
     (if connector_id > 0 \<and> nat connector_id \<le> length (state_machines s)
      then Inr (fsm_get_state (state_machines s ! (nat connector_id - 1)))
      else if connector_id = 0
      then (case state_machine_connector_zero s of
              None \<Rightarrow> Inl Null_Pointer | Some m \<Rightarrow> Inr (fsm_get_state m))
      else Inr Unavailable)"

text \<open>An id without a machine is answered for connector 0.\<close>

definition machine_or_zero :: "int \<Rightarrow> ChargePointStates \<Rightarrow> states_error + ChargePointFSM" where
  "machine_or_zero connector_id s =
     (if connector_id > 0 \<and> nat connector_id \<le> length (state_machines s)
      then Inr (state_machines s ! (nat connector_id - 1))
      else (case state_machine_connector_zero s of None \<Rightarrow> Inl Null_Pointer | Some m \<Rightarrow> Inr m))"

definition states_get_latest_error ::
  "fsm_env \<Rightarrow> int \<Rightarrow> ChargePointStates \<Rightarrow> states_error + ErrorInfo option" where
  "states_get_latest_error env connector_id s =
     map_sum id (fsm_get_latest_error env) (machine_or_zero connector_id s)"

definition states_get_suspend_reason ::
  "int \<Rightarrow> ChargePointStates \<Rightarrow> states_error + string option" where
  "states_get_suspend_reason connector_id s =
     map_sum id get_suspend_reason (machine_or_zero connector_id s)"

end
