(* ===== verification/Charge_Point_Status.thy ===== *)
theory Charge_Point_Status
  imports Charge_Point_FSM "HOL-Library.Multiset"
begin

text \<open>
  Properties of the connector status machines: the status last reported for a connector is its current
  one, the suspend reason belongs to the state, no operation fails once the machines have been set up,
  setting them up succeeds for exactly the well-formed maps, and the error reported as latest is one.
\<close>

subsection \<open>The invariant of a machine\<close>

lemma FSM_DEF_total: "\<exists>transitions. map_of FSM_DEF q = Some transitions"
  by (cases q) (simp_all add: FSM_DEF_def)

definition fsm_consistent :: "ChargePointFSM \<Rightarrow> bool" where
  "fsm_consistent m \<longleftrightarrow>
     (suspend_reason m \<noteq> None \<longrightarrow> fsm_state m = SuspendedEVSE) \<and>
     distinct (map fst (active_errors m)) \<and> (\<forall>(uuid, e)\<in>set (active_errors m). err_uuid e = uuid)"

definition fsm_wf :: "ChargePointFSM \<Rightarrow> bool" where
  "fsm_wf m \<longleftrightarrow> fsm_consistent m \<and>
     (if notifications m = [] then active_errors m = []
      else sn_status (last (notifications m)) = fsm_get_state m)"

lemma fsm_emit_fields [simp]:
  "fsm_state (emit_status_notification n m) = fsm_state m"
  "active_errors (emit_status_notification n m) = active_errors m"
  "suspend_reason (emit_status_notification n m) = suspend_reason m"
  "notifications (emit_status_notification n m) = notifications m @ [n]"
  "report_cleared_errors (emit_status_notification n m) = report_cleared_errors m"
  by (simp_all add: emit_status_notification_def)

lemma fsm_emit_state [simp]:
  "is_faulted (emit_status_notification n m) = is_faulted m"
  "fsm_get_state (emit_status_notification n m) = fsm_get_state m"
  by (simp_all add: is_faulted_def fsm_get_state_def)

lemma new_fsm_wf: "fsm_wf (new_fsm q report)"
  by (simp add: fsm_wf_def fsm_consistent_def new_fsm_def)

lemma handle_event_total:
  "\<exists>r m'. fsm_handle_event env event timestamp info m = Some (r, m')"
  using FSM_DEF_total [of "fsm_state m"]
  by (auto simp: fsm_handle_event_def Let_def split: option.splits)

lemma fsm_wf_emit:
  "fsm_consistent m \<Longrightarrow> sn_status n = fsm_get_state m \<Longrightarrow> fsm_wf (emit_status_notification n m)"
  by (simp add: fsm_wf_def fsm_consistent_def)

lemma faulted_reported: "fsm_wf m \<Longrightarrow> is_faulted m \<Longrightarrow> notifications m \<noteq> []"
  by (auto simp: fsm_wf_def is_faulted_def)

lemma fsm_wf_faulted:
  assumes "fsm_wf m" "is_faulted m" "fsm_consistent m'" "is_faulted m'"
    "notifications m' = notifications m"
  shows "fsm_wf m'"
proof -
  have "notifications m \<noteq> []" using assms(1,2) by (rule faulted_reported)
  with assms show ?thesis by (simp add: fsm_wf_def fsm_get_state_def)
qed

text \<open>An event is without effect, or moves the machine and is reported unless a fault is active.\<close>

definition moved :: "ChargePointStatus \<Rightarrow> string option \<Rightarrow> ChargePointFSM \<Rightarrow> ChargePointFSM" where
  "moved dest info m =
     m\<lparr>fsm_state := dest, suspend_reason := if dest = SuspendedEVSE then info else None\<rparr>"

lemma moved_faulted [simp]: "is_faulted (moved dest info m) = is_faulted m"
  by (simp add: moved_def is_faulted_def)

lemma handle_event_cases:
  assumes "fsm_handle_event env event timestamp info m = Some (r, m')"
  obtains "\<not> r" "m' = m"
  | dest transitions n where "r" "map_of FSM_DEF (fsm_state m) = Some transitions"
    "map_of transitions event = Some dest" "\<not> is_faulted m" "sn_status n = dest" "sn_info n = info"
    "m' = emit_status_notification n (moved dest info m)"
  | dest transitions where "r" "map_of FSM_DEF (fsm_state m) = Some transitions"
    "map_of transitions event = Some dest" "is_faulted m" "m' = moved dest info m"
proof -
  obtain transitions where t: "map_of FSM_DEF (fsm_state m) = Some transitions"
    using FSM_DEF_total by blast
  show ?thesis
  proof (cases "map_of transitions event")
    case None
    with assms t have "\<not> r" "m' = m" by (simp_all add: fsm_handle_event_def)
    then show ?thesis by (rule that(1))
  next
    case (Some dest)
    have faulted: "is_faulted (m\<lparr>fsm_state := dest, suspend_reason := x\<rparr>) = is_faulted m" for x
      by (simp add: is_faulted_def)
    show ?thesis
    proof (cases "dest = fsm_state m \<and> optional_ci_eq (env_iequals env) info (last_emitted_info m)")
      case True
      with assms t Some have "\<not> r" "m' = m" by (simp_all add: fsm_handle_event_def)
      then show ?thesis by (rule that(1))
    next
      case False
      define n where "n = \<lparr>sn_status = dest,
        sn_error_code = err_error_code (latest_error_or_none env (m\<lparr>fsm_state := dest\<rparr>)),
        sn_timestamp = timestamp, sn_info = info,
        sn_vendor_id = err_vendor_id (latest_error_or_none env (m\<lparr>fsm_state := dest\<rparr>)),
        sn_vendor_error_code =
          err_vendor_error_code (latest_error_or_none env (m\<lparr>fsm_state := dest\<rparr>))\<rparr>"
      have "fsm_handle_event env event timestamp info m = Some (True,
          if \<not> is_faulted m then emit_status_notification n (moved dest info m) else moved dest info m)"
        unfolding fsm_handle_event_def t Some option.case Let_def moved_def n_def
        by (simp only: False if_False faulted)
      with assms have m': "r" "m' = (if \<not> is_faulted m then emit_status_notification n (moved dest info m)
          else moved dest info m)" by simp_all
      have n: "sn_status n = dest" "sn_info n = info" by (simp_all add: n_def)
      show ?thesis
      proof (cases "is_faulted m")
        case True
        with m'(2) have "m' = moved dest info m" by simp
        from that(3) [OF m'(1) t Some True this] show ?thesis .
      next
        case False
        with m'(2) have "m' = emit_status_notification n (moved dest info m)" by simp
        from that(2) [OF m'(1) t Some False n this] show ?thesis .
      qed
    qed
  qed
qed

lemma handle_event_wf:
  assumes "fsm_wf m" "fsm_handle_event env event timestamp info m = Some (r, m')"
  shows "fsm_wf m'"
proof -
  have c: "fsm_consistent (moved dest info m)" for dest
    using assms(1) by (simp add: fsm_wf_def fsm_consistent_def moved_def)
  have s: "fsm_state (moved dest info m) = dest" for dest by (simp add: moved_def)
  from assms(2) show ?thesis
  proof (cases rule: handle_event_cases)
    case (2 dest transitions n)
    then show ?thesis using fsm_wf_emit [OF c, of n dest] by (simp add: fsm_get_state_def s)
  next
    case (3 dest transitions)
    moreover have "notifications (moved dest info m) = notifications m" by (simp add: moved_def)
    ultimately show ?thesis using fsm_wf_faulted [OF assms(1) _ c, of dest] by simp
  qed (use assms(1) in simp)
qed

lemma handle_error_wf: "fsm_wf m \<Longrightarrow> fsm_wf (snd (handle_error e m))"
proof (cases "map_of (active_errors m) (err_uuid e) = None")
  case True
  assume "fsm_wf m"
  with True have "fsm_consistent (m\<lparr>active_errors := (err_uuid e, e) # active_errors m\<rparr>)"
    by (auto simp: fsm_wf_def fsm_consistent_def map_of_eq_None_iff)
  with True show ?thesis
    by (simp add: handle_error_def Let_def fsm_wf_emit error_notification_def fsm_get_state_def)
qed (simp add: handle_error_def)

lemma still_faulted:
  "is_faulted (m\<lparr>active_errors := filter P (active_errors m)\<rparr>) \<Longrightarrow> is_faulted m"
  by (force simp: is_faulted_def list_ex_iff)

lemma cleared_status: "sn_status (cleared_notification env e q m) = q"
  by (simp add: cleared_notification_def Let_def split: option.splits)

definition without_error :: "string \<Rightarrow> ChargePointFSM \<Rightarrow> ChargePointFSM" where
  "without_error uuid m = m\<lparr>active_errors := filter (\<lambda>entry. fst entry \<noteq> uuid) (active_errors m)\<rparr>"

lemma without_error_consistent: "fsm_consistent m \<Longrightarrow> fsm_consistent (without_error uuid m)"
  by (simp add: fsm_consistent_def without_error_def distinct_map_filter)

lemma without_error_wf:
  assumes "fsm_wf m" "is_faulted (without_error uuid m)"
  shows "fsm_wf (without_error uuid m)"
proof (rule fsm_wf_faulted [OF assms(1)])
  show "is_faulted m" using assms(2) unfolding without_error_def by (rule still_faulted)
  show "fsm_consistent (without_error uuid m)"
    using assms(1) by (intro without_error_consistent) (simp add: fsm_wf_def)
qed (use assms(2) in \<open>simp_all add: without_error_def\<close>)

lemma handle_error_cleared_eq:
  "handle_error_cleared env uuid m =
     (case map_of (active_errors m) uuid of
        None \<Rightarrow> (False, m)
      | Some e \<Rightarrow>
          if is_faulted (without_error uuid m) \<and> \<not> report_cleared_errors (without_error uuid m)
          then (False, without_error uuid m)
          else (True, emit_status_notification
            (cleared_notification env e (fsm_get_state (without_error uuid m)) (without_error uuid m))
            (without_error uuid m)))"
  unfolding handle_error_cleared_def Let_def without_error_def fsm_get_state_def by (rule refl)

lemma handle_error_cleared_wf:
  assumes "fsm_wf m"
  shows "fsm_wf (snd (handle_error_cleared env uuid m))"
proof -
  have "fsm_consistent (without_error uuid m)"
    using assms by (intro without_error_consistent) (simp add: fsm_wf_def)
  then have "fsm_wf (emit_status_notification (cleared_notification env e
      (fsm_get_state (without_error uuid m)) (without_error uuid m)) (without_error uuid m))" for e
    by (rule fsm_wf_emit) (rule cleared_status)
  with assms without_error_wf [OF assms, of uuid] show ?thesis
    unfolding handle_error_cleared_eq by (auto split: option.split)
qed

lemma handle_all_errors_cleared_wf: "fsm_wf m \<Longrightarrow> fsm_wf (snd (handle_all_errors_cleared env m))"
  unfolding handle_all_errors_cleared_def Let_def snd_conv
  by (rule fsm_wf_emit) (simp_all add: fsm_wf_def fsm_consistent_def fsm_get_state_def is_faulted_def)

lemma trigger_wf: "fsm_wf m \<Longrightarrow> fsm_wf (fsm_trigger_status_notification env m)"
  by (auto simp: fsm_trigger_status_notification_def Let_def error_notification_def fsm_get_state_def
      fsm_wf_def [of m] intro!: fsm_wf_emit)

subsection \<open>The charge point\<close>

datatype states_input =
    Submit_Event fsm_env int FSMEvent int "string option"
  | Submit_Error int ErrorInfo
  | Submit_Error_Cleared fsm_env int string
  | Submit_All_Errors_Cleared fsm_env int
  | Trigger fsm_env int
  | Trigger_All fsm_env

definition states_operation ::
  "ChargePointStates \<Rightarrow> states_input \<Rightarrow> states_error + ChargePointStates" where
  "states_operation s i = (case i of
       Submit_Event env c e t info \<Rightarrow> states_submit_event env c e t info s
     | Submit_Error c e \<Rightarrow> submit_error c e s
     | Submit_Error_Cleared env c uuid \<Rightarrow> submit_error_cleared env c uuid s
     | Submit_All_Errors_Cleared env c \<Rightarrow> submit_all_errors_cleared env c s
     | Trigger env c \<Rightarrow> states_trigger_status_notification env c s
     | Trigger_All env \<Rightarrow> trigger_status_notifications env s)"

text \<open>An operation that throws leaves the machines as they are.\<close>

definition states_step :: "ChargePointStates \<Rightarrow> states_input \<Rightarrow> ChargePointStates" where
  "states_step s i = (case states_operation s i of Inr s' \<Rightarrow> s' | Inl e \<Rightarrow> s)"

definition machines :: "ChargePointStates \<Rightarrow> ChargePointFSM list" where
  "machines s = (case state_machine_connector_zero s of Some m \<Rightarrow> [m] | None \<Rightarrow> []) @ state_machines s"

lemma on_connector_cases:
  assumes "on_connector c f s = Inr s'"
  obtains "s' = s"
  | m m' where "m \<in> set (machines s)" "f m = Some m'" "set (machines s') \<subseteq> insert m' (set (machines s))"
proof (cases "c = 0")
  case True
  then obtain m m' where "state_machine_connector_zero s = Some m" "f m = Some m'"
    "s' = s\<lparr>state_machine_connector_zero := Some m'\<rparr>"
    using assms by (auto simp: on_connector_def split: option.splits)
  then show ?thesis by (intro that(2) [of m m']) (auto simp: machines_def)
next
  case False
  show ?thesis
  proof (cases "0 < c \<and> nat c \<le> length (state_machines s)")
    case True
    let ?i = "nat c - 1"
    obtain m' where m': "f (state_machines s ! ?i) = Some m'"
      "s' = s\<lparr>state_machines := (state_machines s)[?i := m']\<rparr>"
      using assms True by (auto simp: on_connector_def Let_def split: option.splits)
    moreover have "?i < length (state_machines s)" using True by linarith
    then have "state_machines s ! ?i \<in> set (machines s)" by (simp add: machines_def)
    moreover have "set (machines s') \<subseteq> insert m' (set (machines s))"
      using set_update_subset_insert [of "state_machines s" ?i m'] m'(2) by (auto simp: machines_def)
    ultimately show ?thesis using that(2) by blast
  next
    case False
    with \<open>c \<noteq> 0\<close> assms show ?thesis by (intro that(1)) (auto simp: on_connector_def split: if_splits)
  qed
qed

lemma on_connector_wf:
  assumes "\<forall>m\<in>set (machines s). fsm_wf m" "\<And>m m'. fsm_wf m \<Longrightarrow> f m = Some m' \<Longrightarrow> fsm_wf m'"
    "on_connector c f s = Inr s'"
  shows "\<forall>m\<in>set (machines s'). fsm_wf m"
  using assms(3) by (rule on_connector_cases) (use assms(1,2) in blast)+

lemma states_operation_wf:
  assumes wf: "\<forall>m\<in>set (machines s). fsm_wf m" and op: "states_operation s i = Inr s'"
  shows "\<forall>m\<in>set (machines s'). fsm_wf m"
proof (cases i)
  case (Submit_Event env c e t info)
  then have "on_connector c (\<lambda>m. map_option snd (fsm_handle_event env e t info m)) s = Inr s'"
    using op by (simp add: states_operation_def states_submit_event_def)
  moreover have "fsm_wf m \<Longrightarrow> map_option snd (fsm_handle_event env e t info m) = Some m' \<Longrightarrow> fsm_wf m'"
    for m m' using handle_event_wf by force
  ultimately show ?thesis by (intro on_connector_wf [OF wf])
next
  case (Submit_Error c e)
  then have "on_connector c (\<lambda>m. Some (snd (handle_error e m))) s = Inr s'"
    using op by (simp add: states_operation_def submit_error_def)
  then show ?thesis by (rule on_connector_wf [OF wf, rotated]) (clarify, rule handle_error_wf)
next
  case (Submit_Error_Cleared env c uuid)
  then have "on_connector c (\<lambda>m. Some (snd (handle_error_cleared env uuid m))) s = Inr s'"
    using op by (simp add: states_operation_def submit_error_cleared_def)
  then show ?thesis by (rule on_connector_wf [OF wf, rotated]) (clarify, rule handle_error_cleared_wf)
next
  case (Submit_All_Errors_Cleared env c)
  then have "on_connector c (\<lambda>m. Some (snd (handle_all_errors_cleared env m))) s = Inr s'"
    using op by (simp add: states_operation_def submit_all_errors_cleared_def)
  then show ?thesis by (rule on_connector_wf [OF wf, rotated]) (clarify, rule handle_all_errors_cleared_wf)
next
  case (Trigger env c)
  then have "on_connector c (\<lambda>m. Some (fsm_trigger_status_notification env m)) s = Inr s'"
    using op by (simp add: states_operation_def states_trigger_status_notification_def split: if_splits)
  then show ?thesis by (rule on_connector_wf [OF wf, rotated]) (clarify, rule trigger_wf)
next
  case (Trigger_All env)
  then obtain m where "state_machine_connector_zero s = Some m"
    "s' = s\<lparr>state_machine_connector_zero := Some (fsm_trigger_status_notification env m),
      state_machines := map (fsm_trigger_status_notification env) (state_machines s)\<rparr>"
    using op by (auto simp: states_operation_def trigger_status_notifications_def split: option.splits)
  with wf show ?thesis by (simp add: machines_def trigger_wf)
qed

lemma states_step_wf:
  "\<forall>m\<in>set (machines s). fsm_wf m \<Longrightarrow> \<forall>m\<in>set (machines (states_step s i)). fsm_wf m"
  using states_operation_wf [of s i] by (auto simp: states_step_def split: sum.splits)

subsection \<open>Setting up the machines\<close>

abbreviation machine_for :: "(int, ChargePointStatus) omap \<Rightarrow> bool \<Rightarrow> nat \<Rightarrow> ChargePointFSM" where
  "machine_for statuses report i \<equiv> new_fsm (the (map_of statuses (int i))) report"

lemma reset_loop_connectors:
  assumes "0 < k" "k + n \<le> 2 ^ 31"
  shows "if \<forall>i\<in>{k..<k + n}. map_of statuses (int i) \<noteq> None
    then reset_loop statuses k n s = (None, s\<lparr>state_machines := state_machines s @
      map (machine_for statuses (states_report_cleared_errors s)) [k..<k + n]\<rparr>)
    else fst (reset_loop statuses k n s) = Some Out_Of_Range"
  using assms
proof (induction n arbitrary: k s)
  case (Suc n)
  have m: "min (int k) 2147483647 = int k" using Suc.prems by auto
  show ?case
  proof (cases "map_of statuses (int k)")
    case None
    then have "\<not> (\<forall>i\<in>{k..<k + Suc n}. map_of statuses (int i) \<noteq> None)" by force
    with None show ?thesis by (simp only: if_False) (simp add: m)
  next
    case (Some q)
    let ?s = "s\<lparr>state_machines := state_machines s @ [machine_for statuses (states_report_cleared_errors s) k]\<rparr>"
    have step: "reset_loop statuses k (Suc n) s = reset_loop statuses (Suc k) n ?s"
      using Some Suc.prems(1) by (simp add: m)
    have range: "{k..<k + Suc n} = insert k {Suc k..<Suc k + n}" by auto
    have upt: "[k..<k + Suc n] = k # [Suc k..<Suc k + n]" by (simp add: upt_rec)
    have IH: "if \<forall>i\<in>{Suc k..<Suc k + n}. map_of statuses (int i) \<noteq> None
      then reset_loop statuses (Suc k) n ?s = (None, ?s\<lparr>state_machines := state_machines ?s @
        map (machine_for statuses (states_report_cleared_errors ?s)) [Suc k..<Suc k + n]\<rparr>)
      else fst (reset_loop statuses (Suc k) n ?s) = Some Out_Of_Range"
      using Suc.prems by (intro Suc.IH) simp_all
    show ?thesis
    proof (cases "\<forall>i\<in>{Suc k..<Suc k + n}. map_of statuses (int i) \<noteq> None")
      case True
      with IH Some show ?thesis unfolding step range upt by (simp del: upt_Suc)
    next
      case False
      then have "\<not> (\<forall>i\<in>insert k {Suc k..<Suc k + n}. map_of statuses (int i) \<noteq> None)" by blast
      with IH False show ?thesis unfolding step range by (simp only: if_False)
    qed
  qed
qed simp

lemma new_fsm_state [simp]: "fsm_get_state (new_fsm q report) = q"
  by (simp add: fsm_get_state_def is_faulted_def new_fsm_def)

abbreviation valid_for_zero :: "ChargePointStatus \<Rightarrow> bool" where
  "valid_for_zero q \<equiv> q = Available \<or> q = Unavailable \<or> q = Faulted"

lemma states_reset_result:
  assumes "statuses \<noteq> []" "length statuses \<le> 2 ^ 31"
  shows "if (\<forall>i<length statuses. map_of statuses (int i) \<noteq> None) \<and> valid_for_zero (the (map_of statuses 0))
    then states_reset statuses s = (None, s\<lparr>state_machine_connector_zero :=
        Some (machine_for statuses (states_report_cleared_errors s) 0),
      state_machines := map (machine_for statuses (states_report_cleared_errors s)) [1..<length statuses]\<rparr>)
    else fst (states_reset statuses s) \<noteq> None"
proof -
  obtain n where n: "length statuses = Suc n" using assms(1) by (cases statuses) auto
  have all: "(\<forall>i<Suc n. P i) \<longleftrightarrow> P 0 \<and> (\<forall>i\<in>{1..<1 + n}. P i)" for P :: "nat \<Rightarrow> bool"
    by (auto simp: less_Suc_eq_0_disj Suc_le_eq elim: bspec)
  show ?thesis
  proof (cases "map_of statuses 0")
    case None
    then show ?thesis by (auto simp: states_reset_def n)
  next
    case (Some q)
    let ?s = "s\<lparr>state_machines := [], state_machine_connector_zero :=
      Some (machine_for statuses (states_report_cleared_errors s) 0)\<rparr>"
    show ?thesis
    proof (cases "valid_for_zero q")
      case True
      then have eq: "states_reset statuses s = reset_loop statuses 1 n ?s"
        using Some by (auto simp: states_reset_def n)
      have rest: "if \<forall>i\<in>{1..<1 + n}. map_of statuses (int i) \<noteq> None
        then reset_loop statuses 1 n ?s = (None, ?s\<lparr>state_machines := state_machines ?s @
          map (machine_for statuses (states_report_cleared_errors ?s)) [1..<1 + n]\<rparr>)
        else fst (reset_loop statuses 1 n ?s) = Some Out_Of_Range"
        using assms(2) n by (intro reset_loop_connectors) simp_all
      show ?thesis
      proof (cases "\<forall>i\<in>{1..<1 + n}. map_of statuses (int i) \<noteq> None")
        case all_there: True
        with rest Some True show ?thesis unfolding eq n all by (simp del: upt_Suc)
      next
        case False
        with rest have "fst (states_reset statuses s) = Some Out_Of_Range"
          unfolding eq by (simp only: if_False)
        moreover have "\<not> (\<forall>i<Suc n. map_of statuses (int i) \<noteq> None)" using False unfolding all by blast
        ultimately show ?thesis unfolding n by (simp only: simp_thms if_False option.distinct)
      qed
    next
      case False
      with Some show ?thesis by (auto simp: states_reset_def n)
    qed
  qed
qed

text \<open>
  C38. The machines of a charge point are set up exactly from well-formed maps: setting up from a
  non-empty map of initial statuses throws unless the map gives a status to each of the ids from 0 up to its number of
  entries, and connector 0 is available, unavailable or faulted; otherwise every id of the map has a
  machine afterwards that is in the given status, and there is no other machine.
\<close>

theorem reset_sets_up:
  assumes "omap_wf statuses" "statuses \<noteq> []" "length statuses \<le> 2 ^ 31"
  shows "case states_reset statuses s of
      (Some e, s') \<Rightarrow> fst ` set statuses \<noteq> {0..<int (length statuses)} \<or>
        the (map_of statuses 0) \<notin> {Available, Unavailable, Faulted}
    | (None, s') \<Rightarrow> fst ` set statuses = {0..<int (length statuses)} \<and>
        the (map_of statuses 0) \<in> {Available, Unavailable, Faulted} \<and>
        length (state_machines s') = length statuses - 1 \<and>
        (\<forall>(c, q)\<in>set statuses. states_get_state c s' = Inr q)"
proof -
  let ?all = "\<forall>i<length statuses. map_of statuses (int i) \<noteq> None"
  have keys: "?all \<longleftrightarrow> fst ` set statuses = {0..<int (length statuses)}"
  proof
    assume ?all
    then have "int i \<in> fst ` set statuses" if "i < length statuses" for i
      using that by (metis map_of_eq_None_iff)
    then have "{0..<int (length statuses)} \<subseteq> fst ` set statuses"
      by (auto simp: zero_le_imp_eq_int elim!: zero_le_imp_eq_int [THEN exE])
    moreover have "card (fst ` set statuses) = length statuses"
      using omap_distinct_keys [OF assms(1)] by (metis distinct_card length_map set_map)
    ultimately show "fst ` set statuses = {0..<int (length statuses)}"
      by (intro card_subset_eq [symmetric]) auto
  qed (auto simp: map_of_eq_None_iff)
  show ?thesis
  proof (cases "?all \<and> valid_for_zero (the (map_of statuses 0))")
    case True
    define s' where "s' = s\<lparr>state_machine_connector_zero :=
        Some (machine_for statuses (states_report_cleared_errors s) 0),
      state_machines := map (machine_for statuses (states_report_cleared_errors s)) [1..<length statuses]\<rparr>"
    have r: "states_reset statuses s = (None, s')"
      using states_reset_result [OF assms(2,3), of s] unfolding s'_def if_P [OF True] .
    have len: "length (state_machines s') = length statuses - 1" by (simp add: s'_def)
    have "states_get_state c s' = Inr q" if "(c, q) \<in> set statuses" for c q
    proof -
      have m: "map_of statuses c = Some q" using that omap_lookup_in [OF assms(1)] by blast
      have "c \<in> {0..<int (length statuses)}" using that keys True by (metis fst_conv image_eqI)
      then have c: "0 \<le> c" "c < int (length statuses)" by simp_all
      show ?thesis
      proof (cases "c = 0")
        case True
        with m show ?thesis by (simp add: states_get_state_def s'_def)
      next
        case False
        with c have "nat c - 1 < length statuses - 1" "1 + (nat c - 1) = nat c" "0 < c"
          "nat c \<le> length (state_machines s')" by (simp_all add: len)
        moreover from this have "state_machines s' ! (nat c - 1) =
            machine_for statuses (states_report_cleared_errors s) (nat c)" by (simp add: s'_def)
        ultimately show ?thesis using m by (simp add: states_get_state_def)
      qed
    qed
    then have "\<forall>(c, q)\<in>set statuses. states_get_state c s' = Inr q" by blast
    moreover have "the (map_of statuses 0) \<in> {Available, Unavailable, Faulted}" using True by blast
    ultimately show ?thesis using len True unfolding r keys by simp
  next
    case False
    have "fst (states_reset statuses s) \<noteq> None"
      using states_reset_result [OF assms(2,3), of s] unfolding if_not_P [OF False] .
    then obtain e s' where "states_reset statuses s = (Some e, s')"
      by (cases "states_reset statuses s") auto
    with False show ?thesis unfolding keys by simp
  qed
qed

theorem reset_sets_up_witness:
  "fst (states_reset [(0, Available), (1, Charging)] (new_states False)) = None \<and>
   states_get_state 1 (snd (states_reset [(0, Available), (1, Charging)] (new_states False))) = Inr Charging"
proof -
  have "omap_wf [(0::int, Available), (1, Charging)]" by code_simp
  from reset_sets_up [OF this, of "new_states False"]
  have "case states_reset [(0, Available), (1, Charging)] (new_states False) of
      (Some e, s') \<Rightarrow> False | (None, s') \<Rightarrow> states_get_state 1 s' = Inr Charging"
    by (auto split: prod.splits option.splits)
  then show ?thesis by (auto split: prod.splits option.splits)
qed

subsection \<open>The reported status\<close>

definition unreported :: "ChargePointStates \<Rightarrow> bool" where
  "unreported s \<longleftrightarrow> (\<forall>m\<in>set (machines s). m = new_fsm (fsm_state m) (states_report_cleared_errors s))"

lemma unreported_wf: "unreported s \<Longrightarrow> \<forall>m\<in>set (machines s). fsm_wf m"
  unfolding unreported_def by (metis new_fsm_wf)

text \<open>
  C17. What the central system has last been told is the current status: after any sequence of events,
  errors, cleared errors and triggered notifications on a charge point whose machines are freshly set
  up, the last notification of every connector that sent one carries the status the connector reports
  now, a connector that sent none has no active error, and a suspend reason is present only for a
  connector whose own state is suspended by the charge point.
\<close>

theorem reported_status_current:
  assumes "unreported s0" "reach states_step s0 s" "m \<in> set (machines s)"
  shows "(if notifications m = [] then active_errors m = []
      else sn_status (last (notifications m)) = fsm_get_state m) \<and>
    (get_suspend_reason m \<noteq> None \<longrightarrow> fsm_state m = SuspendedEVSE)"
proof -
  have "\<forall>m\<in>set (machines s). fsm_wf m"
    using assms(2)
    by (induction rule: reach.induct) (rule unreported_wf [OF assms(1)], rule states_step_wf)
  with assms(3) show ?thesis
    by (auto simp: fsm_wf_def fsm_consistent_def get_suspend_reason_def)
qed

definition example_env :: fsm_env where
  "example_env = \<lparr>env_now = 7, env_iequals = (=), env_iteration = id\<rparr>"

definition example_states :: ChargePointStates where
  "example_states = snd (states_reset [(0, Available), (1, Available)] (new_states False))"

definition faulted_states :: ChargePointStates where
  "faulted_states = run states_step example_states
     [Submit_Event example_env 1 PauseChargingEVSE 5 (Some ''energy''),
      Submit_Error 1 (error_info_full 6 ''e1'' GroundFailure True None None None),
      Submit_Event example_env 1 StartCharging 7 None]"

theorem reported_status_current_witness:
  "sn_status (last (notifications (state_machines faulted_states ! 0))) =
     fsm_get_state (state_machines faulted_states ! 0) \<and>
   fsm_get_state (state_machines faulted_states ! 0) = Faulted"
proof -
  let ?m = "state_machines faulted_states ! 0"
  have fresh: "unreported example_states"
    by (simp add: unreported_def example_states_def states_reset_def new_states_def machines_def
        new_fsm_def eval_nat_numeral)
  have reach: "reach states_step example_states faulted_states"
    unfolding faulted_states_def by (intro reach_run reach_init)
  have "length (state_machines faulted_states) = 1" by code_simp
  then have m: "?m \<in> set (machines faulted_states)" by (simp add: machines_def)
  have emitted: "notifications ?m \<noteq> []" and faulted: "fsm_get_state ?m = Faulted" by code_simp+
  from reported_status_current [OF fresh reach m, THEN conjunct1] faulted show ?thesis
    unfolding if_not_P [OF emitted] by (rule conjI)
qed

subsection \<open>No operation fails\<close>

lemma on_connector_total:
  assumes "state_machine_connector_zero s \<noteq> None" "\<And>m. f m \<noteq> None"
  shows "\<exists>s'. on_connector c f s = Inr s' \<and> state_machine_connector_zero s' \<noteq> None \<and>
    length (state_machines s') = length (state_machines s)"
  using assms(1) assms(2) [of "the (state_machine_connector_zero s)"]
    assms(2) [of "state_machines s ! (nat c - 1)"]
  by (auto simp: on_connector_def Let_def)

text \<open>
  C37. Once the machines are set up no operation fails: every operation returns with the same
  number of connectors present, in every state and for every event, even for ids that do not exist; the only
  exception is a notification triggered for an id without a machine, which throws.
\<close>

theorem states_operations_total:
  assumes "state_machine_connector_zero s \<noteq> None"
  shows "(\<exists>s'. states_operation s i = Inr s' \<and> state_machine_connector_zero s' \<noteq> None \<and>
      length (state_machines s') = length (state_machines s)) \<or>
    (\<exists>env c. i = Trigger env c \<and> (c < 0 \<or> int (length (state_machines s)) < c) \<and>
      states_operation s i = Inl Out_Of_Range)"
proof (cases i)
  case (Submit_Event env c e t info)
  have "map_option snd (fsm_handle_event env e t info m) \<noteq> None" for m
    using handle_event_total [of env e t info m] by auto
  then show ?thesis unfolding states_operation_def Submit_Event states_input.case states_submit_event_def
    using on_connector_total [OF assms, of "\<lambda>m. map_option snd (fsm_handle_event env e t info m)" c] by blast
next
  case (Submit_Error c e)
  show ?thesis unfolding states_operation_def Submit_Error states_input.case submit_error_def
    using on_connector_total [OF assms, of "\<lambda>m. Some (snd (handle_error e m))" c] by blast
next
  case (Submit_Error_Cleared env c uuid)
  show ?thesis unfolding states_operation_def Submit_Error_Cleared states_input.case submit_error_cleared_def
    using on_connector_total [OF assms, of "\<lambda>m. Some (snd (handle_error_cleared env uuid m))" c] by blast
next
  case (Submit_All_Errors_Cleared env c)
  show ?thesis
    unfolding states_operation_def Submit_All_Errors_Cleared states_input.case submit_all_errors_cleared_def
    using on_connector_total [OF assms, of "\<lambda>m. Some (snd (handle_all_errors_cleared env m))" c] by blast
next
  case (Trigger env c)
  show ?thesis
    using on_connector_total [OF assms, of "\<lambda>m. Some (fsm_trigger_status_notification env m)" c]
    by (auto simp: states_operation_def Trigger states_trigger_status_notification_def nat_le_iff)
next
  case (Trigger_All env)
  with assms show ?thesis by (auto simp: states_operation_def trigger_status_notifications_def)
qed

theorem states_operations_total_witness:
  "state_machine_connector_zero example_states \<noteq> None \<and>
   (\<exists>s'. states_operation example_states (Submit_Event example_env 9 StartCharging 5 None) = Inr s')"
proof
  show zero: "state_machine_connector_zero example_states \<noteq> None" by code_simp
  from states_operations_total [OF this, of "Submit_Event example_env 9 StartCharging 5 None"]
  show "\<exists>s'. states_operation example_states (Submit_Event example_env 9 StartCharging 5 None) = Inr s'"
    by blast
qed

subsection \<open>The latest error\<close>

lemma fold_later_error:
  "(foldl later_error e xs = e \<or> foldl later_error e xs \<in> snd ` set xs) \<and>
   err_timestamp e \<le> err_timestamp (foldl later_error e xs) \<and>
   (\<forall>x\<in>set xs. err_timestamp (snd x) \<le> err_timestamp (foldl later_error e xs))"
proof (induction xs arbitrary: e)
  case (Cons x xs)
  have "err_timestamp e \<le> err_timestamp (later_error e x)" "err_timestamp (snd x) \<le> err_timestamp (later_error e x)"
    "later_error e x = e \<or> later_error e x = snd x" by (auto simp: later_error_def)
  with Cons [of "later_error e x"] show ?case by (auto intro: order_trans)
qed simp

text \<open>
  The latest error is an active error that no other active error is later than, and there is one
  exactly if an error is active, in whatever order the map of active errors is iterated.
\<close>

lemma latest_error_is_latest:
  assumes "mset (env_iteration env (active_errors m)) = mset (active_errors m)"
  shows "case fsm_get_latest_error env m of
      None \<Rightarrow> active_errors m = []
    | Some e \<Rightarrow> e \<in> snd ` set (active_errors m) \<and>
        (\<forall>x\<in>set (active_errors m). err_timestamp (snd x) \<le> err_timestamp e)"
proof (cases "env_iteration env (active_errors m)")
  case Nil
  with assms show ?thesis by (simp add: fsm_get_latest_error_def)
next
  case (Cons x xs)
  have "set (active_errors m) = set (x # xs)" using mset_eq_setD [OF assms] Cons by simp
  with Cons fold_later_error [of "snd x" "x # xs"] show ?thesis
    by (auto simp: fsm_get_latest_error_def simp del: foldl_Cons)
qed

text \<open>
  The reduced definition for connector 0 has no effect: connector 0 follows a transition that it does
  not contain, into a status that setting up the machines refuses for connector 0.
\<close>

lemma connector_zero_unrestricted:
  "map_of (the (map_of FSM_DEF_CONNECTOR_ZERO Available)) StartCharging = None"
  "map_sum id (states_get_state 0) (states_submit_event example_env 0 StartCharging 5 None example_states) =
     Inr (Inr Charging)"
  by code_simp+

end
