(* ===== verification/Ocpp_Json.thy ===== *)
theory Ocpp_Json
  imports Ocpp_String "HOL-Library.AList"
begin

text \<open>
  JSON values as the OCPP messages hold them, and the positions within a message, after
  \<^verbatim>\<open>ocpp/common/call_types.hpp\<close>.
\<close>

subsection \<open>JSON values\<close>

datatype json =
    JNull
  | JBool bool
  | JInt int
  | JFloat string
  | JString string
  | JArray "json list"
  | JObject "(string \<times> json) list"

text \<open>\<^verbatim>\<open>at\<close> of an array throws behind its end; \<^verbatim>\<open>get<std::string>\<close> throws for another kind of value.\<close>

definition json_at :: "json list \<Rightarrow> nat \<Rightarrow> json option" where
  "json_at a i = (if i < length a then Some (a ! i) else None)"

fun json_get_string :: "json \<Rightarrow> string option" where
  "json_get_string (JString s) = Some s"
| "json_get_string _ = None"

fun json_get_array :: "json \<Rightarrow> json list option" where
  "json_get_array (JArray a) = Some a"
| "json_get_array _ = None"

fun json_is_object :: "json \<Rightarrow> bool" where
  "json_is_object (JObject members) = True"
| "json_is_object _ = False"

text \<open>Assignment through \<^verbatim>\<open>operator[]\<close> with a key: an object gets the member, null becomes an object.\<close>

fun json_set_member :: "string \<Rightarrow> json \<Rightarrow> json \<Rightarrow> json option" where
  "json_set_member key v (JObject members) = Some (JObject (AList.update key v members))"
| "json_set_member key v JNull = Some (JObject [(key, v)])"
| "json_set_member key v _ = None"

subsection \<open>Positions and message type ids\<close>

definition MESSAGE_TYPE_ID :: nat where "MESSAGE_TYPE_ID = 0"
definition MESSAGE_ID :: nat where "MESSAGE_ID = 1"
definition CALL_ACTION :: nat where "CALL_ACTION = 2"
definition CALL_PAYLOAD :: nat where "CALL_PAYLOAD = 3"
definition CALLRESULT_PAYLOAD :: nat where "CALLRESULT_PAYLOAD = 2"

datatype MessageTypeId = CALL | CALLRESULT | CALLERROR | UNKNOWN

primrec message_type_id_value :: "MessageTypeId \<Rightarrow> int" where
  "message_type_id_value CALL = 2"
| "message_type_id_value CALLRESULT = 3"
| "message_type_id_value CALLERROR = 4"
| "message_type_id_value UNKNOWN = 5"

end
