(* ===== verification/Json_Nesting.thy ===== *)
theory Json_Nesting
  imports Prelude
begin

text \<open>
  The check of the nesting depth of JSON text that guards the parser of received messages, after
  \<^verbatim>\<open>lib/everest/util/include/everest/util/json/nesting_depth.hpp\<close>, and a grammar of JSON text with
  its nesting depth as the reference for it.
\<close>

text \<open>
  The loop over the characters, with the variables \<open>depth\<close>, \<open>in_string\<close> and \<open>escaped\<close>. The character
  codes are those of the quote, the backslash, the brackets and the braces.
\<close>

abbreviation "quote_char \<equiv> CHR 0x22"
abbreviation "backslash \<equiv> CHR 0x5C"

fun nesting_loop :: "nat \<Rightarrow> nat \<Rightarrow> bool \<Rightarrow> bool \<Rightarrow> string \<Rightarrow> bool" where
  "nesting_loop max_depth depth in_string escaped [] = False"
| "nesting_loop max_depth depth in_string escaped (c # cs) =
     (if in_string then
        if escaped then nesting_loop max_depth depth in_string False cs
        else if c = backslash then nesting_loop max_depth depth in_string True cs
        else if c = quote_char then nesting_loop max_depth depth False escaped cs
        else nesting_loop max_depth depth in_string escaped cs
      else if c = quote_char then nesting_loop max_depth depth True escaped cs
      else if c = CHR ''['' \<or> c = CHR ''{'' then
        Suc depth > max_depth \<or> nesting_loop max_depth (Suc depth) in_string escaped cs
      else if c = CHR '']'' \<or> c = CHR ''}'' then
        nesting_loop max_depth (if depth > 0 then depth - 1 else depth) in_string escaped cs
      else nesting_loop max_depth depth in_string escaped cs)"

definition exceeds_json_nesting_depth :: "string \<Rightarrow> nat \<Rightarrow> bool" where
  "exceeds_json_nesting_depth payload max_depth = nesting_loop max_depth 0 False False payload"

subsection \<open>JSON text\<close>

definition white_space :: "string \<Rightarrow> bool" where
  "white_space t \<longleftrightarrow> set t \<subseteq> {CHR 0x20, CHR 0x09, CHR 0x0A, CHR 0x0D}"

definition json_scalar :: "string \<Rightarrow> bool" where
  "json_scalar t \<longleftrightarrow> t \<in> {''true'', ''false'', ''null''} \<or> (t \<noteq> [] \<and> set t \<subseteq> set ''0123456789+-.eE'')"

text \<open>The characters between the quotes of a string.\<close>

inductive json_chars :: "string \<Rightarrow> bool" where
  chars_end: "json_chars []"
| chars_plain: "c \<noteq> quote_char \<Longrightarrow> c \<noteq> backslash \<Longrightarrow> json_chars t \<Longrightarrow> json_chars (c # t)"
| chars_escape: "json_chars t \<Longrightarrow> json_chars (backslash # c # t)"

definition json_string :: "string \<Rightarrow> bool" where
  "json_string t \<longleftrightarrow> (\<exists>u. json_chars u \<and> t = quote_char # u @ [quote_char])"

text \<open>
  \<open>json_text t d\<close>: the text \<open>t\<close>, with white space around it, is a JSON value whose arrays and objects are
  nested \<open>d\<close> deep.
\<close>

inductive json_text :: "string \<Rightarrow> nat \<Rightarrow> bool"
  and json_elements :: "string \<Rightarrow> nat \<Rightarrow> bool"
  and json_members :: "string \<Rightarrow> nat \<Rightarrow> bool" where
  text_scalar: "json_scalar t \<Longrightarrow> json_text t 0"
| text_string: "json_string t \<Longrightarrow> json_text t 0"
| text_white_space: "json_text t d \<Longrightarrow> white_space u \<Longrightarrow> white_space v \<Longrightarrow> json_text (u @ t @ v) d"
| text_empty_array: "white_space u \<Longrightarrow> json_text (''['' @ u @ '']'') 1"
| text_array: "json_elements t d \<Longrightarrow> json_text (''['' @ t @ '']'') (Suc d)"
| text_empty_object: "white_space u \<Longrightarrow> json_text (''{'' @ u @ ''}'') 1"
| text_object: "json_members t d \<Longrightarrow> json_text (''{'' @ t @ ''}'') (Suc d)"
| elements_one: "json_text t d \<Longrightarrow> json_elements t d"
| elements_more: "json_text t d \<Longrightarrow> json_elements u e \<Longrightarrow> json_elements (t @ '','' @ u) (max d e)"
| members_one: "json_string n \<Longrightarrow> white_space u \<Longrightarrow> white_space v \<Longrightarrow> json_text t d \<Longrightarrow>
    json_members (u @ n @ v @ '':'' @ t) d"
| members_more: "json_string n \<Longrightarrow> white_space u \<Longrightarrow> white_space v \<Longrightarrow> json_text t d \<Longrightarrow>
    json_members w e \<Longrightarrow> json_members (u @ n @ v @ '':'' @ t @ '','' @ w) (max d e)"

subsection \<open>The check is exact\<close>

definition structural :: "char set" where
  "structural = {quote_char, CHR ''['', CHR ''{'', CHR '']'', CHR ''}''}"

text \<open>Characters without a role outside strings are skipped.\<close>

lemma loop_plain:
  "set t \<inter> structural = {} \<Longrightarrow>
   nesting_loop m k False False (t @ rest) = nesting_loop m k False False rest"
  by (induction t) (auto simp: structural_def)

lemma loop_white_space:
  "white_space t \<Longrightarrow> nesting_loop m k False False (t @ rest) = nesting_loop m k False False rest"
  by (rule loop_plain) (auto simp: white_space_def structural_def)

lemma loop_scalar:
  "json_scalar t \<Longrightarrow> nesting_loop m k False False (t @ rest) = nesting_loop m k False False rest"
  by (rule loop_plain) (auto simp: json_scalar_def structural_def)

lemma loop_chars:
  "json_chars t \<Longrightarrow> nesting_loop m k True False (t @ rest) = nesting_loop m k True False rest"
  by (induction rule: json_chars.induct) auto

lemma loop_string:
  "json_string t \<Longrightarrow> nesting_loop m k False False (t @ rest) = nesting_loop m k False False rest"
  by (auto simp: json_string_def loop_chars)

text \<open>
  Scanning a value from depth \<open>k\<close> either finds that the limit is exceeded within the value or arrives
  behind it at depth \<open>k\<close> again.
\<close>

lemma loop_text:
  "json_text t d \<Longrightarrow> (\<And>k rest. k \<le> m \<Longrightarrow>
     nesting_loop m k False False (t @ rest) = (m < k + d \<or> nesting_loop m k False False rest))"
  "json_elements t d \<Longrightarrow> (\<And>k rest. k \<le> m \<Longrightarrow>
     nesting_loop m k False False (t @ rest) = (m < k + d \<or> nesting_loop m k False False rest))"
  "json_members t d \<Longrightarrow> (\<And>k rest. k \<le> m \<Longrightarrow>
     nesting_loop m k False False (t @ rest) = (m < k + d \<or> nesting_loop m k False False rest))"
proof (induction rule: json_text_json_elements_json_members.inducts)
  case (text_array t d)
  then show ?case by (cases "Suc k \<le> m") auto
next
  case (text_object t d)
  then show ?case by (cases "Suc k \<le> m") auto
qed (auto simp: loop_scalar loop_string loop_white_space less_max_iff_disj)

text \<open>
  C39. The check of the nesting depth is exact for valid JSON: for every text that is a JSON value with
  arrays and objects nested \<open>d\<close> deep it reports that the limit is exceeded exactly if \<open>d\<close> is greater than
  the limit; brackets within strings, also behind escaped quotes, do not count.
\<close>

theorem nesting_depth_exact:
  assumes "json_text payload d"
  shows "exceeds_json_nesting_depth payload max_depth \<longleftrightarrow> d > max_depth"
  using loop_text(1) [OF assms, of 0 max_depth "[]"] by (simp add: exceeds_json_nesting_depth_def)

theorem nesting_depth_exact_witness:
  "\<not> exceeds_json_nesting_depth (''['' @ ([quote_char] @ [backslash, quote_char] @ ''[['' @ [quote_char]) @ '']'') 1"
proof -
  have "json_chars ([backslash, quote_char] @ ''[['')" by (auto intro: json_chars.intros)
  then have "json_string ([quote_char] @ [backslash, quote_char] @ ''[['' @ [quote_char])"
    by (auto simp: json_string_def)
  then have "json_text (''['' @ ([quote_char] @ [backslash, quote_char] @ ''[['' @ [quote_char]) @ '']'') (Suc 0)"
    by (intro json_text_json_elements_json_members.intros)
  from nesting_depth_exact [OF this, of 1] show ?thesis by simp
qed

end
