(* ===== verification/Message_Queue.thy ===== *)
theory Message_Queue
  imports Ocpp_Json Json_Nesting "HOL-Library.Word"
begin

text \<open>
  The message queue of the OCPP library, after \<^verbatim>\<open>ocpp/common/message_queue.hpp\<close>. The class is a template
  over the message type; here the type is a type variable, and what the template uses of it is the
  record \<open>message_kinds\<close>.

  A member function that takes the mutex of the queue is one step here; so is one round of the loop of
  the worker thread, and the action that it runs without the mutex separates two. The functions that
  push a call create the control message before they take the mutex; the step stands for the section
  that adds the message, and the order of the messages is the order of these sections. The few functions
  that take no mutex are single steps, too. Waking a waiting thread is not recorded: a round may run
  whenever the condition it waits for holds. Times are in milliseconds. What the code takes from its
  environment in a step is the record \<open>mq_env\<close>: the current time, the id that is created for a retry,
  whether the message could be sent.

  A shared control message is identified by the number \<open>cm_ref\<close>, which stands for its address. The
  ghost fields of the state record the messages sent, the promises set and the callbacks made.
\<close>

subsection \<open>Configuration and messages\<close>

record 'm message_kinds =
  mk_is_transaction :: "'m \<Rightarrow> bool"
  mk_is_start :: "'m \<Rightarrow> bool"
  mk_is_boot :: "'m \<Rightarrow> bool"
  mk_is_update :: "'m \<Rightarrow> bool"
  mk_to_string :: "'m \<Rightarrow> string"
  mk_of_string :: "string \<Rightarrow> 'm option"
  mk_internal_error :: 'm
  mk_iequals :: "string \<Rightarrow> string \<Rightarrow> bool"

record 'm MessageQueueConfig =
  transaction_message_attempts :: int
  transaction_message_retry_interval :: int
  queues_total_size_threshold :: int
  queue_all_messages :: bool
  message_types_discard_for_queueing :: "'m list"
  message_timeout_seconds :: int
  boot_notification_retry_interval_seconds :: int

definition check_queue :: "'m MessageQueueConfig \<Rightarrow> 'm \<Rightarrow> bool" where
  "check_queue c t = (queue_all_messages c \<and> t \<notin> set (message_types_discard_for_queueing c))"

record 'm EnhancedMessage =
  em_message :: json
  em_message_size :: nat
  em_uniqueId :: string
  em_messageType :: 'm
  em_messageTypeId :: MessageTypeId
  em_call_message :: json
  em_offline :: bool

definition new_enhanced_message :: "'m message_kinds \<Rightarrow> 'm EnhancedMessage" where
  "new_enhanced_message k =
     \<lparr>em_message = JNull, em_message_size = 0, em_uniqueId = [], em_messageType = mk_internal_error k,
      em_messageTypeId = UNKNOWN, em_call_message = JNull, em_offline = False\<rparr>"

text \<open>
  The number of attempts has 32 bits with a sign; \<open>send_message\<close> has the one addition to it.
\<close>

record 'm ControlMessage =
  cm_ref :: nat
  cm_message :: "json list"
  cm_messageType :: 'm
  cm_message_attempts :: int
  cm_timestamp :: int
  cm_initial_unique_id :: string
  cm_stall_until_accepted :: bool

datatype mq_error =
  MalformedRpcMessage | JsonException | MessageIdTooLong | StringToEnumException

text \<open>\<^verbatim>\<open>MessageId\<close> is a case insensitive string of at most 36 characters.\<close>

definition message_id_of :: "json list \<Rightarrow> mq_error + string" where
  "message_id_of a =
     (case json_at a MESSAGE_ID of
        None \<Rightarrow> Inl JsonException
      | Some v \<Rightarrow> (case json_get_string v of
            None \<Rightarrow> Inl JsonException
          | Some i \<Rightarrow> (case ci_string 36 i Throw of Inl e \<Rightarrow> Inl MessageIdTooLong | Inr i \<Rightarrow> Inr i)))"

definition new_control_message ::
  "'m message_kinds \<Rightarrow> int \<Rightarrow> nat \<Rightarrow> json \<Rightarrow> bool \<Rightarrow> mq_error + 'm ControlMessage" where
  "new_control_message k now ref message stall =
     (case json_get_array message of
        None \<Rightarrow> Inl JsonException
      | Some a \<Rightarrow>
          (case Option.bind (json_at a CALL_ACTION) json_get_string of
             None \<Rightarrow> Inl JsonException
           | Some action \<Rightarrow>
               (case mk_of_string k action of
                  None \<Rightarrow> Inl StringToEnumException
                | Some t \<Rightarrow>
                    (case message_id_of a of
                       Inl e \<Rightarrow> Inl e
                     | Inr i \<Rightarrow> Inr \<lparr>cm_ref = ref, cm_message = a, cm_messageType = t,
                         cm_message_attempts = 0, cm_timestamp = now, cm_initial_unique_id = i,
                         cm_stall_until_accepted = stall\<rparr>))))"

text \<open>The id in a control message; its constructor made sure that it is there.\<close>

definition uniqueId :: "'m ControlMessage \<Rightarrow> string" where
  "uniqueId m = (case message_id_of (cm_message m) of Inr i \<Rightarrow> i | Inl e \<Rightarrow> [])"

definition set_message_id :: "string \<Rightarrow> 'm ControlMessage \<Rightarrow> 'm ControlMessage" where
  "set_message_id i m = m\<lparr>cm_message := (cm_message m)[MESSAGE_ID := JString i]\<rparr>"

datatype MessageTransmissionPriority =
  SendImmediately | SendAfterRegistrationStatusAccepted | Discard

definition get_message_transmission_priority ::
  "bool \<Rightarrow> bool \<Rightarrow> bool \<Rightarrow> bool \<Rightarrow> bool \<Rightarrow> bool \<Rightarrow> MessageTransmissionPriority" where
  "get_message_transmission_priority is_boot triggered already_accepted is_transaction_related
     queue_all queue_until_accepted =
     (if already_accepted \<or> is_boot \<or> triggered then SendImmediately
      else if is_transaction_related \<or> queue_all \<or> queue_until_accepted
      then SendAfterRegistrationStatusAccepted
      else Discard)"

definition allowed_to_send_message :: "'m ControlMessage \<Rightarrow> int \<Rightarrow> bool \<Rightarrow> bool" where
  "allowed_to_send_message m time is_registration_status_accepted =
     (if cm_stall_until_accepted m \<and> \<not> is_registration_status_accepted then False
      else if cm_timestamp m > time then False else True)"

subsection \<open>State\<close>

datatype QueueType = QNormal | QTransaction | QNone

record DBTransactionMessage =
  db_json_message :: json
  db_message_type :: string
  db_message_attempts :: int
  db_timestamp :: int
  db_unique_id :: string

datatype db_call =
    Db_Insert QueueType string | Db_Remove QueueType string | Db_Read QueueType | Db_Clear QueueType

record 'm message_queue =
  config :: "'m MessageQueueConfig"
  transaction_message_queue :: "'m ControlMessage list"
  normal_message_queue :: "'m ControlMessage list"
  in_flight :: "'m ControlMessage option"
  paused :: bool
  resuming :: bool
  idle_actions :: "nat list"
  running :: bool
  new_message :: bool
  is_registration_status_accepted :: bool
  next_message_to_send :: "string option"
  in_flight_timeout_timer :: "(nat \<times> string \<times> int) option"
  notify_queue_timer :: "int option"
  resume_timer :: "(64 word \<times> int) option"
  pause_resume_ctr :: "64 word"
  message_id_transaction_id_map :: "(string \<times> int) list"
  start_transaction_mid_meter_values_mid_map :: "(string \<times> string list) list"
  transaction_table :: "DBTransactionMessage list"
  normal_table :: "DBTransactionMessage list"
  database_works :: "db_call list \<Rightarrow> bool"
  database_order :: "db_call list \<Rightarrow> DBTransactionMessage \<Rightarrow> nat"
  db_calls :: "db_call list"
  next_ref :: nat
  worker_active :: bool
  running_action :: "(bool \<times> 64 word) option"
  sent :: "'m ControlMessage list"
  responses :: "json list"
  promises :: "(nat \<times> 'm EnhancedMessage) list"
  retry_calls :: "(string \<times> string) list"

record mq_env =
  mqe_now :: int
  mqe_retry_now :: int
  mqe_new_id :: string
  mqe_send_ok :: bool

definition new_message_queue :: "'m MessageQueueConfig \<Rightarrow> DBTransactionMessage list \<Rightarrow>
    DBTransactionMessage list \<Rightarrow> (db_call list \<Rightarrow> bool) \<Rightarrow>
    (db_call list \<Rightarrow> DBTransactionMessage \<Rightarrow> nat) \<Rightarrow> 'm message_queue" where
  "new_message_queue c transactions normals works order =
     \<lparr>config = c, transaction_message_queue = [], normal_message_queue = [], in_flight = None,
      paused = True, resuming = False, idle_actions = [], running = True, new_message = False,
      is_registration_status_accepted = False, next_message_to_send = None,
      in_flight_timeout_timer = None, notify_queue_timer = None, resume_timer = None,
      pause_resume_ctr = 0, message_id_transaction_id_map = [],
      start_transaction_mid_meter_values_mid_map = [], transaction_table = transactions,
      normal_table = normals, database_works = works, database_order = order, db_calls = [], next_ref = 0,
      worker_active = False, running_action = None, sent = [], responses = [], promises = [],
      retry_calls = []\<rparr>"

subsection \<open>Database\<close>

text \<open>
  The tables of \<^verbatim>\<open>database_handler_common.cpp\<close>, whose key is the id. A statement fails where the
  database does, and an insertion also where the key is taken; every caller catches the exception. The
  tables hold the rows that can be read back; the text of any JSON value may be stored, and a row whose
  text is no JSON or has no valid time is skipped by the reading function and is not part of the model.
  The query that reads a table asks for no order: the rows come in the order of the ranks that
  \<open>database_order\<close> gives them, which is arbitrary.
\<close>

definition table_of :: "QueueType \<Rightarrow> 'm message_queue \<Rightarrow> DBTransactionMessage list" where
  "table_of q s = (if q = QNormal then normal_table s else transaction_table s)"

definition update_table ::
  "QueueType \<Rightarrow> (DBTransactionMessage list \<Rightarrow> DBTransactionMessage list) \<Rightarrow> 'm message_queue \<Rightarrow>
     'm message_queue" where
  "update_table q f s =
     (if q = QNormal then s\<lparr>normal_table := f (normal_table s)\<rparr>
      else s\<lparr>transaction_table := f (transaction_table s)\<rparr>)"

definition db_statement ::
  "db_call \<Rightarrow> ('m message_queue \<Rightarrow> 'm message_queue) \<Rightarrow> 'm message_queue \<Rightarrow> 'm message_queue" where
  "db_statement c f s =
     (let s = s\<lparr>db_calls := db_calls s @ [c]\<rparr>
      in if database_works s (db_calls s) then f s else s)"

definition insert_message_queue_message ::
  "DBTransactionMessage \<Rightarrow> QueueType \<Rightarrow> 'm message_queue \<Rightarrow> 'm message_queue" where
  "insert_message_queue_message row q s =
     db_statement (Db_Insert q (db_unique_id row))
       (\<lambda>s. if db_unique_id row \<in> db_unique_id ` set (table_of q s) then s
            else update_table q (\<lambda>rows. rows @ [row]) s) s"

definition remove_message_queue_message ::
  "string \<Rightarrow> QueueType \<Rightarrow> 'm message_queue \<Rightarrow> 'm message_queue" where
  "remove_message_queue_message i q s =
     db_statement (Db_Remove q i) (update_table q (filter (\<lambda>row. db_unique_id row \<noteq> i))) s"

definition clear_message_queue :: "QueueType \<Rightarrow> 'm message_queue \<Rightarrow> 'm message_queue" where
  "clear_message_queue q s = db_statement (Db_Clear q) (update_table q (\<lambda>rows. [])) s"

definition get_message_queue_messages ::
  "QueueType \<Rightarrow> 'm message_queue \<Rightarrow> DBTransactionMessage list option \<times> 'm message_queue" where
  "get_message_queue_messages q s =
     (let s = s\<lparr>db_calls := db_calls s @ [Db_Read q]\<rparr>
      in (if database_works s (db_calls s) then Some (sort_key (database_order s (db_calls s)) (table_of q s)) else None, s))"

definition db_row :: "'m message_kinds \<Rightarrow> 'm ControlMessage \<Rightarrow> DBTransactionMessage" where
  "db_row k m =
     \<lparr>db_json_message = JArray (cm_message m), db_message_type = mk_to_string k (cm_messageType m),
      db_message_attempts = cm_message_attempts m, db_timestamp = cm_timestamp m,
      db_unique_id = uniqueId m\<rparr>"

subsection \<open>Limiting the size of the queues\<close>

text \<open>The comparison of the sizes with the threshold converts it to the unsigned type of the sizes.\<close>

definition size_threshold :: "'m MessageQueueConfig \<Rightarrow> nat" where
  "size_threshold c = nat (queues_total_size_threshold c mod 2 ^ 64)"

definition queues_size :: "'m message_queue \<Rightarrow> nat" where
  "queues_size s = length (transaction_message_queue s) + length (normal_message_queue s)"

text \<open>The queue that is left and the messages dropped.\<close>

fun drop_normal_loop ::
  "'m message_kinds \<Rightarrow> int \<Rightarrow> 'm ControlMessage list \<Rightarrow> 'm ControlMessage list \<times> 'm ControlMessage list" where
  "drop_normal_loop k n [] = ([], [])"
| "drop_normal_loop k n (m # q) =
     (if n \<le> 0 then (m # q, [])
      else if mk_is_boot k (cm_messageType m) then
        (let (kept, dropped) = drop_normal_loop k n q in (m # kept, dropped))
      else (let (kept, dropped) = drop_normal_loop k (n - 1) q in (kept, m # dropped)))"

definition drop_messages_from_normal_message_queue ::
  "'m message_kinds \<Rightarrow> 'm message_queue \<Rightarrow> 'm message_queue" where
  "drop_messages_from_normal_message_queue k s =
     (let n = min (int (length (normal_message_queue s)))
                (max (queues_total_size_threshold (config s) div 10) 1);
          (kept, dropped) = drop_normal_loop k n (normal_message_queue s);
          s = s\<lparr>normal_message_queue := kept\<rparr>
      in if queue_all_messages (config s)
         then fold (\<lambda>m. remove_message_queue_message (cm_initial_unique_id m) QNormal) dropped s
         else s)"

fun drop_update_loop ::
  "'m message_kinds \<Rightarrow> bool \<Rightarrow> 'm ControlMessage list \<Rightarrow> 'm ControlMessage list \<times> 'm ControlMessage list" where
  "drop_update_loop k remove_next [] = ([], [])"
| "drop_update_loop k remove_next (m # q) =
     (if remove_next \<and> mk_is_update k (cm_messageType m) \<and> length q > 1
      then (let (kept, dropped) = drop_update_loop k False q in (kept, m # dropped))
      else (let (kept, dropped) = drop_update_loop k True q in (m # kept, dropped)))"

definition drop_update_messages_from_transactional_message_queue ::
  "'m message_kinds \<Rightarrow> 'm message_queue \<Rightarrow> bool \<times> 'm message_queue" where
  "drop_update_messages_from_transactional_message_queue k s =
     (let (kept, dropped) = drop_update_loop k True (transaction_message_queue s);
          s = fold (\<lambda>m. remove_message_queue_message (cm_initial_unique_id m) QTransaction) dropped
                (s\<lparr>transaction_message_queue := kept\<rparr>)
      in (dropped \<noteq> [], s))"

lemma fold_remove_fields [simp]:
  "normal_message_queue (fold (\<lambda>m. remove_message_queue_message (f m) q) ms s) = normal_message_queue s"
  "transaction_message_queue (fold (\<lambda>m. remove_message_queue_message (f m) q) ms s) =
     transaction_message_queue s"
  "config (fold (\<lambda>m. remove_message_queue_message (f m) q) ms s) = config s"
  by (induction ms arbitrary: s)
    (simp_all add: remove_message_queue_message_def db_statement_def update_table_def Let_def)

lemma drop_normal_loop_length:
  "drop_normal_loop k n q = (kept, dropped) \<Longrightarrow> length q = length kept + length dropped"
  by (induction k n q arbitrary: kept dropped rule: drop_normal_loop.induct)
    (auto split: if_splits prod.splits)

lemma drop_update_loop_length:
  "drop_update_loop k b q = (kept, dropped) \<Longrightarrow> length q = length kept + length dropped"
  by (induction k b q arbitrary: kept dropped rule: drop_update_loop.induct)
    (auto split: if_splits prod.splits)

lemma drop_messages_shrinks:
  "length (normal_message_queue (drop_messages_from_normal_message_queue k s)) \<le>
     length (normal_message_queue s)"
  by (auto simp: drop_messages_from_normal_message_queue_def Let_def dest: drop_normal_loop_length
      split: prod.splits)

lemma drop_update_shrinks:
  "drop_update_messages_from_transactional_message_queue k s = (True, s') \<Longrightarrow>
   length (transaction_message_queue s') < length (transaction_message_queue s)"
  by (auto simp: drop_update_messages_from_transactional_message_queue_def Let_def
      dest: drop_update_loop_length split: prod.splits)

text \<open>The two loops of \<^verbatim>\<open>check_queue_sizes\<close>; each round but the last shortens a queue.\<close>

function trim_normal :: "'m message_kinds \<Rightarrow> 'm message_queue \<Rightarrow> 'm message_queue" where
  "trim_normal k s =
     (if queues_size s > size_threshold (config s) \<and> normal_message_queue s \<noteq> []
      then let s' = drop_messages_from_normal_message_queue k s
           in if length (normal_message_queue s') = length (normal_message_queue s) then s'
              else trim_normal k s'
      else s)"
  by pat_completeness auto
termination
  by (relation "measure (\<lambda>(k, s). length (normal_message_queue s))")
    (auto simp: le_neq_implies_less [OF drop_messages_shrinks])

function trim_updates :: "'m message_kinds \<Rightarrow> 'm message_queue \<Rightarrow> 'm message_queue" where
  "trim_updates k s =
     (if queues_size s > size_threshold (config s)
      then case drop_update_messages_from_transactional_message_queue k s of
             (True, s') \<Rightarrow> trim_updates k s'
           | (False, s') \<Rightarrow> s'
      else s)"
  by pat_completeness auto
termination
  by (relation "measure (\<lambda>(k, s). length (transaction_message_queue s))")
    (auto dest: drop_update_shrinks [OF sym])

declare trim_normal.simps [simp del] trim_updates.simps [simp del]

definition check_queue_sizes :: "'m message_kinds \<Rightarrow> 'm message_queue \<Rightarrow> 'm message_queue" where
  "check_queue_sizes k s =
     (if queues_size s \<le> size_threshold (config s) then s else trim_updates k (trim_normal k s))"

subsection \<open>Adding messages\<close>

definition add_to_normal_message_queue ::
  "'m message_kinds \<Rightarrow> 'm ControlMessage \<Rightarrow> 'm message_queue \<Rightarrow> 'm message_queue" where
  "add_to_normal_message_queue k m s =
     (let s = (if mk_is_boot k (cm_messageType m)
               then s\<lparr>normal_message_queue := m # normal_message_queue s\<rparr>
               else s\<lparr>normal_message_queue := normal_message_queue s @ [m]\<rparr>);
          s = (if check_queue (config s) (cm_messageType m)
               then insert_message_queue_message (db_row k m) QNormal s else s)
      in check_queue_sizes k (s\<lparr>new_message := True\<rparr>))"

definition add_to_transaction_message_queue ::
  "'m message_kinds \<Rightarrow> 'm ControlMessage \<Rightarrow> 'm message_queue \<Rightarrow> 'm message_queue" where
  "add_to_transaction_message_queue k m s =
     (let s = s\<lparr>transaction_message_queue := transaction_message_queue s @ [m]\<rparr>;
          s = insert_message_queue_message (db_row k m) QTransaction s
      in check_queue_sizes k (s\<lparr>new_message := True\<rparr>))"

text \<open>A control message is created first; its address is a new one.\<close>

definition push_call ::
  "'m message_kinds \<Rightarrow> mq_env \<Rightarrow> json \<Rightarrow> bool \<Rightarrow> 'm message_queue \<Rightarrow> mq_error option \<times> 'm message_queue" where
  "push_call k env message stall s =
     (if \<not> running s then (None, s)
      else
        case new_control_message k (mqe_now env) (next_ref s) message stall of
          Inl e \<Rightarrow> (Some e, s)
        | Inr m \<Rightarrow>
            let s = s\<lparr>next_ref := Suc (next_ref s)\<rparr>
            in (None,
                if mk_is_transaction k (cm_messageType m) then add_to_transaction_message_queue k m s
                else if \<not> paused s \<or> resuming s \<or> cm_stall_until_accepted m \<or>
                        check_queue (config s) (cm_messageType m) \<or> mk_is_boot k (cm_messageType m)
                then add_to_normal_message_queue k m s
                else s))"

text \<open>\<^verbatim>\<open>set_value\<close> of the promise of a control message.\<close>

definition set_promise :: "nat \<Rightarrow> 'm EnhancedMessage \<Rightarrow> 'm message_queue \<Rightarrow> 'm message_queue" where
  "set_promise ref v s = s\<lparr>promises := promises s @ [(ref, v)]\<rparr>"

definition offline_message :: "'m message_kinds \<Rightarrow> 'm EnhancedMessage" where
  "offline_message k = (new_enhanced_message k)\<lparr>em_offline := True\<rparr>"

text \<open>The result is the message whose future is returned.\<close>

definition push_call_async ::
  "'m message_kinds \<Rightarrow> mq_env \<Rightarrow> json \<Rightarrow> 'm message_queue \<Rightarrow> (mq_error + nat) \<times> 'm message_queue" where
  "push_call_async k env call s =
     (case new_control_message k (mqe_now env) (next_ref s) call False of
        Inl e \<Rightarrow> (Inl e, s)
      | Inr m \<Rightarrow>
          let s = s\<lparr>next_ref := Suc (next_ref s)\<rparr>
          in (Inr (cm_ref m),
              if \<not> running s then set_promise (cm_ref m) (offline_message k) s
              else if mk_is_transaction k (cm_messageType m) then add_to_transaction_message_queue k m s
              else if paused s \<and> \<not> check_queue (config s) (cm_messageType m) \<and> \<not> resuming s \<and>
                      \<not> mk_is_boot k (cm_messageType m)
              then set_promise (cm_ref m) (offline_message k) s
              else add_to_normal_message_queue k m s))"

subsection \<open>Messages that were not delivered\<close>

definition reset_in_flight :: "'m message_queue \<Rightarrow> 'm message_queue" where
  "reset_in_flight s = s\<lparr>in_flight := None, in_flight_timeout_timer := None\<rparr>"

definition queue_type_of :: "'m message_kinds \<Rightarrow> 'm ControlMessage \<Rightarrow> QueueType" where
  "queue_type_of k m = (if mk_is_transaction k (cm_messageType m) then QTransaction else QNormal)"

text \<open>The time of the next attempt.\<close>

definition retry_time :: "'m MessageQueueConfig \<Rightarrow> mq_env \<Rightarrow> 'm ControlMessage \<Rightarrow> int" where
  "retry_time c env m =
     (if transaction_message_retry_interval c > 0
      then cm_timestamp m + 1000 * transaction_message_retry_interval c * cm_message_attempts m
      else mqe_retry_now env)"

definition retry_message ::
  "'m message_kinds \<Rightarrow> mq_env \<Rightarrow> 'm ControlMessage \<Rightarrow> 'm message_queue \<Rightarrow> 'm message_queue" where
  "retry_message k env m s =
     (let old_message_id = uniqueId m;
          m = (set_message_id (mqe_new_id env) m)\<lparr>cm_timestamp := retry_time (config s) env m\<rparr>;
          s = (if queue_type_of k m = QTransaction
               then s\<lparr>transaction_message_queue := m # transaction_message_queue s\<rparr>
               else s\<lparr>normal_message_queue := m # normal_message_queue s\<rparr>);
          s = (if mk_is_start k (cm_messageType m)
               then s\<lparr>retry_calls := retry_calls s @ [(uniqueId m, old_message_id)]\<rparr> else s)
      in s\<lparr>notify_queue_timer := Some (cm_timestamp m)\<rparr>)"

definition retry_boot_notification ::
  "mq_env \<Rightarrow> 'm ControlMessage \<Rightarrow> 'm message_queue \<Rightarrow> 'm message_queue" where
  "retry_boot_notification env m s =
     (let m = (set_message_id (mqe_new_id env) m)\<lparr>cm_timestamp :=
                cm_timestamp m + 1000 * boot_notification_retry_interval_seconds (config s)\<rparr>
      in s\<lparr>normal_message_queue := m # normal_message_queue s,
           notify_queue_timer := Some (cm_timestamp m)\<rparr>)"

text \<open>The answer given to the caller of a message that is given up.\<close>

definition give_up ::
  "'m message_kinds \<Rightarrow> 'm EnhancedMessage option \<Rightarrow> 'm ControlMessage \<Rightarrow> 'm message_queue \<Rightarrow>
     'm message_queue" where
  "give_up k enhanced_message_opt m s =
     set_promise (cm_ref m)
       (case enhanced_message_opt of Some e \<Rightarrow> e | None \<Rightarrow> offline_message k) s"

definition handle_timeout_or_callerror ::
  "'m message_kinds \<Rightarrow> mq_env \<Rightarrow> 'm EnhancedMessage option \<Rightarrow> 'm message_queue \<Rightarrow> 'm message_queue" where
  "handle_timeout_or_callerror k env enhanced_message_opt s =
     (case in_flight s of
        None \<Rightarrow> s
      | Some m \<Rightarrow>
          reset_in_flight
            (if mk_is_transaction k (cm_messageType m) \<or> check_queue (config s) (cm_messageType m) then
               if cm_message_attempts m < transaction_message_attempts (config s)
               then retry_message k env m s
               else remove_message_queue_message (cm_initial_unique_id m) (queue_type_of k m)
                      (give_up k enhanced_message_opt m s)
             else if mk_is_boot k (cm_messageType m) then retry_boot_notification env m s
             else give_up k enhanced_message_opt m s))"

subsection \<open>The worker thread\<close>

text \<open>The sum is unsigned, since the attempt is.\<close>

definition current_message_timeout :: "'m MessageQueueConfig \<Rightarrow> 32 word \<Rightarrow> int" where
  "current_message_timeout c attempt =
     uint (word_of_int (message_timeout_seconds c) +
           word_of_int (transaction_message_retry_interval c) * attempt)"

definition worker_awake :: "'m message_queue \<Rightarrow> bool" where
  "worker_awake s \<longleftrightarrow> \<not> running s \<or> (idle_actions s \<noteq> [] \<and> in_flight s = None) \<or>
     (\<not> paused s \<and> new_message s \<and> in_flight s = None)"

definition is_transaction_message_available ::
  "'m message_kinds \<Rightarrow> int \<Rightarrow> bool \<Rightarrow> 'm ControlMessage option \<Rightarrow> 'm ControlMessage \<Rightarrow> bool" where
  "is_transaction_message_available k now accepted message msg =
     (if \<not> allowed_to_send_message msg now accepted then False
      else case message of
        None \<Rightarrow> True
      | Some m \<Rightarrow>
          if mk_is_boot k (cm_messageType m) then False
          else if cm_timestamp msg \<le> cm_timestamp m then True else False)"

definition select_message ::
  "'m message_kinds \<Rightarrow> int \<Rightarrow> 'm message_queue \<Rightarrow> (QueueType \<times> 'm ControlMessage) option" where
  "select_message k now s =
     (let accepted = is_registration_status_accepted s;
          message = find (\<lambda>m. allowed_to_send_message m now accepted) (normal_message_queue s);
          normal = map_option (Pair QNormal) message
      in case transaction_message_queue s of
           [] \<Rightarrow> normal
         | front # queue \<Rightarrow>
             if is_transaction_message_available k now accepted message front
             then Some (QTransaction, front) else normal)"

text \<open>\<open>None\<close> where the payload is missing or cannot have members.\<close>

definition set_transaction_id :: "int \<Rightarrow> json list \<Rightarrow> json list option" where
  "set_transaction_id i a =
     (case json_at a CALL_PAYLOAD of
        None \<Rightarrow> None
      | Some payload \<Rightarrow>
          map_option (\<lambda>p. a[CALL_PAYLOAD := p]) (json_set_member ''transactionId'' (JInt i) payload))"

definition replace_transaction_id ::
  "'m ControlMessage \<Rightarrow> 'm message_queue \<Rightarrow> ('m ControlMessage \<times> 'm message_queue) option" where
  "replace_transaction_id m s =
     (case map_of (message_id_transaction_id_map s) (uniqueId m) of
        None \<Rightarrow> Some (m, s)
      | Some i \<Rightarrow>
          map_option (\<lambda>a. (m\<lparr>cm_message := a\<rparr>,
              s\<lparr>message_id_transaction_id_map :=
                  filter (\<lambda>e. fst e \<noteq> uniqueId m) (message_id_transaction_id_map s)\<rparr>))
            (set_transaction_id i (cm_message m)))"

text \<open>
  Sending the selected message; \<open>None\<close> where an exception leaves the thread, or where the number of
  attempts overflows, which is undefined.
\<close>

definition send_message ::
  "'m message_kinds \<Rightarrow> mq_env \<Rightarrow> QueueType \<Rightarrow> 'm ControlMessage \<Rightarrow> 'm message_queue \<Rightarrow>
     'm message_queue option" where
  "send_message k env q message s =
     (if cm_message_attempts message = 2147483647 then None
      else case replace_transaction_id (message\<lparr>cm_message_attempts := cm_message_attempts message + 1\<rparr>) s of
        None \<Rightarrow> None
      | Some (m, s) \<Rightarrow>
          let s = s\<lparr>in_flight := Some m\<rparr>;
              s = (case q of
                     QNormal \<Rightarrow> s\<lparr>normal_message_queue := remove1 message (normal_message_queue s)\<rparr>
                   | QTransaction \<Rightarrow> s\<lparr>transaction_message_queue := tl (transaction_message_queue s)\<rparr>
                   | QNone \<Rightarrow> s);
              s = s\<lparr>sent := sent s @ [m]\<rparr>;
              s = (if \<not> mqe_send_ok env then handle_timeout_or_callerror k env None s
                   else s\<lparr>in_flight_timeout_timer := Some (cm_ref m, uniqueId m,
                          current_message_timeout (config s) (word_of_int (cm_message_attempts m)))\<rparr>)
          in Some (if transaction_message_queue s = [] \<and> normal_message_queue s = []
                   then s\<lparr>new_message := False\<rparr> else s))"

text \<open>\<^verbatim>\<open>pause\<close> settles a message in flight as a timeout.\<close>

definition pause :: "'m message_kinds \<Rightarrow> mq_env \<Rightarrow> 'm message_queue \<Rightarrow> 'm message_queue" where
  "pause k env s =
     (let s = s\<lparr>pause_resume_ctr := pause_resume_ctr s + 1, resume_timer := None, paused := True,
                resuming := False\<rparr>
      in if in_flight s \<noteq> None then handle_timeout_or_callerror k env None s else s)"

definition resume_now :: "64 word \<Rightarrow> 'm message_queue \<Rightarrow> 'm message_queue" where
  "resume_now expected s =
     (if pause_resume_ctr s = expected then s\<lparr>paused := False, resuming := False\<rparr> else s)"

definition resume :: "int \<Rightarrow> 'm message_queue \<Rightarrow> 'm message_queue" where
  "resume delay_on_reconnect s =
     (if \<not> paused s then s
      else
        let s = s\<lparr>pause_resume_ctr := pause_resume_ctr s + 1\<rparr>
        in if pause_resume_ctr s > 1 \<and> delay_on_reconnect > 0
           then s\<lparr>resuming := True, resume_timer := Some (pause_resume_ctr s, delay_on_reconnect)\<rparr>
           else resume_now (pause_resume_ctr s) s)"

text \<open>The part of the round before the action runs, and the part behind it.\<close>

definition begin_idle_action :: "'m message_kinds \<Rightarrow> mq_env \<Rightarrow> 'm message_queue \<Rightarrow> 'm message_queue" where
  "begin_idle_action k env s =
     (let s = s\<lparr>idle_actions := tl (idle_actions s)\<rparr>;
          paused_for_action = (\<not> paused s);
          s = (if paused_for_action then pause k env s else s)
      in s\<lparr>running_action := Some (paused_for_action, pause_resume_ctr s)\<rparr>)"

definition end_idle_action :: "bool \<Rightarrow> 'm message_queue \<Rightarrow> 'm message_queue" where
  "end_idle_action still_connected s =
     (case running_action s of
        None \<Rightarrow> s
      | Some (paused_for_action, ctr_before) \<Rightarrow>
          let s = s\<lparr>running_action := None\<rparr>;
              s = (if paused_for_action \<and> still_connected \<and> ctr_before = pause_resume_ctr s
                   then resume 0 s else s)
          in s\<lparr>worker_active := running s\<rparr>)"

text \<open>
  One round of the loop; the thread leaves the loop behind a round that finds the queue stopped. A
  message is held back while the answer to a received call is to be sent first.
\<close>

definition worker_round ::
  "'m message_kinds \<Rightarrow> mq_env \<Rightarrow> 'm message_queue \<Rightarrow> 'm message_queue option" where
  "worker_round k env s =
     (if running s \<and> idle_actions s \<noteq> [] \<and> in_flight s = None
      then Some (begin_idle_action k env s)
      else
        map_option (\<lambda>s. s\<lparr>worker_active := running s\<rparr>)
          (if paused s \<or> in_flight s \<noteq> None then Some s
           else case select_message k (mqe_now env) s of
             None \<Rightarrow> Some (s\<lparr>new_message := False\<rparr>)
           | Some (q, message) \<Rightarrow>
               if (case next_message_to_send s of
                     Some i \<Rightarrow> ci_ne i (uniqueId message) | None \<Rightarrow> False)
               then Some s
               else send_message k env q message s))"

definition start :: "'m message_queue \<Rightarrow> 'm message_queue" where
  "start s = s\<lparr>worker_active := running s\<rparr>"

text \<open>\<^verbatim>\<open>stop\<close> waits for the end of the worker thread before it stops the timers.\<close>

definition stop :: "'m message_queue \<Rightarrow> 'm message_queue" where
  "stop s = s\<lparr>running := False, idle_actions := []\<rparr>"

definition stop_timers :: "'m message_queue \<Rightarrow> 'm message_queue" where
  "stop_timers s = s\<lparr>in_flight_timeout_timer := None, notify_queue_timer := None, resume_timer := None\<rparr>"

subsection \<open>Timers\<close>

definition in_flight_timeout_fires ::
  "'m message_kinds \<Rightarrow> mq_env \<Rightarrow> 'm message_queue \<Rightarrow> 'm message_queue" where
  "in_flight_timeout_fires k env s =
     (case in_flight_timeout_timer s of
        None \<Rightarrow> s
      | Some (ref, message_id, timeout) \<Rightarrow>
          let s = s\<lparr>in_flight_timeout_timer := None\<rparr>
          in (case in_flight s of
                None \<Rightarrow> s
              | Some m \<Rightarrow>
                  if cm_ref m \<noteq> ref \<or> ci_ne (uniqueId m) message_id then s
                  else handle_timeout_or_callerror k env None s))"

definition notify_queue_timer_fires :: "'m message_queue \<Rightarrow> 'm message_queue" where
  "notify_queue_timer_fires s =
     (case notify_queue_timer s of
        None \<Rightarrow> s | Some t \<Rightarrow> s\<lparr>notify_queue_timer := None, new_message := True\<rparr>)"

definition resume_timer_fires :: "'m message_queue \<Rightarrow> 'm message_queue" where
  "resume_timer_fires s =
     (case resume_timer s of
        None \<Rightarrow> s | Some (expected, delay) \<Rightarrow> resume_now expected (s\<lparr>resume_timer := None\<rparr>))"

subsection \<open>Received messages\<close>

definition getMessageId :: "json list \<Rightarrow> mq_error + string" where
  "getMessageId a = (if length a < 2 then Inl MalformedRpcMessage else message_id_of a)"

text \<open>The comparison is with integers; a type id that is written as a floating point number is not modelled.\<close>

definition getMessageTypeId :: "json list \<Rightarrow> MessageTypeId" where
  "getMessageTypeId a =
     (if a = [] then UNKNOWN
      else
        let v = a ! MESSAGE_TYPE_ID
        in if v = JInt (message_type_id_value CALL) then CALL
           else if v = JInt (message_type_id_value CALLRESULT) then CALLRESULT
           else if v = JInt (message_type_id_value CALLERROR) then CALLERROR
           else UNKNOWN)"

definition isValidMessageType :: "json list \<Rightarrow> bool" where
  "isValidMessageType a = (if getMessageTypeId a \<noteq> UNKNOWN then True else False)"

definition MAX_JSON_NESTING_DEPTH :: nat where
  "MAX_JSON_NESTING_DEPTH = 64"

text \<open>
  \<^verbatim>\<open>handle_call_result\<close>, for an answer to the message in flight; the type of an answer is the action of
  the call with a suffix.
\<close>

definition handle_call_result ::
  "'m message_kinds \<Rightarrow> 'm EnhancedMessage \<Rightarrow> 'm message_queue \<Rightarrow>
     (mq_error + 'm EnhancedMessage) \<times> 'm message_queue" where
  "handle_call_result k e s =
     (case in_flight s of
        None \<Rightarrow> (Inr e, s)
      | Some m \<Rightarrow>
          if \<not> ci_eq (mk_iequals k) (uniqueId m) (em_uniqueId e) then (Inr e, s)
          else
            let e = e\<lparr>em_call_message := JArray (cm_message m)\<rparr>
            in case Option.bind (json_at (cm_message m) CALL_ACTION) json_get_string of
                 None \<Rightarrow> (Inl JsonException, s)
               | Some action \<Rightarrow>
                   (case mk_of_string k (action @ ''Response'') of
                      None \<Rightarrow> (Inl StringToEnumException, s)
                    | Some t \<Rightarrow>
                        let e = e\<lparr>em_messageType := t\<rparr>;
                            s = set_promise (cm_ref m) e s;
                            s = (if mk_is_transaction k (cm_messageType m) \<or>
                                    check_queue (config s) (cm_messageType m)
                                 then remove_message_queue_message (cm_initial_unique_id m)
                                        (queue_type_of k m) s
                                 else s)
                        in (Inr e, reset_in_flight s)))"

text \<open>
  An answer, once its ids have been read: a result without an object as its payload is treated as an
  error.
\<close>

definition receive_answer ::
  "'m message_kinds \<Rightarrow> mq_env \<Rightarrow> json list \<Rightarrow> 'm EnhancedMessage \<Rightarrow> 'm message_queue \<Rightarrow>
     (mq_error + 'm EnhancedMessage) \<times> 'm message_queue" where
  "receive_answer k env a e s =
     (let s = s\<lparr>next_message_to_send := None\<rparr>;
          e = (if em_messageTypeId e = CALLRESULT \<and>
                  \<not> (length a > CALLRESULT_PAYLOAD \<and> json_is_object (a ! CALLRESULT_PAYLOAD))
               then e\<lparr>em_messageTypeId := CALLERROR\<rparr> else e)
      in case in_flight s of
           None \<Rightarrow> (Inr e, s)
         | Some m \<Rightarrow>
             if ci_ne (uniqueId m) (em_uniqueId e) then (Inr e, s)
             else if em_messageTypeId e = CALLERROR
             then let e = e\<lparr>em_call_message := JArray (cm_message m)\<rparr>
                  in (Inr e, handle_timeout_or_callerror k env (Some e) s)
             else handle_call_result k e s)"

text \<open>The parser of JSON text is a parameter; it has no value where it throws.\<close>

definition receive ::
  "'m message_kinds \<Rightarrow> (string \<Rightarrow> json option) \<Rightarrow> mq_env \<Rightarrow> string \<Rightarrow> 'm message_queue \<Rightarrow>
     (mq_error + 'm EnhancedMessage) \<times> 'm message_queue" where
  "receive k parse env message s =
     (if exceeds_json_nesting_depth message MAX_JSON_NESTING_DEPTH then (Inl MalformedRpcMessage, s)
      else case Option.bind (parse message) json_get_array of
        None \<Rightarrow> (Inl JsonException, s)
      | Some a \<Rightarrow>
          (case getMessageId a of
             Inl e \<Rightarrow> (Inl e, s)
           | Inr i \<Rightarrow>
               let e = (new_enhanced_message k)\<lparr>em_message := JArray a,
                     em_message_size := length message, em_uniqueId := i,
                     em_messageTypeId := getMessageTypeId a\<rparr>
               in if em_messageTypeId e = CALL then
                    (case Option.bind (json_at a CALL_ACTION) json_get_string of
                       None \<Rightarrow> (Inl JsonException, s)
                     | Some action \<Rightarrow>
                         (case mk_of_string k action of
                            None \<Rightarrow> (Inl StringToEnumException, s)
                          | Some t \<Rightarrow>
                              (Inr (e\<lparr>em_messageType := t, em_call_message := JArray a\<rparr>),
                               s\<lparr>next_message_to_send := Some i\<rparr>)))
                  else if em_messageTypeId e = CALLRESULT \<or> em_messageTypeId e = CALLERROR
                  then receive_answer k env a e s
                  else (Inr e, s)))"

subsection \<open>Answers to received calls\<close>

definition answered ::
  "'m message_kinds \<Rightarrow> string \<Rightarrow> 'm message_queue \<Rightarrow> 'm message_queue" where
  "answered k i s =
     (case next_message_to_send s of
        Some n \<Rightarrow> if ci_eq (mk_iequals k) n i then s\<lparr>next_message_to_send := None\<rparr> else s
      | None \<Rightarrow> s)"

text \<open>The id of the answer is looked at only while one is expected.\<close>

definition push_call_result ::
  "'m message_kinds \<Rightarrow> json list \<Rightarrow> 'm message_queue \<Rightarrow> mq_error option \<times> 'm message_queue" where
  "push_call_result k call_result s =
     (if \<not> running s then (None, s)
      else
        let s = s\<lparr>responses := responses s @ [JArray call_result]\<rparr>
        in if next_message_to_send s = None then (None, s)
           else case message_id_of call_result of
             Inl e \<Rightarrow> (Some e, s)
           | Inr i \<Rightarrow> (None, answered k i s))"

definition push_call_error ::
  "'m message_kinds \<Rightarrow> string \<Rightarrow> json \<Rightarrow> 'm message_queue \<Rightarrow> 'm message_queue" where
  "push_call_error k i call_error s =
     (if \<not> running s then s
      else answered k i (s\<lparr>responses := responses s @ [call_error]\<rparr>))"

definition reset_next_message_to_send :: "'m message_queue \<Rightarrow> 'm message_queue" where
  "reset_next_message_to_send s = s\<lparr>next_message_to_send := None\<rparr>"

subsection \<open>Restoring persisted messages\<close>

text \<open>An exception of the constructor leaves the function; what was added before stays.\<close>

fun load_persisted ::
  "'m message_kinds \<Rightarrow> int \<Rightarrow> bool \<Rightarrow> QueueType \<Rightarrow> DBTransactionMessage list \<Rightarrow> 'm message_queue \<Rightarrow>
     mq_error option \<times> 'm message_queue" where
  "load_persisted k now ignore_security q [] s = (None, s)"
| "load_persisted k now ignore_security q (row # rows) s =
     (if ignore_security \<and> db_message_type row = ''SecurityEventNotification''
      then load_persisted k now ignore_security q rows
             (remove_message_queue_message (db_unique_id row) q s)
      else case new_control_message k now (next_ref s) (db_json_message row) True of
        Inl e \<Rightarrow> (Some e, s)
      | Inr m \<Rightarrow>
          (case mk_of_string k (db_message_type row) of
             None \<Rightarrow> (Some StringToEnumException, s)
           | Some t \<Rightarrow>
               let m = m\<lparr>cm_messageType := t, cm_timestamp := db_timestamp row,
                        cm_message_attempts := db_message_attempts row\<rparr>;
                   s = s\<lparr>next_ref := Suc (next_ref s)\<rparr>
               in load_persisted k now ignore_security q rows
                    (if q = QNormal
                     then s\<lparr>normal_message_queue := normal_message_queue s @ [m]\<rparr>
                     else s\<lparr>transaction_message_queue := transaction_message_queue s @ [m]\<rparr>)))"

definition restore_queue ::
  "'m message_kinds \<Rightarrow> int \<Rightarrow> bool \<Rightarrow> QueueType \<Rightarrow> 'm message_queue \<Rightarrow> mq_error option \<times> 'm message_queue" where
  "restore_queue k now ignore_security q s =
     (case get_message_queue_messages q s of
        (None, s) \<Rightarrow> (None, s)
      | (Some rows, s) \<Rightarrow>
          if rows = [] then (None, s)
          else case load_persisted k now ignore_security q rows s of
            (Some e, s) \<Rightarrow> (Some e, s)
          | (None, s) \<Rightarrow> (None, s\<lparr>new_message := True\<rparr>))"

definition get_persisted_messages_from_db ::
  "'m message_kinds \<Rightarrow> int \<Rightarrow> bool \<Rightarrow> 'm message_queue \<Rightarrow> mq_error option \<times> 'm message_queue" where
  "get_persisted_messages_from_db k now ignore_security s =
     (case restore_queue k now ignore_security QNormal s of
        (Some e, s) \<Rightarrow> (Some e, s)
      | (None, s) \<Rightarrow>
          (case restore_queue k now ignore_security QTransaction s of
             (Some e, s) \<Rightarrow> (Some e, s)
           | (None, s) \<Rightarrow>
               (None, if \<not> queue_all_messages (config s) then clear_message_queue QNormal s else s)))"

subsection \<open>Further operations\<close>

definition run_when_idle :: "nat \<Rightarrow> 'm message_queue \<Rightarrow> 'm message_queue" where
  "run_when_idle action s = s\<lparr>idle_actions := idle_actions s @ [action]\<rparr>"

definition set_registration_status_accepted :: "'m message_queue \<Rightarrow> 'm message_queue" where
  "set_registration_status_accepted s =
     s\<lparr>is_registration_status_accepted := True, new_message := True\<rparr>"

definition is_transaction_message_queue_empty :: "'m message_queue \<Rightarrow> bool" where
  "is_transaction_message_queue_empty s \<longleftrightarrow> transaction_message_queue s = []"

definition update_transaction_message_attempts :: "int \<Rightarrow> 'm message_queue \<Rightarrow> 'm message_queue" where
  "update_transaction_message_attempts n s =
     s\<lparr>config := (config s)\<lparr>transaction_message_attempts := n\<rparr>\<rparr>"

definition update_transaction_message_retry_interval :: "int \<Rightarrow> 'm message_queue \<Rightarrow> 'm message_queue" where
  "update_transaction_message_retry_interval n s =
     s\<lparr>config := (config s)\<lparr>transaction_message_retry_interval := n\<rparr>\<rparr>"

definition update_message_timeout :: "int \<Rightarrow> 'm message_queue \<Rightarrow> 'm message_queue" where
  "update_message_timeout timeout s = s\<lparr>config := (config s)\<lparr>message_timeout_seconds := timeout\<rparr>\<rparr>"

definition add_stopped_transaction_id :: "string \<Rightarrow> int \<Rightarrow> 'm message_queue \<Rightarrow> 'm message_queue" where
  "add_stopped_transaction_id message_id transaction_id s =
     s\<lparr>message_id_transaction_id_map :=
         AList.update message_id transaction_id (message_id_transaction_id_map s)\<rparr>"

definition add_meter_value_message_id :: "string \<Rightarrow> string \<Rightarrow> 'm message_queue \<Rightarrow> 'm message_queue" where
  "add_meter_value_message_id start_id meter_id s =
     s\<lparr>start_transaction_mid_meter_values_mid_map :=
         AList.update start_id
           (case map_of (start_transaction_mid_meter_values_mid_map s) start_id of
              Some ids \<Rightarrow> ids @ [meter_id] | None \<Rightarrow> [meter_id])
           (start_transaction_mid_meter_values_mid_map s)\<rparr>"

text \<open>
  A message gets the transaction id once for every occurrence of its id in the list; the later
  assignments change nothing. An exception leaves the loop and the function (\<open>False\<close>); what has been
  assigned before stays, and the entry of the map is not erased.
\<close>

fun set_transaction_ids ::
  "string list \<Rightarrow> int \<Rightarrow> 'm ControlMessage list \<Rightarrow> bool \<times> 'm ControlMessage list" where
  "set_transaction_ids ids transaction_id [] = (True, [])"
| "set_transaction_ids ids transaction_id (m # q) =
     (case (if uniqueId m \<in> set ids
            then map_option (\<lambda>a. m\<lparr>cm_message := a\<rparr>) (set_transaction_id transaction_id (cm_message m))
            else Some m) of
        None \<Rightarrow> (False, m # q)
      | Some m \<Rightarrow> apsnd (Cons m) (set_transaction_ids ids transaction_id q))"

definition notify_start_transaction_handled ::
  "string \<Rightarrow> int \<Rightarrow> 'm message_queue \<Rightarrow> bool \<times> 'm message_queue" where
  "notify_start_transaction_handled start_id transaction_id s =
     (let (ok, s) = (case map_of (start_transaction_mid_meter_values_mid_map s) start_id of
            None \<Rightarrow> (True, s)
          | Some ids \<Rightarrow>
              let (ok, q) = set_transaction_ids ids transaction_id (transaction_message_queue s)
              in (ok, s\<lparr>transaction_message_queue := q\<rparr>))
      in if \<not> ok then (False, s)
         else (True, s\<lparr>start_transaction_mid_meter_values_mid_map :=
                 filter (\<lambda>e. fst e \<noteq> start_id) (start_transaction_mid_meter_values_mid_map s)\<rparr>))"

end
