(* ===== verification/Message_Queue_Spec.thy ===== *)
theory Message_Queue_Spec
  imports Message_Queue "HOL-Library.Sublist" "HOL-Library.Multiset"
begin

text \<open>
  An abstract specification of the message queue and its refinement. The specification knows two queues
  of entries, the entry in flight, the entries sent and the promises set; its steps add an entry, drop
  entries, send the first transaction entry or any normal entry while none is in flight, put the entry
  in flight back for a retry, or settle it. Every operation of the queue is a sequence of such steps.
\<close>

subsection \<open>The specification\<close>

record entry =
  e_ref :: nat
  e_trans :: bool
  e_boot :: bool
  e_attempts :: int

record aq =
  v_flight :: "entry option"
  v_normal :: "entry list"
  v_trans :: "entry list"
  v_promises :: "nat list"
  v_sent :: "entry list"
  v_next :: nat

inductive aq_step :: "int \<Rightarrow> aq \<Rightarrow> aq \<Rightarrow> bool" for limit :: int where
  enqueue_trans: "e_ref e = v_next v \<Longrightarrow> e_trans e \<Longrightarrow> 0 \<le> e_attempts e \<Longrightarrow>
    aq_step limit v (v\<lparr>v_trans := v_trans v @ [e], v_next := Suc (v_next v)\<rparr>)"
| enqueue_normal: "e_ref e = v_next v \<Longrightarrow> \<not> e_trans e \<Longrightarrow> 0 \<le> e_attempts e \<Longrightarrow>
    v_normal v = xs @ ys \<Longrightarrow>
    aq_step limit v (v\<lparr>v_normal := xs @ e # ys, v_next := Suc (v_next v)\<rparr>)"
| dropped: "subseq n (v_normal v) \<Longrightarrow> subseq t (v_trans v) \<Longrightarrow>
    aq_step limit v (v\<lparr>v_normal := n, v_trans := t\<rparr>)"
| refused: "aq_step limit v (v\<lparr>v_promises := v_promises v @ [v_next v], v_next := Suc (v_next v)\<rparr>)"
| discarded: "aq_step limit v (v\<lparr>v_next := Suc (v_next v)\<rparr>)"
| send_trans: "v_flight v = None \<Longrightarrow> v_trans v = e # t \<Longrightarrow>
    e' = e\<lparr>e_attempts := e_attempts e + 1\<rparr> \<Longrightarrow>
    aq_step limit v (v\<lparr>v_flight := Some e', v_trans := t, v_sent := v_sent v @ [e']\<rparr>)"
| send_normal: "v_flight v = None \<Longrightarrow> v_normal v = xs @ e # ys \<Longrightarrow>
    e' = e\<lparr>e_attempts := e_attempts e + 1\<rparr> \<Longrightarrow>
    aq_step limit v (v\<lparr>v_flight := Some e', v_normal := xs @ ys, v_sent := v_sent v @ [e']\<rparr>)"
| requeue_trans: "v_flight v = Some e \<Longrightarrow> e_trans e \<Longrightarrow> e_attempts e < limit \<Longrightarrow>
    aq_step limit v (v\<lparr>v_flight := None, v_trans := e # v_trans v\<rparr>)"
| requeue_normal: "v_flight v = Some e \<Longrightarrow> \<not> e_trans e \<Longrightarrow> e_attempts e < limit \<or> e_boot e \<Longrightarrow>
    aq_step limit v (v\<lparr>v_flight := None, v_normal := e # v_normal v\<rparr>)"
| settled: "v_flight v = Some e \<Longrightarrow>
    aq_step limit v (v\<lparr>v_flight := None, v_promises := v_promises v @ [e_ref e]\<rparr>)"

abbreviation aq_steps :: "int \<Rightarrow> aq \<Rightarrow> aq \<Rightarrow> bool" where
  "aq_steps limit \<equiv> (aq_step limit)\<^sup>*\<^sup>*"

definition aq_init :: aq where
  "aq_init = \<lparr>v_flight = None, v_normal = [], v_trans = [], v_promises = [], v_sent = [], v_next = 0\<rparr>"

subsection \<open>Invariants of the specification\<close>

definition flight_list :: "aq \<Rightarrow> entry list" where
  "flight_list v = (case v_flight v of Some e \<Rightarrow> [e] | None \<Rightarrow> [])"

definition live :: "aq \<Rightarrow> entry list" where
  "live v = flight_list v @ v_normal v @ v_trans v"

text \<open>The transaction entries that are not settled, in their order.\<close>

definition pending :: "aq \<Rightarrow> entry list" where
  "pending v = filter e_trans (flight_list v) @ v_trans v"

text \<open>Nothing is lost track of: an entry is at one place, and no promise of it has been set.\<close>

definition aq_unique :: "aq \<Rightarrow> bool" where
  "aq_unique v \<longleftrightarrow> distinct (map e_ref (live v)) \<and> distinct (v_promises v) \<and>
     (\<forall>r\<in>set (map e_ref (live v)). r < v_next v \<and> r \<notin> set (v_promises v)) \<and>
     (\<forall>r\<in>set (v_promises v). r < v_next v)"

lemma set_subseq: "subseq xs ys \<Longrightarrow> set xs \<subseteq> set ys"
  by (metis notin_set_nthsI subseq_conv_nths subsetI)

lemma distinct_map_subseq: "subseq xs ys \<Longrightarrow> distinct (map f ys) \<Longrightarrow> distinct (map f xs)"
  by (induction rule: list_emb.induct) (auto dest: set_subseq)

lemma aq_unique_mset:
  assumes "aq_unique v" "mset (map e_ref (live v')) = mset (map e_ref (live v))"
    "v_promises v' = v_promises v" "v_next v' = v_next v"
  shows "aq_unique v'"
  using assms(1) mset_eq_setD [OF assms(2)] mset_eq_imp_distinct_iff [OF assms(2)] assms(3,4)
  unfolding aq_unique_def by (simp only: simp_thms) blast

lemma aq_unique_add:
  assumes "aq_unique v" "mset (map e_ref (live v')) = mset (v_next v # map e_ref (live v))"
    "v_promises v' = v_promises v" "v_next v' = Suc (v_next v)"
  shows "aq_unique v'"
proof -
  have "v_next v \<notin> set (map e_ref (live v))" "v_next v \<notin> set (v_promises v)"
    using assms(1) unfolding aq_unique_def by (metis less_irrefl)+
  then show ?thesis
    using assms(1) mset_eq_imp_distinct_iff [OF assms(2)]
    unfolding aq_unique_def assms(3,4) mset_eq_setD [OF assms(2)]
    by (auto simp: less_SucI simp del: set_map)
qed

lemma aq_unique_step: "aq_step limit v v' \<Longrightarrow> aq_unique v \<Longrightarrow> aq_unique v'"
proof (induction rule: aq_step.induct)
  case (enqueue_trans e v)
  then show ?case by - (rule aq_unique_add [of v], simp_all add: live_def flight_list_def)
next
  case (enqueue_normal e v xs ys)
  then show ?case by - (rule aq_unique_add [of v], simp_all add: live_def flight_list_def)
next
  case (dropped n v t)
  let ?v = "v\<lparr>v_normal := n, v_trans := t\<rparr>"
  have s: "subseq (live ?v) (live v)"
    using dropped(1,2) by (simp add: live_def flight_list_def list_emb_append_mono)
  have "distinct (map e_ref (live ?v))"
    using dropped(3) by (intro distinct_map_subseq [OF s]) (simp add: aq_unique_def)
  with set_subseq [OF s] dropped(3) show ?case unfolding aq_unique_def by auto
next
  case (refused v)
  have l: "live (v\<lparr>v_promises := p, v_next := n\<rparr>) = live v" for p n
    by (simp add: live_def flight_list_def)
  have "v_next v \<notin> set (map e_ref (live v))" "v_next v \<notin> set (v_promises v)"
    using refused unfolding aq_unique_def by (metis less_irrefl)+
  with refused show ?case unfolding aq_unique_def l by (auto simp: less_SucI)
next
  case (discarded v)
  have "live (v\<lparr>v_next := n\<rparr>) = live v" for n by (simp add: live_def flight_list_def)
  with discarded show ?case unfolding aq_unique_def by (simp add: less_SucI)
next
  case (send_trans v e t e')
  then show ?case by - (rule aq_unique_mset [of v], simp_all add: live_def flight_list_def)
next
  case (send_normal v xs e ys e')
  then show ?case by - (rule aq_unique_mset [of v], simp_all add: live_def flight_list_def)
next
  case (requeue_trans v e)
  then show ?case by - (rule aq_unique_mset [of v], simp_all add: live_def flight_list_def)
next
  case (requeue_normal v e)
  then show ?case by - (rule aq_unique_mset [of v], simp_all add: live_def flight_list_def)
next
  case (settled v e)
  then show ?case by (auto simp: aq_unique_def live_def flight_list_def)
qed

text \<open>Transaction entries keep their order, in the queue and on the wire.\<close>

definition aq_ordered :: "aq \<Rightarrow> bool" where
  "aq_ordered v \<longleftrightarrow>
     (\<forall>e\<in>set (v_trans v). e_trans e) \<and> (\<forall>e\<in>set (v_normal v). \<not> e_trans e) \<and>
     sorted_wrt (<) (map e_ref (pending v)) \<and> (\<forall>e\<in>set (pending v). e_ref e < v_next v) \<and>
     sorted (map e_ref (filter e_trans (v_sent v))) \<and>
     (\<forall>x\<in>set (filter e_trans (v_sent v)). e_ref x < v_next v \<and> (\<forall>p\<in>set (pending v). e_ref x \<le> e_ref p))"

lemma sorted_wrt_subseq: "subseq xs ys \<Longrightarrow> sorted_wrt P ys \<Longrightarrow> sorted_wrt P xs"
  by (induction rule: list_emb.induct) (auto dest: set_subseq)

lemma aq_ordered_step: "aq_step limit v v' \<Longrightarrow> aq_ordered v \<Longrightarrow> aq_ordered v'"
proof (induction rule: aq_step.induct)
  case (enqueue_trans e v)
  then show ?case
    by (auto simp: aq_ordered_def pending_def flight_list_def sorted_wrt_append less_SucI
        order.strict_implies_order split: option.splits)
next
  case (dropped n v t)
  let ?v = "v\<lparr>v_normal := n, v_trans := t\<rparr>"
  have s: "subseq (pending ?v) (pending v)"
    using dropped(2) by (simp add: pending_def flight_list_def list_emb_append_mono)
  then have "subseq (map e_ref (pending ?v)) (map e_ref (pending v))" by (rule subseq_map)
  with dropped(3) set_subseq [OF s] set_subseq [OF dropped(1)] set_subseq [OF dropped(2)] show ?case
    unfolding aq_ordered_def by (auto dest: sorted_wrt_subseq)
next
  case (send_trans v e t e')
  then show ?case
    by (auto simp: aq_ordered_def pending_def flight_list_def sorted_append order.strict_implies_order)
next
  case (requeue_normal v e)
  then show ?case by (auto simp: aq_ordered_def pending_def flight_list_def)
qed (auto simp: aq_ordered_def pending_def flight_list_def less_SucI split: option.splits if_splits)

text \<open>
  Retries end: while the limit of attempts is at most \<open>b\<close>, an entry that is not a boot notification is
  sent at most \<open>b\<close> times, or once.
\<close>

definition sends :: "aq \<Rightarrow> nat \<Rightarrow> int" where
  "sends v r = int (length (filter (\<lambda>e. e_ref e = r) (v_sent v)))"

definition queued :: "aq \<Rightarrow> entry set" where
  "queued v = set (v_normal v) \<union> set (v_trans v)"

definition aq_bounded :: "int \<Rightarrow> aq \<Rightarrow> bool" where
  "aq_bounded b v \<longleftrightarrow>
     (\<forall>e\<in>set (live v). sends v (e_ref e) \<le> e_attempts e \<and>
        (\<forall>x\<in>set (v_sent v). e_ref x = e_ref e \<longrightarrow> e_boot x = e_boot e)) \<and>
     (\<forall>e\<in>queued v. \<not> e_boot e \<longrightarrow> sends v (e_ref e) = 0 \<or> e_attempts e < b) \<and>
     (\<forall>x\<in>set (v_sent v). e_ref x < v_next v \<and> (\<not> e_boot x \<longrightarrow> sends v (e_ref x) \<le> max 1 b))"

lemma set_live: "set (live v) = set (flight_list v) \<union> queued v"
  by (auto simp: live_def queued_def)

lemma sends_cong: "v_sent v' = v_sent v \<Longrightarrow> sends v' r = sends v r"
  by (simp add: sends_def)

text \<open>Steps that send nothing: entries may move, and a new entry has a new number.\<close>

lemma aq_bounded_quiet:
  assumes b: "aq_bounded b v" and sent: "v_sent v' = v_sent v" and nxt: "v_next v \<le> v_next v'"
    and live: "\<And>e. e \<in> set (live v') \<Longrightarrow> e \<in> set (live v) \<or> e_ref e = v_next v \<and> 0 \<le> e_attempts e"
    and queued: "\<And>e. e \<in> queued v' \<Longrightarrow> e \<in> queued v \<or> e_ref e = v_next v \<or> e_attempts e < b \<or> e_boot e"
  shows "aq_bounded b v'"
proof -
  have fresh: "sends v (v_next v) = 0" "\<forall>x\<in>set (v_sent v). e_ref x \<noteq> v_next v"
    using b by (auto simp: aq_bounded_def sends_def filter_empty_conv)
  show ?thesis unfolding aq_bounded_def sends_cong [OF sent] sent
  proof (intro conjI ballI)
    fix e assume "e \<in> set (live v')"
    with live [OF this] b fresh show "sends v (e_ref e) \<le> e_attempts e"
      by (auto simp: aq_bounded_def)
  next
    fix e x assume "e \<in> set (live v')" "x \<in> set (v_sent v)"
    with live [of e] b fresh show "e_ref x = e_ref e \<longrightarrow> e_boot x = e_boot e"
      by (auto simp: aq_bounded_def)
  next
    fix e assume "e \<in> queued v'"
    with queued [OF this] b fresh show "\<not> e_boot e \<longrightarrow> sends v (e_ref e) = 0 \<or> e_attempts e < b"
      by (auto simp: aq_bounded_def)
  next
    fix x assume "x \<in> set (v_sent v)"
    then show "e_ref x < v_next v'" "\<not> e_boot x \<longrightarrow> sends v (e_ref x) \<le> max 1 b"
      using b nxt by (auto simp: aq_bounded_def)
  qed
qed

lemma aq_bounded_send:
  assumes b: "aq_bounded b v" and u: "aq_unique v" and e: "e \<in> queued v"
    and e': "e' = e\<lparr>e_attempts := e_attempts e + 1\<rparr>"
    and v': "v_flight v' = Some e'" "v_sent v' = v_sent v @ [e']" "v_next v' = v_next v"
    and queued: "\<And>x. x \<in> queued v' \<Longrightarrow> x \<in> queued v \<and> e_ref x \<noteq> e_ref e"
  shows "aq_bounded b v'"
proof -
  have sends: "sends v' r = sends v r + (if r = e_ref e then 1 else 0)" for r
    by (simp add: sends_def v' e')
  have old: "sends v (e_ref e) \<le> e_attempts e" "\<And>x. x \<in> set (v_sent v) \<Longrightarrow> e_ref x = e_ref e \<Longrightarrow> e_boot x = e_boot e"
    "\<not> e_boot e \<Longrightarrow> sends v (e_ref e) = 0 \<or> e_attempts e < b" "e_ref e < v_next v"
    using b e u by (auto simp: aq_bounded_def set_live aq_unique_def)
  have bound: "sends v' (e_ref e) \<le> max 1 b" if "\<not> e_boot e" using old(1,3) that by (auto simp: sends)
  show ?thesis unfolding aq_bounded_def set_live v'(2,3)
  proof (intro conjI ballI)
    fix x assume "x \<in> set (flight_list v') \<union> queued v'"
    then have x: "x = e' \<or> x \<in> queued v \<and> e_ref x \<noteq> e_ref e"
      using queued v'(1) by (auto simp: flight_list_def)
    then show "sends v' (e_ref x) \<le> e_attempts x"
      using old(1) b by (auto simp: sends e' aq_bounded_def set_live)
    fix y assume "y \<in> set (v_sent v @ [e'])"
    with x old(2) b show "e_ref y = e_ref x \<longrightarrow> e_boot y = e_boot x"
      by (auto simp: e' aq_bounded_def set_live)
  next
    fix x assume "x \<in> queued v'"
    with queued [OF this] b show "\<not> e_boot x \<longrightarrow> sends v' (e_ref x) = 0 \<or> e_attempts x < b"
      by (auto simp: aq_bounded_def sends)
  next
    fix x assume x: "x \<in> set (v_sent v @ [e'])"
    then show "e_ref x < v_next v" using b old(4) by (auto simp: aq_bounded_def e')
    show "\<not> e_boot x \<longrightarrow> sends v' (e_ref x) \<le> max 1 b"
    proof (cases "e_ref x = e_ref e")
      case True
      then have "e_boot x = e_boot e" using x old(2) by (auto simp: e')
      with bound True show ?thesis by simp
    next
      case False
      with x b show ?thesis by (auto simp: sends e' aq_bounded_def)
    qed
  qed
qed

lemma aq_bounded_step:
  "aq_step limit v v' \<Longrightarrow> aq_unique v \<Longrightarrow> limit \<le> b \<Longrightarrow> aq_bounded b v \<Longrightarrow> aq_bounded b v'"
proof (induction rule: aq_step.induct)
  case (dropped n v t)
  then show ?case
    using set_subseq [OF dropped(1)] set_subseq [OF dropped(2)]
    by - (rule aq_bounded_quiet [of b v], auto simp: set_live queued_def flight_list_def)
next
  case (send_trans v e t e')
  then show ?case
    by - (rule aq_bounded_send [of b v e],
      auto simp: queued_def aq_unique_def live_def flight_list_def; metis imageI)
next
  case (send_normal v xs e ys e')
  then show ?case
    by - (rule aq_bounded_send [of b v e],
      auto simp: queued_def aq_unique_def live_def flight_list_def; metis imageI)
qed (rule aq_bounded_quiet, assumption, auto simp: set_live queued_def flight_list_def)+

end
