(* ===== verification/Message_Queue_Limits.thy ===== *)
theory Message_Queue_Limits
  imports Message_Queue "HOL-Library.Sublist"
begin

text \<open>
  The size limit of the message queue: what \<^verbatim>\<open>check_queue_sizes\<close> drops when the queues are larger than
  the configured threshold, what it never drops, and how large the queues are behind it.
\<close>

subsection \<open>What one pass drops\<close>

abbreviation is_boot :: "'m message_kinds \<Rightarrow> 'm ControlMessage \<Rightarrow> bool" where
  "is_boot k m \<equiv> mk_is_boot k (cm_messageType m)"

abbreviation is_update :: "'m message_kinds \<Rightarrow> 'm ControlMessage \<Rightarrow> bool" where
  "is_update k m \<equiv> mk_is_update k (cm_messageType m)"

lemma drop_normal_loop_kept:
  "drop_normal_loop k n q = (kept, dropped) \<Longrightarrow>
   subseq kept q \<and> filter (is_boot k) kept = filter (is_boot k) q"
  by (induction k n q arbitrary: kept dropped rule: drop_normal_loop.induct)
    (auto split: if_splits prod.splits)

lemma drop_normal_loop_none:
  "drop_normal_loop k n q = (kept, []) \<Longrightarrow> 0 < n \<Longrightarrow> list_all (is_boot k) q"
  by (induction k n q arbitrary: kept rule: drop_normal_loop.induct)
    (auto split: if_splits prod.splits)

lemma drop_update_loop_kept:
  "drop_update_loop k b q = (kept, dropped) \<Longrightarrow>
   subseq kept q \<and> filter (\<lambda>m. \<not> is_update k m) kept = filter (\<lambda>m. \<not> is_update k m) q"
  by (induction k b q arbitrary: kept dropped rule: drop_update_loop.induct)
    (auto split: if_splits prod.splits)

lemma drop_update_loop_none:
  "drop_update_loop k True q = (kept, []) \<Longrightarrow>
   kept = q \<and> list_all (\<lambda>m. \<not> is_update k m) (take (length q - 2) q)"
proof (induction q arbitrary: kept)
  case (Cons m q)
  obtain p d where pd: "drop_update_loop k True q = (p, d)" by fastforce
  with Cons.prems have m: "\<not> (is_update k m \<and> length q > 1)" and d: "d = []" "kept = m # p"
    by (auto split: if_splits prod.splits)
  note q = Cons.IH [of p, OF pd [unfolded d(1)]]
  show ?case
  proof (cases "length q > 1")
    case True
    then have "length (m # q) - 2 = Suc (length q - 2)" by simp
    with q m True d(2) show ?thesis by (simp only: take_Suc_Cons list.pred_inject) simp
  next
    case False
    then have "length (m # q) - 2 = 0" by simp
    with q d(2) show ?thesis by (simp only: take_0 list.pred_inject)
  qed
qed simp

text \<open>A pass over a queue changes this queue and the database only.\<close>

definition outside_queues :: "'m message_queue \<Rightarrow> 'm message_queue" where
  "outside_queues s = s\<lparr>normal_message_queue := [], transaction_message_queue := [],
     normal_table := [], transaction_table := [], db_calls := []\<rparr>"

definition dropped_to ::
  "'m ControlMessage list \<Rightarrow> 'm ControlMessage list \<Rightarrow> 'm message_queue \<Rightarrow> 'm message_queue \<Rightarrow> bool" where
  "dropped_to normals transactions s s' \<longleftrightarrow>
     normal_message_queue s' = normals \<and> transaction_message_queue s' = transactions \<and>
     outside_queues s' = outside_queues s"

lemma outside_queues_fields:
  assumes "outside_queues s' = outside_queues s"
  shows "config s' = config s" "in_flight s' = in_flight s" "sent s' = sent s"
    "promises s' = promises s" "next_ref s' = next_ref s"
  using arg_cong [OF assms, of config] arg_cong [OF assms, of in_flight] arg_cong [OF assms, of sent]
    arg_cong [OF assms, of promises] arg_cong [OF assms, of next_ref]
  by (simp_all add: outside_queues_def)

lemma outside_queues_remove [simp]:
  "outside_queues (remove_message_queue_message i q s) = outside_queues s"
  by (simp add: outside_queues_def remove_message_queue_message_def db_statement_def update_table_def
      Let_def)

lemma outside_queues_fold [simp]:
  "outside_queues (fold (\<lambda>m. remove_message_queue_message (f m) q) ms s) = outside_queues s"
  by (induction ms arbitrary: s) simp_all

lemma outside_queues_update [simp]:
  "outside_queues (s\<lparr>normal_message_queue := n\<rparr>) = outside_queues s"
  "outside_queues (s\<lparr>transaction_message_queue := t\<rparr>) = outside_queues s"
  by (simp_all add: outside_queues_def)

lemma dropped_to_refl: "dropped_to (normal_message_queue s) (transaction_message_queue s) s s"
  by (simp add: dropped_to_def)

lemma dropped_to_trans:
  "dropped_to n t s s' \<Longrightarrow> dropped_to n' t' s' s'' \<Longrightarrow> dropped_to n' t' s s''"
  by (simp add: dropped_to_def)

lemma dropped_to_fields:
  "dropped_to n t s s' \<Longrightarrow> normal_message_queue s' = n \<and> transaction_message_queue s' = t \<and>
     config s' = config s"
  unfolding dropped_to_def by (blast intro: outside_queues_fields(1))

lemma drop_messages_pass:
  "\<exists>q. dropped_to q (transaction_message_queue s) s (drop_messages_from_normal_message_queue k s) \<and>
     subseq q (normal_message_queue s) \<and>
     filter (is_boot k) q = filter (is_boot k) (normal_message_queue s) \<and>
     (length q = length (normal_message_queue s) \<longrightarrow> normal_message_queue s \<noteq> [] \<longrightarrow>
        list_all (is_boot k) q)"
proof -
  define n where "n = min (int (length (normal_message_queue s)))
    (max (queues_total_size_threshold (config s) div 10) 1)"
  obtain kept dropped where l: "drop_normal_loop k n (normal_message_queue s) = (kept, dropped)"
    by fastforce
  then have "dropped_to kept (transaction_message_queue s) s (drop_messages_from_normal_message_queue k s)"
    by (simp add: drop_messages_from_normal_message_queue_def n_def [symmetric] dropped_to_def Let_def)
  moreover have "list_all (is_boot k) kept"
    if "length kept = length (normal_message_queue s)" "normal_message_queue s \<noteq> []"
  proof -
    have "dropped = []" using drop_normal_loop_length [OF l] that(1) by simp
    moreover have "0 < n" using that(2) by (simp add: n_def)
    ultimately have "list_all (is_boot k) (normal_message_queue s)"
      using drop_normal_loop_none [of k n "normal_message_queue s" kept] l by simp
    with drop_normal_loop_kept [OF l] that(1) show ?thesis
      by (metis subseq_same_length)
  qed
  ultimately show ?thesis using drop_normal_loop_kept [OF l] by blast
qed

lemma drop_update_pass:
  assumes "drop_update_messages_from_transactional_message_queue k s = (b, s')"
  shows "\<exists>q. dropped_to (normal_message_queue s) q s s' \<and> subseq q (transaction_message_queue s) \<and>
     filter (\<lambda>m. \<not> is_update k m) q = filter (\<lambda>m. \<not> is_update k m) (transaction_message_queue s) \<and>
     (\<not> b \<longrightarrow> list_all (\<lambda>m. \<not> is_update k m) (take (length q - 2) q))"
proof -
  obtain kept dropped where l: "drop_update_loop k True (transaction_message_queue s) = (kept, dropped)"
    by fastforce
  then have "dropped_to (normal_message_queue s) kept s s'" and b: "b \<longleftrightarrow> dropped \<noteq> []"
    using assms
    by (auto simp: drop_update_messages_from_transactional_message_queue_def Let_def dropped_to_def)
  moreover have "\<not> b \<longrightarrow> list_all (\<lambda>m. \<not> is_update k m) (take (length kept - 2) kept)"
    using b l drop_update_loop_none [of k "transaction_message_queue s" kept] by auto
  ultimately show ?thesis using drop_update_loop_kept [OF l] by blast
qed

subsection \<open>The two loops\<close>

lemma trim_normal_result:
  "\<exists>q. dropped_to q (transaction_message_queue s) s (trim_normal k s) \<and>
     subseq q (normal_message_queue s) \<and>
     filter (is_boot k) q = filter (is_boot k) (normal_message_queue s) \<and>
     (queues_size (trim_normal k s) \<le> size_threshold (config s) \<or> list_all (is_boot k) q)"
proof (induction k s rule: trim_normal.induct)
  case (1 k s)
  let ?d = "drop_messages_from_normal_message_queue k s"
  let ?more = "queues_size s > size_threshold (config s) \<and> normal_message_queue s \<noteq> []"
  obtain q where q: "dropped_to q (transaction_message_queue s) s ?d" "subseq q (normal_message_queue s)"
    "filter (is_boot k) q = filter (is_boot k) (normal_message_queue s)"
    "length q = length (normal_message_queue s) \<longrightarrow> normal_message_queue s \<noteq> [] \<longrightarrow> list_all (is_boot k) q"
    using drop_messages_pass by blast
  note d = dropped_to_fields [OF q(1)]
  show ?case
  proof (cases ?more)
    case False
    then have "trim_normal k s = s" by (subst trim_normal.simps) auto
    with False show ?thesis using dropped_to_refl [of s] by (metis list.pred_inject(1) not_less subseq_order.refl)
  next
    case more: True
    show ?thesis
    proof (cases "length q = length (normal_message_queue s)")
      case True
      then have "trim_normal k s = ?d" 
        using more d by (subst trim_normal.simps) (simp add: Let_def)
      with q True more show ?thesis by metis
    next
      case False
      then have t: "trim_normal k s = trim_normal k ?d"
        using more d by (subst trim_normal.simps) (simp add: Let_def)
      from "1.IH" [OF more refl] False d obtain p where p:
        "dropped_to p (transaction_message_queue s) ?d (trim_normal k ?d)" "subseq p q"
        "filter (is_boot k) p = filter (is_boot k) q"
        "queues_size (trim_normal k ?d) \<le> size_threshold (config s) \<or> list_all (is_boot k) p"
        by auto
      show ?thesis unfolding t
        using dropped_to_trans [OF q(1) p(1)] subseq_order.trans [OF p(2) q(2)] trans [OF p(3) q(3)] p(4)
        by blast
    qed
  qed
qed

lemma trim_updates_result:
  "\<exists>q. dropped_to (normal_message_queue s) q s (trim_updates k s) \<and>
     subseq q (transaction_message_queue s) \<and>
     filter (\<lambda>m. \<not> is_update k m) q = filter (\<lambda>m. \<not> is_update k m) (transaction_message_queue s) \<and>
     (queues_size (trim_updates k s) \<le> size_threshold (config s) \<or>
      list_all (\<lambda>m. \<not> is_update k m) (take (length q - 2) q))"
proof (induction k s rule: trim_updates.induct)
  case (1 k s)
  obtain b d where bd: "drop_update_messages_from_transactional_message_queue k s = (b, d)" by fastforce
  obtain q where q: "dropped_to (normal_message_queue s) q s d" "subseq q (transaction_message_queue s)"
    "filter (\<lambda>m. \<not> is_update k m) q = filter (\<lambda>m. \<not> is_update k m) (transaction_message_queue s)"
    "\<not> b \<longrightarrow> list_all (\<lambda>m. \<not> is_update k m) (take (length q - 2) q)"
    using drop_update_pass [OF bd] by blast
  note d = dropped_to_fields [OF q(1)]
  show ?case
  proof (cases "queues_size s > size_threshold (config s)")
    case False
    then have "trim_updates k s = s" by (subst trim_updates.simps) auto
    with False show ?thesis using dropped_to_refl [of s] by (metis not_less subseq_order.refl)
  next
    case more: True
    show ?thesis
    proof (cases b)
      case False
      then have "trim_updates k s = d" 
        using more bd by (subst trim_updates.simps) simp
      with q False show ?thesis by metis
    next
      case True
      then have t: "trim_updates k s = trim_updates k d"
        using more bd by (subst trim_updates.simps) simp
      from "1.IH" [OF more bd [symmetric]] True d obtain p where p:
        "dropped_to (normal_message_queue s) p d (trim_updates k d)" "subseq p q"
        "filter (\<lambda>m. \<not> is_update k m) p = filter (\<lambda>m. \<not> is_update k m) q"
        "queues_size (trim_updates k d) \<le> size_threshold (config s) \<or>
         list_all (\<lambda>m. \<not> is_update k m) (take (length p - 2) p)"
        by auto
      show ?thesis unfolding t
        using dropped_to_trans [OF q(1) p(1)] subseq_order.trans [OF p(2) q(2)] trans [OF p(3) q(3)] p(4)
        by blast
    qed
  qed
qed

text \<open>The two loops together.\<close>

lemma check_queue_sizes_result:
  "\<exists>n t. dropped_to n t s (check_queue_sizes k s) \<and> subseq n (normal_message_queue s) \<and>
     subseq t (transaction_message_queue s) \<and>
     filter (is_boot k) n = filter (is_boot k) (normal_message_queue s) \<and>
     filter (\<lambda>m. \<not> is_update k m) t = filter (\<lambda>m. \<not> is_update k m) (transaction_message_queue s) \<and>
     (t = transaction_message_queue s \<or> list_all (is_boot k) n) \<and>
     (queues_size (check_queue_sizes k s) \<le> size_threshold (config s) \<or>
      list_all (is_boot k) n \<and> list_all (\<lambda>m. \<not> is_update k m) (take (length t - 2) t))"
proof (cases "queues_size s \<le> size_threshold (config s)")
  case True
  then have "check_queue_sizes k s = s" by (simp add: check_queue_sizes_def)
  with True dropped_to_refl [of s] show ?thesis by (metis subseq_order.refl)
next
  case large: False
  let ?s = "trim_normal k s"
  have c: "check_queue_sizes k s = trim_updates k ?s" using large by (simp add: check_queue_sizes_def)
  obtain n where n: "dropped_to n (transaction_message_queue s) s ?s" "subseq n (normal_message_queue s)"
    "filter (is_boot k) n = filter (is_boot k) (normal_message_queue s)"
    "queues_size ?s \<le> size_threshold (config s) \<or> list_all (is_boot k) n"
    using trim_normal_result by blast
  note d = dropped_to_fields [OF n(1)]
  show ?thesis
  proof (cases "queues_size ?s \<le> size_threshold (config s)")
    case True
    then have "trim_updates k ?s = ?s" using d by (subst trim_updates.simps) simp
    with n True c show ?thesis by (metis subseq_order.refl)
  next
    case False
    obtain t where t: "dropped_to n t ?s (trim_updates k ?s)" "subseq t (transaction_message_queue s)"
      "filter (\<lambda>m. \<not> is_update k m) t = filter (\<lambda>m. \<not> is_update k m) (transaction_message_queue s)"
      "queues_size (trim_updates k ?s) \<le> size_threshold (config s) \<or>
       list_all (\<lambda>m. \<not> is_update k m) (take (length t - 2) t)"
      using trim_updates_result [of ?s k] d by metis
    have "list_all (is_boot k) n" using n(4) False by blast
    with dropped_to_trans [OF n(1) t(1)] n t show ?thesis unfolding c by blast
  qed
qed

text \<open>
  C35. The queues are bounded. Behind \<^verbatim>\<open>check_queue_sizes\<close> the queues together hold at most as many
  messages as the threshold allows, unless nothing that may be dropped is left: then only boot
  notifications are in the normal queue, and every update message of the transaction queue is one of its
  last two messages. Nothing is reordered and nothing added. A boot notification is never dropped, nor is
  a transaction message that is not an update; update messages are only dropped once the normal queue
  has nothing left to drop. Below the threshold nothing is dropped.
\<close>

theorem queue_sizes_bounded:
  fixes k :: "'m message_kinds" and s :: "'m message_queue"
  defines "s' \<equiv> check_queue_sizes k s"
  shows
    "(queues_size s' \<le> size_threshold (config s) \<or>
      list_all (is_boot k) (normal_message_queue s') \<and>
      list_all (\<lambda>m. \<not> is_update k m)
        (take (length (transaction_message_queue s') - 2) (transaction_message_queue s'))) \<and>
     subseq (normal_message_queue s') (normal_message_queue s) \<and>
     subseq (transaction_message_queue s') (transaction_message_queue s) \<and>
     filter (is_boot k) (normal_message_queue s') = filter (is_boot k) (normal_message_queue s) \<and>
     filter (\<lambda>m. \<not> is_update k m) (transaction_message_queue s') =
       filter (\<lambda>m. \<not> is_update k m) (transaction_message_queue s) \<and>
     (transaction_message_queue s' = transaction_message_queue s \<or>
      list_all (is_boot k) (normal_message_queue s')) \<and>
     (queues_size s \<le> size_threshold (config s) \<longrightarrow> s' = s)"
proof -
  obtain n t where "dropped_to n t s s'" and nt: "subseq n (normal_message_queue s)"
    "subseq t (transaction_message_queue s)"
    "filter (is_boot k) n = filter (is_boot k) (normal_message_queue s)"
    "filter (\<lambda>m. \<not> is_update k m) t = filter (\<lambda>m. \<not> is_update k m) (transaction_message_queue s)"
    "t = transaction_message_queue s \<or> list_all (is_boot k) n"
    "queues_size s' \<le> size_threshold (config s) \<or>
     list_all (is_boot k) n \<and> list_all (\<lambda>m. \<not> is_update k m) (take (length t - 2) t)"
    using check_queue_sizes_result [of s k] unfolding s'_def by blast
  then have q: "normal_message_queue s' = n" "transaction_message_queue s' = t"
    using dropped_to_fields by blast+
  have "queues_size s \<le> size_threshold (config s) \<longrightarrow> s' = s" by (simp add: s'_def check_queue_sizes_def)
  with nt show ?thesis unfolding q by blast
qed

end
