(* ===== verification/Message_Queue_Refinement.thy ===== *)
theory Message_Queue_Refinement
  imports Message_Queue_Spec Message_Queue_Limits
begin

text \<open>
  The queue as a machine and its refinement of the specification. An input is an entry point, a timer or
  a round of the worker thread; the machine has a step for each of them, in every order. Every step of
  the machine is a sequence of steps of the specification on the view of the state, under the limit of
  attempts that is configured in the state it starts from.
\<close>

subsection \<open>The machine\<close>

datatype mq_input =
    Push_Call mq_env json bool
  | Push_Call_Async mq_env json
  | Push_Call_Result "json list"
  | Push_Call_Error string json
  | Receive mq_env string
  | Worker_Round mq_env
  | Idle_Action_Done bool
  | In_Flight_Timeout mq_env
  | Notify_Queue_Timer
  | Resume_Timer
  | Pause mq_env
  | Resume int
  | Run_When_Idle nat
  | Registration_Accepted
  | Update_Attempts int
  | Update_Retry_Interval int
  | Update_Message_Timeout int
  | Add_Stopped_Transaction string int
  | Add_Meter_Value string string
  | Start_Transaction_Handled string int
  | Reset_Next_Message
  | Get_Persisted int bool
  | Start
  | Stop
  | Stop_Timers

text \<open>
  A round of the worker thread happens while the thread runs, is not inside an action and has a reason
  to wake up. An exception that leaves the thread ends it.
\<close>

definition worker_step :: "'m message_kinds \<Rightarrow> mq_env \<Rightarrow> 'm message_queue \<Rightarrow> 'm message_queue" where
  "worker_step k env s =
     (if worker_active s \<and> running_action s = None \<and> worker_awake s
      then case worker_round k env s of Some s' \<Rightarrow> s' | None \<Rightarrow> s\<lparr>worker_active := False\<rparr>
      else s)"

fun mq_step ::
  "'m message_kinds \<Rightarrow> (string \<Rightarrow> json option) \<Rightarrow> 'm message_queue \<Rightarrow> mq_input \<Rightarrow> 'm message_queue" where
  "mq_step k parse s (Push_Call env call stall) = snd (push_call k env call stall s)"
| "mq_step k parse s (Push_Call_Async env call) = snd (push_call_async k env call s)"
| "mq_step k parse s (Push_Call_Result r) = snd (push_call_result k r s)"
| "mq_step k parse s (Push_Call_Error i e) = push_call_error k i e s"
| "mq_step k parse s (Receive env message) = snd (receive k parse env message s)"
| "mq_step k parse s (Worker_Round env) = worker_step k env s"
| "mq_step k parse s (Idle_Action_Done connected) = end_idle_action connected s"
| "mq_step k parse s (In_Flight_Timeout env) = in_flight_timeout_fires k env s"
| "mq_step k parse s Notify_Queue_Timer = notify_queue_timer_fires s"
| "mq_step k parse s Resume_Timer = resume_timer_fires s"
| "mq_step k parse s (Pause env) = pause k env s"
| "mq_step k parse s (Resume delay) = resume delay s"
| "mq_step k parse s (Run_When_Idle action) = run_when_idle action s"
| "mq_step k parse s Registration_Accepted = set_registration_status_accepted s"
| "mq_step k parse s (Update_Attempts n) = update_transaction_message_attempts n s"
| "mq_step k parse s (Update_Retry_Interval n) = update_transaction_message_retry_interval n s"
| "mq_step k parse s (Update_Message_Timeout n) = update_message_timeout n s"
| "mq_step k parse s (Add_Stopped_Transaction i t) = add_stopped_transaction_id i t s"
| "mq_step k parse s (Add_Meter_Value i j) = add_meter_value_message_id i j s"
| "mq_step k parse s (Start_Transaction_Handled i t) =
     snd (notify_start_transaction_handled i t s)"
| "mq_step k parse s Reset_Next_Message = reset_next_message_to_send s"
| "mq_step k parse s (Get_Persisted now ignore) = snd (get_persisted_messages_from_db k now ignore s)"
| "mq_step k parse s Start = start s"
| "mq_step k parse s Stop = stop s"
| "mq_step k parse s Stop_Timers = stop_timers s"

subsection \<open>The view of a state\<close>

definition entry_of :: "'m message_kinds \<Rightarrow> 'm ControlMessage \<Rightarrow> entry" where
  "entry_of k m =
     \<lparr>e_ref = cm_ref m, e_trans = mk_is_transaction k (cm_messageType m),
      e_boot = mk_is_boot k (cm_messageType m), e_attempts = cm_message_attempts m\<rparr>"

definition view :: "'m message_kinds \<Rightarrow> 'm message_queue \<Rightarrow> aq" where
  "view k s =
     \<lparr>v_flight = map_option (entry_of k) (in_flight s),
      v_normal = map (entry_of k) (normal_message_queue s),
      v_trans = map (entry_of k) (transaction_message_queue s),
      v_promises = map fst (promises s),
      v_sent = map (entry_of k) (sent s),
      v_next = next_ref s\<rparr>"

lemma entry_of_simps [simp]:
  "entry_of k (set_message_id i m) = entry_of k m"
  "entry_of k (m\<lparr>cm_timestamp := t\<rparr>) = entry_of k m"
  "entry_of k (m\<lparr>cm_message := a\<rparr>) = entry_of k m"
  "e_ref (entry_of k m) = cm_ref m"
  "e_trans (entry_of k m) = mk_is_transaction k (cm_messageType m)"
  "e_boot (entry_of k m) = mk_is_boot k (cm_messageType m)"
  "e_attempts (entry_of k m) = cm_message_attempts m"
  by (simp_all add: entry_of_def set_message_id_def)

lemma set_message_id_type [simp]: "cm_messageType (set_message_id i m) = cm_messageType m"
  by (simp add: set_message_id_def)

lemma view_simps [simp]:
  "v_flight (view k s) = map_option (entry_of k) (in_flight s)"
  "v_normal (view k s) = map (entry_of k) (normal_message_queue s)"
  "v_trans (view k s) = map (entry_of k) (transaction_message_queue s)"
  "v_promises (view k s) = map fst (promises s)"
  "v_sent (view k s) = map (entry_of k) (sent s)"
  "v_next (view k s) = next_ref s"
  by (simp_all add: view_def)

lemma view_eqI:
  assumes "in_flight s' = in_flight s" "normal_message_queue s' = normal_message_queue s"
    "transaction_message_queue s' = transaction_message_queue s" "promises s' = promises s"
    "sent s' = sent s" "next_ref s' = next_ref s"
  shows "view k s' = view k s"
  using assms by (simp add: view_def)

lemma view_database [simp]:
  "view k (insert_message_queue_message row q s) = view k s"
  "view k (remove_message_queue_message i q s) = view k s"
  "view k (clear_message_queue q s) = view k s"
  "view k (s\<lparr>db_calls := c\<rparr>) = view k s"
  "view k (s\<lparr>new_message := b\<rparr>) = view k s"
  "view k (s\<lparr>worker_active := b\<rparr>) = view k s"
  by (simp_all add: view_def insert_message_queue_message_def remove_message_queue_message_def
      clear_message_queue_def db_statement_def update_table_def Let_def)

subsection \<open>Operations that keep the view\<close>

lemma view_quiet:
  "view k (snd (push_call_result k r s)) = view k s"
  "view k (push_call_error k i e s) = view k s"
  "view k (resume_now c s) = view k s"
  "view k (resume d s) = view k s"
  "view k (end_idle_action b s) = view k s"
  "view k (notify_queue_timer_fires s) = view k s"
  "view k (resume_timer_fires s) = view k s"
  "view k (add_meter_value_message_id i j s) = view k s"
  by (simp_all add: view_def push_call_result_def push_call_error_def answered_def resume_now_def
      resume_def end_idle_action_def notify_queue_timer_fires_def resume_timer_fires_def
      add_meter_value_message_id_def Let_def split: option.splits sum.splits prod.splits)

lemma set_transaction_ids_entries:
  "map (entry_of k) (snd (set_transaction_ids ids t q)) = map (entry_of k) q"
  by (induction ids t q rule: set_transaction_ids.induct) (auto split: option.splits if_splits)

lemma view_start_transaction_handled:
  "view k (snd (notify_start_transaction_handled i t s)) = view k s"
  by (simp add: notify_start_transaction_handled_def view_def set_transaction_ids_entries case_prod_beta
      split: option.split)

subsection \<open>Refinement, operation by operation\<close>

lemma check_queue_sizes_refines: "aq_step l (view k s) (view k (check_queue_sizes k s))"
proof -
  let ?s = "check_queue_sizes k s"
  obtain n t where d: "dropped_to n t s ?s" and nt: "subseq n (normal_message_queue s)"
    "subseq t (transaction_message_queue s)"
    using check_queue_sizes_result by blast
  then have "view k ?s = (view k s)\<lparr>v_normal := map (entry_of k) n, v_trans := map (entry_of k) t\<rparr>"
    using outside_queues_fields [of ?s s] by (simp add: dropped_to_def view_def)
  then show ?thesis using nt by (simp add: aq_step.dropped subseq_map)
qed

lemma add_to_normal_refines:
  assumes "cm_ref m = next_ref s" "\<not> mk_is_transaction k (cm_messageType m)" "0 \<le> cm_message_attempts m"
  shows "aq_steps l (view k s)
    (view k (add_to_normal_message_queue k m (s\<lparr>next_ref := Suc (next_ref s)\<rparr>)))"
proof -
  let ?s0 = "s\<lparr>next_ref := Suc (next_ref s)\<rparr>"
  define s1 where "s1 = (if is_boot k m then ?s0\<lparr>normal_message_queue := m # normal_message_queue s\<rparr>
    else ?s0\<lparr>normal_message_queue := normal_message_queue s @ [m]\<rparr>)"
  define s2 where "s2 = (if check_queue (config s1) (cm_messageType m)
    then insert_message_queue_message (db_row k m) QNormal s1 else s1)"
  have add: "add_to_normal_message_queue k m ?s0 = check_queue_sizes k (s2\<lparr>new_message := True\<rparr>)"
    unfolding add_to_normal_message_queue_def Let_def s2_def s1_def by simp
  have "aq_step l (view k s) (view k s1)"
  proof (cases "is_boot k m")
    case True
    then have "view k s1 = (view k s)\<lparr>v_normal := [] @ entry_of k m # v_normal (view k s),
        v_next := Suc (v_next (view k s))\<rparr>"
      by (simp add: s1_def view_def)
    then show ?thesis using assms by (simp only:) (rule aq_step.enqueue_normal, simp_all)
  next
    case False
    then have "view k s1 = (view k s)\<lparr>v_normal := v_normal (view k s) @ entry_of k m # [],
        v_next := Suc (v_next (view k s))\<rparr>"
      by (simp add: s1_def view_def)
    then show ?thesis using assms by (simp only:) (rule aq_step.enqueue_normal, simp_all)
  qed
  moreover have "view k (s2\<lparr>new_message := True\<rparr>) = view k s1"
    by (simp add: s2_def)
  ultimately show ?thesis unfolding add using check_queue_sizes_refines
    by (metis r_into_rtranclp rtranclp.rtrancl_into_rtrancl)
qed

lemma add_to_transaction_refines:
  assumes "cm_ref m = next_ref s" "mk_is_transaction k (cm_messageType m)" "0 \<le> cm_message_attempts m"
  shows "aq_steps l (view k s)
    (view k (add_to_transaction_message_queue k m (s\<lparr>next_ref := Suc (next_ref s)\<rparr>)))"
proof -
  let ?s0 = "s\<lparr>next_ref := Suc (next_ref s)\<rparr>"
  define s1 where "s1 = ?s0\<lparr>transaction_message_queue := transaction_message_queue s @ [m]\<rparr>"
  define s2 where "s2 = insert_message_queue_message (db_row k m) QTransaction s1"
  have add: "add_to_transaction_message_queue k m ?s0 = check_queue_sizes k (s2\<lparr>new_message := True\<rparr>)"
    unfolding add_to_transaction_message_queue_def Let_def s2_def s1_def by simp
  have "view k s1 = (view k s)\<lparr>v_trans := v_trans (view k s) @ [entry_of k m],
      v_next := Suc (v_next (view k s))\<rparr>"
    by (simp add: s1_def view_def)
  then have "aq_step l (view k s) (view k s1)"
    using assms by (simp only:) (rule aq_step.enqueue_trans, simp_all)
  moreover have "view k (s2\<lparr>new_message := True\<rparr>) = view k s1"
    by (simp add: s2_def)
  ultimately show ?thesis unfolding add using check_queue_sizes_refines
    by (metis r_into_rtranclp rtranclp.rtrancl_into_rtrancl)
qed

lemma new_control_message_fields:
  "new_control_message k now ref call stall = Inr m \<Longrightarrow> cm_ref m = ref \<and> cm_message_attempts m = 0"
  by (auto simp: new_control_message_def split: option.splits sum.splits)

lemma discarded_refines: "aq_steps l (view k s) (view k (s\<lparr>next_ref := Suc (next_ref s)\<rparr>))"
  using aq_step.discarded [of l "view k s"] by (simp add: view_def r_into_rtranclp)

lemma refused_refines:
  "aq_steps l (view k s) (view k (set_promise (next_ref s) e (s\<lparr>next_ref := Suc (next_ref s)\<rparr>)))"
  using aq_step.refused [of l "view k s"] by (simp add: view_def set_promise_def r_into_rtranclp)

lemma push_call_refines: "aq_steps l (view k s) (view k (snd (push_call k env call stall s)))"
proof (cases "new_control_message k (mqe_now env) (next_ref s) call stall")
  case (Inr m)
  note m = new_control_message_fields [OF Inr]
  show ?thesis
    using Inr m add_to_normal_refines [of m s k l] add_to_transaction_refines [of m s k l]
      discarded_refines [of l k s]
    by (simp add: push_call_def Let_def)
qed (simp add: push_call_def)

lemma push_call_async_refines: "aq_steps l (view k s) (view k (snd (push_call_async k env call s)))"
proof (cases "new_control_message k (mqe_now env) (next_ref s) call False")
  case (Inr m)
  note m = new_control_message_fields [OF Inr]
  show ?thesis
    using Inr m add_to_normal_refines [of m s k l] add_to_transaction_refines [of m s k l]
      refused_refines [of l k s]
    by (simp add: push_call_async_def Let_def)
qed (simp add: push_call_async_def)

text \<open>A message in flight is put back while attempts are left, or settled.\<close>

lemma settled_refines:
  assumes "in_flight s = Some m" "view k s' = (view k s)\<lparr>v_flight := None,
    v_promises := v_promises (view k s) @ [cm_ref m]\<rparr>"
  shows "aq_step l (view k s) (view k s')"
  using aq_step.settled [of "view k s" "entry_of k m" l] assms by simp

lemma handle_timeout_refines:
  assumes "in_flight s = Some m"
  shows "aq_step (transaction_message_attempts (config s)) (view k s)
    (view k (handle_timeout_or_callerror k env e s))"
proof -
  let ?limit = "transaction_message_attempts (config s)"
  let ?persisted = "mk_is_transaction k (cm_messageType m) \<or> check_queue (config s) (cm_messageType m)"
  let ?s = "handle_timeout_or_callerror k env e s"
  note defs = handle_timeout_or_callerror_def retry_message_def retry_boot_notification_def give_up_def
    reset_in_flight_def set_promise_def queue_type_of_def Let_def
  consider (retry) "?persisted" "cm_message_attempts m < ?limit"
    | (boot) "\<not> ?persisted" "is_boot k m"
    | (give_up) "?persisted \<and> \<not> cm_message_attempts m < ?limit \<or> \<not> ?persisted \<and> \<not> is_boot k m"
    by blast
  then show ?thesis
  proof cases
    case retry
    then have "view k ?s = (if mk_is_transaction k (cm_messageType m)
      then (view k s)\<lparr>v_flight := None, v_trans := entry_of k m # v_trans (view k s)\<rparr>
      else (view k s)\<lparr>v_flight := None, v_normal := entry_of k m # v_normal (view k s)\<rparr>)"
      using assms by (simp add: defs view_def)
    with retry assms show ?thesis
      using aq_step.requeue_trans [of "view k s" "entry_of k m" ?limit]
        aq_step.requeue_normal [of "view k s" "entry_of k m" ?limit] by simp
  next
    case boot
    then have "view k ?s = (view k s)\<lparr>v_flight := None, v_normal := entry_of k m # v_normal (view k s)\<rparr>"
      using assms by (simp add: defs view_def)
    with boot assms show ?thesis
      using aq_step.requeue_normal [of "view k s" "entry_of k m" ?limit] by simp
  next
    case give_up
    show ?thesis
    proof (rule settled_refines [OF assms])
      have "view k (reset_in_flight (set_promise (cm_ref m) x s)) =
          (view k s)\<lparr>v_flight := None, v_promises := v_promises (view k s) @ [cm_ref m]\<rparr>" for x
        by (simp add: view_def reset_in_flight_def set_promise_def)
      moreover have "view k (reset_in_flight (remove_message_queue_message i q s')) =
          view k (reset_in_flight s')" for i q s'
        by (simp add: view_def reset_in_flight_def remove_message_queue_message_def db_statement_def
            update_table_def Let_def)
      ultimately show "view k ?s =
          (view k s)\<lparr>v_flight := None, v_promises := v_promises (view k s) @ [cm_ref m]\<rparr>"
        using give_up assms by (auto simp: handle_timeout_or_callerror_def give_up_def)
    qed
  qed
qed

text \<open>Sending the selected message.\<close>

lemma replace_transaction_id_fields:
  assumes "replace_transaction_id m s = Some (m', s')"
  shows "entry_of k m' = entry_of k m" "view k s' = view k s" "config s' = config s"
    "normal_message_queue s' = normal_message_queue s"
    "transaction_message_queue s' = transaction_message_queue s"
    "normal_table s' = normal_table s" "transaction_table s' = transaction_table s"
  using assms by (auto simp: replace_transaction_id_def view_def split: option.splits)

lemma remove1_find:
  "find P xs = Some x \<Longrightarrow> \<exists>ys zs. xs = ys @ x # zs \<and> remove1 x xs = ys @ zs \<and> P x"
proof (induction xs)
  case (Cons a xs)
  show ?case
  proof (cases "P a")
    case True
    then show ?thesis using Cons.prems by (intro exI [of _ "[]"] exI [of _ xs]) simp
  next
    case False
    then obtain ys zs where "xs = ys @ x # zs" "remove1 x xs = ys @ zs" "P x" "x \<noteq> a"
      using Cons by auto
    then show ?thesis by (intro exI [of _ "a # ys"] exI [of _ zs]) simp
  qed
qed simp

lemma select_message_cases:
  assumes "select_message k now s = Some (q, m)"
  obtains (normal) xs ys where "q = QNormal" "normal_message_queue s = xs @ m # ys"
      "remove1 m (normal_message_queue s) = xs @ ys"
      "allowed_to_send_message m now (is_registration_status_accepted s)"
  | (transaction) t where "q = QTransaction" "transaction_message_queue s = m # t"
      "allowed_to_send_message m now (is_registration_status_accepted s)"
  using assms
  by (auto simp: select_message_def is_transaction_message_available_def Let_def
      split: list.splits if_splits option.splits dest!: remove1_find)

text \<open>The state in which the message goes out.\<close>

definition going_out ::
  "QueueType \<Rightarrow> 'm ControlMessage \<Rightarrow> 'm ControlMessage \<Rightarrow> 'm message_queue \<Rightarrow> 'm message_queue" where
  "going_out q message m s =
     (let s = s\<lparr>in_flight := Some m, sent := sent s @ [m]\<rparr>
      in case q of
           QNormal \<Rightarrow> s\<lparr>normal_message_queue := remove1 message (normal_message_queue s)\<rparr>
         | QTransaction \<Rightarrow> s\<lparr>transaction_message_queue := tl (transaction_message_queue s)\<rparr>
         | QNone \<Rightarrow> s)"

lemma going_out_fields [simp]:
  "in_flight (going_out q message m s) = Some m" "sent (going_out q message m s) = sent s @ [m]"
  "config (going_out q message m s) = config s"
  "normal_table (going_out q message m s) = normal_table s"
  "transaction_table (going_out q message m s) = transaction_table s"
  by (simp_all add: going_out_def Let_def split: QueueType.splits)

lemma send_message_cases:
  assumes "send_message k env q message s = Some s'"
  obtains m s1 s5 where
    "replace_transaction_id (message\<lparr>cm_message_attempts := cm_message_attempts message + 1\<rparr>) s = Some (m, s1)"
    "s5 = (if mqe_send_ok env
       then (going_out q message m s1)\<lparr>in_flight_timeout_timer := Some (cm_ref m, uniqueId m,
              current_message_timeout (config s1) (word_of_int (cm_message_attempts m)))\<rparr>
       else handle_timeout_or_callerror k env None (going_out q message m s1))"
    "s' = s5 \<or> s' = s5\<lparr>new_message := False\<rparr>"
proof -
  let ?m = "message\<lparr>cm_message_attempts := cm_message_attempts message + 1\<rparr>"
  have n: "cm_message_attempts message \<noteq> 2147483647" using assms by (auto simp: send_message_def)
  from assms obtain m s1 where r: "replace_transaction_id ?m s = Some (m, s1)"
    unfolding send_message_def by (auto split: option.splits if_splits)
  let ?s2 = "s1\<lparr>in_flight := Some m\<rparr>"
  let ?s3 = "case q of
      QNormal \<Rightarrow> ?s2\<lparr>normal_message_queue := remove1 message (normal_message_queue ?s2)\<rparr>
    | QTransaction \<Rightarrow> ?s2\<lparr>transaction_message_queue := tl (transaction_message_queue ?s2)\<rparr>
    | QNone \<Rightarrow> ?s2"
  have g: "?s3\<lparr>sent := sent ?s3 @ [m]\<rparr> = going_out q message m s1"
    by (cases q) (simp_all add: going_out_def)
  have c: "config (going_out q message m s1) = config s1" by simp
  define s5 where "s5 = (if mqe_send_ok env
       then (going_out q message m s1)\<lparr>in_flight_timeout_timer := Some (cm_ref m, uniqueId m,
              current_message_timeout (config s1) (word_of_int (cm_message_attempts m)))\<rparr>
       else handle_timeout_or_callerror k env None (going_out q message m s1))"
  have "send_message k env q message s =
      Some (if transaction_message_queue s5 = [] \<and> normal_message_queue s5 = []
            then s5\<lparr>new_message := False\<rparr> else s5)"
    unfolding send_message_def if_not_P [OF n] r option.case prod.case Let_def g c if_not_P
    by (cases "mqe_send_ok env") (simp_all add: s5_def)
  with assms have "s' = s5 \<or> s' = s5\<lparr>new_message := False\<rparr>" by (auto split: if_splits)
  with that r s5_def show ?thesis by blast
qed

lemma going_out_refines:
  assumes "in_flight s = None" "select_message k now s = Some (q, message)"
    and r: "replace_transaction_id (message\<lparr>cm_message_attempts := cm_message_attempts message + 1\<rparr>) s =
      Some (m, s1)"
  shows "aq_step l (view k s) (view k (going_out q message m s1))"
proof -
  note f = replace_transaction_id_fields [OF r]
  let ?e = "entry_of k message"
  have e: "entry_of k m = ?e\<lparr>e_attempts := e_attempts ?e + 1\<rparr>" using f(1) [of k] by (simp add: entry_of_def)
  have v: "map_option (entry_of k) (in_flight s1) = None" "map fst (promises s1) = map fst (promises s)"
    "map (entry_of k) (sent s1) = map (entry_of k) (sent s)" "next_ref s1 = next_ref s"
    using f(2) [of k] assms(1) by (simp_all add: view_def)
  show ?thesis using assms(2)
  proof (cases rule: select_message_cases)
    case (normal xs ys)
    then have "view k (going_out q message m s1) = (view k s)\<lparr>v_flight := Some (entry_of k m),
        v_normal := map (entry_of k) xs @ map (entry_of k) ys, v_sent := v_sent (view k s) @ [entry_of k m]\<rparr>"
      using v by (simp add: going_out_def view_def f(4,5))
    then show ?thesis using normal assms(1) e
      by (simp only:) (rule aq_step.send_normal [where e = ?e], simp_all)
  next
    case (transaction t)
    then have "view k (going_out q message m s1) = (view k s)\<lparr>v_flight := Some (entry_of k m),
        v_trans := map (entry_of k) t, v_sent := v_sent (view k s) @ [entry_of k m]\<rparr>"
      using v by (simp add: going_out_def view_def f(4,5))
    then show ?thesis using transaction assms(1) e
      by (simp only:) (rule aq_step.send_trans [where e = ?e], simp_all)
  qed
qed

lemma send_message_refines:
  assumes "in_flight s = None" "select_message k now s = Some (q, message)"
    "send_message k env q message s = Some s'"
  shows "aq_steps (transaction_message_attempts (config s)) (view k s) (view k s')"
  using assms(3)
proof (cases rule: send_message_cases)
  case (1 m s1 s5)
  let ?l = "transaction_message_attempts (config s)"
  have out: "aq_step ?l (view k s) (view k (going_out q message m s1))"
    by (rule going_out_refines [OF assms(1,2) 1(1)])
  have "aq_steps ?l (view k (going_out q message m s1)) (view k s5)"
  proof (cases "mqe_send_ok env")
    case True
    then have "view k s5 = view k (going_out q message m s1)" unfolding 1(2) by (simp add: view_def)
    then show ?thesis by simp
  next
    case False
    have "config (going_out q message m s1) = config s" using replace_transaction_id_fields(3) [OF 1(1)] by simp
    then show ?thesis using False handle_timeout_refines [of "going_out q message m s1" m k env None]
      unfolding 1(2) by (simp add: r_into_rtranclp)
  qed
  moreover have "view k s' = view k s5" using 1(3) by auto
  ultimately show ?thesis using out by (simp add: converse_rtranclp_into_rtranclp)
qed

lemma pause_refines:
  "aq_steps (transaction_message_attempts (config s)) (view k s) (view k (pause k env s))"
proof -
  let ?s = "s\<lparr>pause_resume_ctr := pause_resume_ctr s + 1, resume_timer := None, paused := True,
    resuming := False\<rparr>"
  have v: "view k ?s = view k s" "config ?s = config s" "in_flight ?s = in_flight s" by (simp_all add: view_def)
  show ?thesis
  proof (cases "in_flight s")
    case None
    then have "pause k env s = ?s" by (simp add: pause_def Let_def)
    then show ?thesis by (simp add: v)
  next
    case (Some m)
    then have "pause k env s = handle_timeout_or_callerror k env None ?s" by (simp add: pause_def Let_def)
    then show ?thesis using handle_timeout_refines [of ?s m k env None] Some by (simp add: v r_into_rtranclp)
  qed
qed

lemma begin_idle_action_refines:
  "aq_steps (transaction_message_attempts (config s)) (view k s) (view k (begin_idle_action k env s))"
proof -
  let ?s = "s\<lparr>idle_actions := tl (idle_actions s)\<rparr>"
  have v: "view k ?s = view k s" "config ?s = config s" by (simp_all add: view_def)
  have "view k (begin_idle_action k env s) = view k (if paused s then ?s else pause k env ?s)"
    by (simp add: begin_idle_action_def Let_def view_def)
  then show ?thesis using pause_refines [of ?s k env] by (simp add: v)
qed

lemma worker_round_refines:
  assumes "worker_round k env s = Some s'"
  shows "aq_steps (transaction_message_attempts (config s)) (view k s) (view k s')"
proof (cases "running s \<and> idle_actions s \<noteq> [] \<and> in_flight s = None")
  case True
  then show ?thesis using assms begin_idle_action_refines by (auto simp: worker_round_def)
next
  case idle: False
  show ?thesis
  proof (cases "paused s \<or> in_flight s \<noteq> None")
    case True
    then have "worker_round k env s = Some (s\<lparr>worker_active := running s\<rparr>)"
      using idle unfolding worker_round_def by (simp only: if_False if_True option.map)
    then show ?thesis using assms by (simp add: view_def)
  next
    case ready: False
    show ?thesis
    proof (cases "select_message k (mqe_now env) s")
      case None
      then have "worker_round k env s =
          Some (s\<lparr>new_message := False, worker_active := running (s\<lparr>new_message := False\<rparr>)\<rparr>)"
        using idle ready unfolding worker_round_def by (simp only: if_False option.map option.case)
      then show ?thesis using assms by auto
    next
      case (Some qm)
      obtain q message where qm: "qm = (q, message)" by fastforce
      let ?held = "case next_message_to_send s of Some i \<Rightarrow> ci_ne i (uniqueId message) | None \<Rightarrow> False"
      have w: "worker_round k env s = map_option (\<lambda>s. s\<lparr>worker_active := running s\<rparr>)
          (if ?held then Some s else send_message k env q message s)"
        using idle ready Some qm unfolding worker_round_def by (simp only: if_False option.case prod.case)
      show ?thesis
      proof (cases ?held)
        case True
        then show ?thesis using w assms by auto
      next
        case False
        then obtain t where "send_message k env q message s = Some t" "view k s' = view k t"
          using w assms by (cases "send_message k env q message s") auto
        then show ?thesis using send_message_refines [of s k "mqe_now env" q message env t] ready Some qm
          by simp
      qed
    qed
  qed
qed

lemma worker_step_refines:
  "aq_steps (transaction_message_attempts (config s)) (view k s) (view k (worker_step k env s))"
  using worker_round_refines [of k env s] by (auto simp: worker_step_def split: option.splits)

lemma in_flight_timeout_refines:
  "aq_steps (transaction_message_attempts (config s)) (view k s) (view k (in_flight_timeout_fires k env s))"
proof -
  let ?s = "s\<lparr>in_flight_timeout_timer := None\<rparr>"
  have v: "view k ?s = view k s" "config ?s = config s" "in_flight ?s = in_flight s" by (simp_all add: view_def)
  have "in_flight_timeout_fires k env s = s \<or> in_flight_timeout_fires k env s = ?s \<or>
      (\<exists>m. in_flight s = Some m \<and>
         in_flight_timeout_fires k env s = handle_timeout_or_callerror k env None ?s)"
    by (auto simp: in_flight_timeout_fires_def Let_def split: option.splits)
  then show ?thesis using handle_timeout_refines [of ?s _ k env None] by (auto simp: v r_into_rtranclp)
qed

text \<open>An answer settles the message in flight, or starts its retry.\<close>

lemma handle_call_result_refines:
  "aq_steps l (view k s) (view k (snd (handle_call_result k e s)))"
proof -
  have "view k (reset_in_flight (if b then remove_message_queue_message i q (set_promise r x s)
      else set_promise r x s)) =
    (view k s)\<lparr>v_flight := None, v_promises := v_promises (view k s) @ [r]\<rparr>" for b i q r x
    by (simp add: view_def reset_in_flight_def remove_message_queue_message_def db_statement_def
        update_table_def set_promise_def Let_def)
  then show ?thesis
    using settled_refines [of s _ k "snd (handle_call_result k e s)" l]
    by (auto simp: handle_call_result_def Let_def r_into_rtranclp split: option.splits if_splits)
qed

lemma receive_answer_refines:
  "aq_steps (transaction_message_attempts (config s)) (view k s) (view k (snd (receive_answer k env a e s)))"
proof -
  let ?s = "s\<lparr>next_message_to_send := None\<rparr>"
  have v: "view k ?s = view k s" "config ?s = config s" "in_flight ?s = in_flight s" by (simp_all add: view_def)
  have "snd (receive_answer k env a e s) = ?s \<or>
      (\<exists>m e'. in_flight s = Some m \<and>
         snd (receive_answer k env a e s) = handle_timeout_or_callerror k env e' ?s) \<or>
      (\<exists>e'. snd (receive_answer k env a e s) = snd (handle_call_result k e' ?s))"
    by (auto simp: receive_answer_def Let_def split: option.splits)
  then show ?thesis
    using handle_timeout_refines [of ?s _ k env] handle_call_result_refines [of _ k ?s]
    by (auto simp: v r_into_rtranclp)
qed

lemma receive_cases:
  "snd (receive k parse env message s) = s \<or>
   (\<exists>i. snd (receive k parse env message s) = s\<lparr>next_message_to_send := i\<rparr>) \<or>
   (\<exists>a e. snd (receive k parse env message s) = snd (receive_answer k env a e s))"
  by (auto simp: receive_def Let_def split: option.splits sum.splits)

lemma receive_refines:
  "aq_steps (transaction_message_attempts (config s)) (view k s) (view k (snd (receive k parse env message s)))"
proof -
  have "view k (s\<lparr>next_message_to_send := i\<rparr>) = view k s" for i by (simp add: view_def)
  then show ?thesis
    using receive_cases [of k parse env message s] receive_answer_refines [of s k env]
    by (metis rtranclp.rtrancl_refl)
qed

subsection \<open>The rows of the database\<close>

text \<open>
  Restored messages go back to the queue of their table. That the type of a row fits its table holds
  for the rows that the queue inserts, where the name of a type reads back as that type.
\<close>

definition row_ok :: "'m message_kinds \<Rightarrow> bool \<Rightarrow> DBTransactionMessage \<Rightarrow> bool" where
  "row_ok k transaction row \<longleftrightarrow> 0 \<le> db_message_attempts row \<and>
     (case mk_of_string k (db_message_type row) of
        Some t \<Rightarrow> mk_is_transaction k t = transaction | None \<Rightarrow> True)"

definition tables_ok :: "'m message_kinds \<Rightarrow> 'm message_queue \<Rightarrow> bool" where
  "tables_ok k s \<longleftrightarrow> list_all (row_ok k False) (normal_table s) \<and> list_all (row_ok k True) (transaction_table s)"

definition kinds_ok :: "'m message_kinds \<Rightarrow> bool" where
  "kinds_ok k \<longleftrightarrow> (\<forall>t t'. mk_of_string k (mk_to_string k t) = Some t' \<longrightarrow> t' = t)"

lemma tables_ok_cong:
  "normal_table s' = normal_table s \<Longrightarrow> transaction_table s' = transaction_table s \<Longrightarrow>
   tables_ok k s' = tables_ok k s"
  by (simp add: tables_ok_def)

lemma tables_ok_fields [simp]:
  "tables_ok k (s\<lparr>new_message := b\<rparr>) = tables_ok k s"
  "tables_ok k (s\<lparr>worker_active := b\<rparr>) = tables_ok k s"
  "tables_ok k (s\<lparr>next_ref := r\<rparr>) = tables_ok k s"
  "tables_ok k (s\<lparr>normal_message_queue := n\<rparr>) = tables_ok k s"
  "tables_ok k (s\<lparr>transaction_message_queue := t\<rparr>) = tables_ok k s"
  "tables_ok k (s\<lparr>db_calls := c\<rparr>) = tables_ok k s"
  "tables_ok k (set_promise i e s) = tables_ok k s"
  "tables_ok k (reset_in_flight s) = tables_ok k s"
  "tables_ok k (retry_message k' env m s) = tables_ok k s"
  "tables_ok k (retry_boot_notification env m s) = tables_ok k s"
  "tables_ok k (give_up k' e' m s) = tables_ok k s"
  by (simp_all add: tables_ok_def set_promise_def reset_in_flight_def retry_message_def
      retry_boot_notification_def give_up_def Let_def)

lemma tables_ok_remove [intro]: "tables_ok k s \<Longrightarrow> tables_ok k (remove_message_queue_message i q s)"
  by (auto simp: tables_ok_def remove_message_queue_message_def db_statement_def update_table_def
      Let_def list_all_iff)

lemma tables_ok_clear: "tables_ok k s \<Longrightarrow> tables_ok k (clear_message_queue q s)"
  by (auto simp: tables_ok_def clear_message_queue_def db_statement_def update_table_def Let_def)

lemma tables_ok_fold:
  "tables_ok k s \<Longrightarrow> tables_ok k (fold (\<lambda>m. remove_message_queue_message (f m) q) ms s)"
  by (induction ms arbitrary: s) auto

lemma tables_ok_insert:
  assumes "tables_ok k s" "kinds_ok k" "0 \<le> cm_message_attempts m"
    "mk_is_transaction k (cm_messageType m) \<longleftrightarrow> q \<noteq> QNormal"
  shows "tables_ok k (insert_message_queue_message (db_row k m) q s)"
proof -
  have "row_ok k (q \<noteq> QNormal) (db_row k m)"
    using assms(2-4) by (auto simp: row_ok_def db_row_def kinds_ok_def split: option.splits)
  then show ?thesis using assms(1)
    by (auto simp: tables_ok_def insert_message_queue_message_def db_statement_def update_table_def Let_def)
qed

lemma tables_ok_drop_messages:
  "tables_ok k s \<Longrightarrow> tables_ok k (drop_messages_from_normal_message_queue k' s)"
  by (simp add: drop_messages_from_normal_message_queue_def Let_def tables_ok_fold split: prod.splits)

lemma tables_ok_drop_update:
  "drop_update_messages_from_transactional_message_queue k' s = (b, s') \<Longrightarrow> tables_ok k s \<Longrightarrow> tables_ok k s'"
  by (auto simp: drop_update_messages_from_transactional_message_queue_def Let_def tables_ok_fold
      split: prod.splits)

lemma tables_ok_trim_normal: "tables_ok k s \<Longrightarrow> tables_ok k (trim_normal k' s)"
proof (induction k' s rule: trim_normal.induct)
  case (1 k' s)
  have "trim_normal k' s = s \<or> trim_normal k' s = drop_messages_from_normal_message_queue k' s \<or>
      tables_ok k (trim_normal k' s)"
    using "1.IH" [OF _ refl] tables_ok_drop_messages [OF "1.prems"]
    by (subst (1 2 3) trim_normal.simps) (simp add: Let_def)
  then show ?case using "1.prems" tables_ok_drop_messages by metis
qed

lemma tables_ok_trim_updates: "tables_ok k s \<Longrightarrow> tables_ok k (trim_updates k' s)"
proof (induction k' s rule: trim_updates.induct)
  case (1 k' s)
  obtain b d where bd: "drop_update_messages_from_transactional_message_queue k' s = (b, d)" by fastforce
  have d: "tables_ok k d" by (rule tables_ok_drop_update [OF bd "1.prems"])
  have "b \<Longrightarrow> size_threshold (config s) < queues_size s \<Longrightarrow> tables_ok k (trim_updates k' d)"
    using "1.IH" bd d by simp
  then show ?case using bd d "1.prems" by (subst trim_updates.simps) (cases b; simp)
qed

lemma tables_ok_check_queue_sizes: "tables_ok k s \<Longrightarrow> tables_ok k (check_queue_sizes k' s)"
  by (simp add: check_queue_sizes_def tables_ok_trim_normal tables_ok_trim_updates)

lemma tables_ok_add:
  assumes "tables_ok k s" "kinds_ok k" "0 \<le> cm_message_attempts m"
  shows "\<not> mk_is_transaction k (cm_messageType m) \<Longrightarrow> tables_ok k (add_to_normal_message_queue k m s)"
    and "mk_is_transaction k (cm_messageType m) \<Longrightarrow> tables_ok k (add_to_transaction_message_queue k m s)"
  using assms
  by (auto simp: add_to_normal_message_queue_def add_to_transaction_message_queue_def Let_def
      intro!: tables_ok_check_queue_sizes tables_ok_insert)

lemma tables_ok_push_call:
  assumes "tables_ok k s" "kinds_ok k"
  shows "tables_ok k (snd (push_call k env call stall s))" "tables_ok k (snd (push_call_async k env call s))"
  using assms
  by (auto simp: push_call_def push_call_async_def Let_def new_control_message_fields
      intro!: tables_ok_add split: sum.splits)

lemma tables_ok_handle_timeout:
  "tables_ok k s \<Longrightarrow> tables_ok k (handle_timeout_or_callerror k' env e s)"
  by (auto simp: handle_timeout_or_callerror_def split: option.splits)

lemma tables_ok_send_message:
  assumes "send_message k' env q message s = Some s'" "tables_ok k s"
  shows "tables_ok k s'"
  using assms(1)
proof (cases rule: send_message_cases)
  case (1 m s1 s5)
  have out: "tables_ok k (going_out q message m s1)"
    using assms(2) replace_transaction_id_fields(6,7) [OF 1(1)] by (simp add: tables_ok_def)
  have "tables_ok k s5"
  proof (cases "mqe_send_ok env")
    case True
    then show ?thesis unfolding 1(2) using out by (simp add: tables_ok_def)
  next
    case False
    then show ?thesis unfolding 1(2) using out by (simp add: tables_ok_handle_timeout)
  qed
  with 1(3) show ?thesis by auto
qed

lemma tables_ok_pause: "tables_ok k s \<Longrightarrow> tables_ok k (pause k' env s)"
  unfolding pause_def Let_def
  using tables_ok_handle_timeout [of k "s\<lparr>pause_resume_ctr := pause_resume_ctr s + 1,
    resume_timer := None, paused := True, resuming := False\<rparr>" k' env None]
  by (auto simp: tables_ok_def)

lemma tables_ok_begin_idle_action: "tables_ok k s \<Longrightarrow> tables_ok k (begin_idle_action k' env s)"
  unfolding begin_idle_action_def Let_def
  using tables_ok_pause [of k "s\<lparr>idle_actions := tl (idle_actions s)\<rparr>" k' env]
  by (auto simp: tables_ok_def)

lemma tables_ok_worker_step:
  assumes "tables_ok k s"
  shows "tables_ok k (worker_step k' env s)"
proof -
  have "worker_round k' env s = Some s' \<Longrightarrow> tables_ok k s'" for s'
    using assms tables_ok_begin_idle_action [OF assms, of k' env]
    by (auto simp: worker_round_def map_option_eq_Some dest: tables_ok_send_message split: if_splits option.splits)
  then show ?thesis using assms by (auto simp: worker_step_def split: option.splits)
qed

lemma tables_ok_timeout: "tables_ok k s \<Longrightarrow> tables_ok k (in_flight_timeout_fires k' env s)"
  unfolding in_flight_timeout_fires_def Let_def
  using tables_ok_handle_timeout [of k "s\<lparr>in_flight_timeout_timer := None\<rparr>" k' env None]
  by (auto simp: tables_ok_def split: option.splits)

lemma tables_ok_handle_call_result: "tables_ok k s \<Longrightarrow> tables_ok k (snd (handle_call_result k' e s))"
  by (auto simp: handle_call_result_def Let_def split: option.splits)

lemma tables_ok_receive:
  assumes "tables_ok k s"
  shows "tables_ok k (snd (receive k' parse env message s))"
proof -
  let ?s = "s\<lparr>next_message_to_send := None\<rparr>"
  have s: "tables_ok k (s\<lparr>next_message_to_send := i\<rparr>)" for i using assms by (simp add: tables_ok_def)
  have "tables_ok k (snd (receive_answer k' env a e s))" for a e
    using tables_ok_handle_timeout [OF s] tables_ok_handle_call_result [OF s] s
    by (auto simp: receive_answer_def Let_def split: option.splits)
  then show ?thesis using receive_cases [of k' parse env message s] s assms by metis
qed

text \<open>Restoring the queues adds the rows of a table to its queue.\<close>

lemma load_persisted_refines:
  "list_all (row_ok k (q \<noteq> QNormal)) rows \<Longrightarrow> tables_ok k s \<Longrightarrow>
   load_persisted k now ignore q rows s = (r, s') \<Longrightarrow>
   aq_steps l (view k s) (view k s') \<and> tables_ok k s' \<and> config s' = config s"
proof (induction k now ignore q rows s rule: load_persisted.induct)
  case (2 k now ignore q row rows s)
  show ?case
  proof (cases "ignore \<and> db_message_type row = ''SecurityEventNotification''")
    case True
    let ?s = "remove_message_queue_message (db_unique_id row) q s"
    have "config ?s = config s"
      by (simp add: remove_message_queue_message_def db_statement_def update_table_def Let_def)
    with "2.IH"(1) [OF True] "2.prems" True show ?thesis by auto
  next
    case False
    show ?thesis
    proof (cases "\<exists>m t. new_control_message k now (next_ref s) (db_json_message row) True = Inr m \<and>
        mk_of_string k (db_message_type row) = Some t")
      case True
      then obtain m t where
        new: "new_control_message k now (next_ref s) (db_json_message row) True = Inr m" and
        t: "mk_of_string k (db_message_type row) = Some t" by blast
      define m' where "m' = m\<lparr>cm_messageType := t, cm_timestamp := db_timestamp row,
        cm_message_attempts := db_message_attempts row\<rparr>"
      define s1 where "s1 = s\<lparr>next_ref := Suc (next_ref s)\<rparr>"
      define s2 where "s2 = (if q = QNormal
         then s1\<lparr>normal_message_queue := normal_message_queue s1 @ [m']\<rparr>
         else s1\<lparr>transaction_message_queue := transaction_message_queue s1 @ [m']\<rparr>)"
      have load: "load_persisted k now ignore q rows s2 = (r, s')"
        using "2.prems"(3) False new t by (simp add: s2_def s1_def m'_def Let_def split: if_splits)
      have m': "cm_ref m' = next_ref s" "0 \<le> cm_message_attempts m'"
        "mk_is_transaction k (cm_messageType m') \<longleftrightarrow> q \<noteq> QNormal"
        using new_control_message_fields [OF new] "2.prems"(1) t by (auto simp: m'_def row_ok_def)
      have "view k s2 = (if q = QNormal
         then (view k s)\<lparr>v_normal := v_normal (view k s) @ entry_of k m' # [], v_next := Suc (v_next (view k s))\<rparr>
         else (view k s)\<lparr>v_trans := v_trans (view k s) @ [entry_of k m'], v_next := Suc (v_next (view k s))\<rparr>)"
        by (simp add: s2_def s1_def view_def)
      then have "aq_step l (view k s) (view k s2)"
        using m' aq_step.enqueue_trans [of "entry_of k m'" "view k s" l]
          aq_step.enqueue_normal [of "entry_of k m'" "view k s" "v_normal (view k s)" "[]" l]
        by (simp split: if_splits)
      moreover have "tables_ok k s2" "config s2 = config s"
        using "2.prems"(2) by (simp_all add: s2_def s1_def)
      ultimately show ?thesis
        using "2.IH"(2) [OF False new t m'_def s1_def, folded s2_def] "2.prems"(1) load
        by (auto intro: converse_rtranclp_into_rtranclp)
    next
      case none: False
      then have "s' = s" using "2.prems"(3) False by (auto split: sum.splits option.splits)
      then show ?thesis using "2.prems"(2) by simp
    qed
  qed
qed simp

lemma restore_queue_refines:
  assumes "restore_queue k now ignore q s = (r, s')" "tables_ok k s"
  shows "aq_steps l (view k s) (view k s') \<and> tables_ok k s' \<and> config s' = config s"
proof -
  let ?s = "s\<lparr>db_calls := db_calls s @ [Db_Read q]\<rparr>"
  have v: "view k ?s = view k s" "tables_ok k ?s" "config ?s = config s" using assms(2) by simp_all
  let ?rows = "sort_key (database_order ?s (db_calls ?s)) (table_of q ?s)"
  have rows: "list_all (row_ok k (q \<noteq> QNormal)) ?rows"
    using assms(2) by (auto simp: table_of_def tables_ok_def list_all_iff)
  obtain r' s1 where l: "load_persisted k now ignore q ?rows ?s = (r', s1)" by fastforce
  have s1: "aq_steps l (view k s) (view k s1) \<and> tables_ok k s1 \<and> config s1 = config s"
    using load_persisted_refines [OF rows v(2) l] unfolding v by blast
  have "s' = ?s \<or> s' = s1 \<or> s' = s1\<lparr>new_message := True\<rparr>"
    using assms(1) l
    by (auto simp: restore_queue_def get_message_queue_messages_def Let_def
        split: if_splits option.splits prod.splits)
  then show ?thesis using s1 v by auto
qed

lemma get_persisted_refines:
  assumes "tables_ok k s"
  shows "aq_steps l (view k s) (view k (snd (get_persisted_messages_from_db k now ignore s))) \<and>
    tables_ok k (snd (get_persisted_messages_from_db k now ignore s))"
proof -
  obtain r1 s1 where 1: "restore_queue k now ignore QNormal s = (r1, s1)" by fastforce
  obtain r2 s2 where 2: "restore_queue k now ignore QTransaction s1 = (r2, s2)" by fastforce
  note s1 = restore_queue_refines [OF 1 assms, of l]
  note s2 = restore_queue_refines [OF 2, of l]
  have "snd (get_persisted_messages_from_db k now ignore s) = s1 \<or>
      snd (get_persisted_messages_from_db k now ignore s) = s2 \<or>
      snd (get_persisted_messages_from_db k now ignore s) = clear_message_queue QNormal s2"
    by (simp add: get_persisted_messages_from_db_def 1 2 split: option.splits)
  then show ?thesis using s1 s2 by (auto simp: tables_ok_clear intro: rtranclp_trans)
qed

subsection \<open>Every step refines the specification\<close>

lemma tables_ok_quiet:
  "tables_ok k (snd (push_call_result k' r s)) = tables_ok k s"
  "tables_ok k (push_call_error k' i e s) = tables_ok k s"
  "tables_ok k (resume d s) = tables_ok k s"
  "tables_ok k (end_idle_action b s) = tables_ok k s"
  "tables_ok k (notify_queue_timer_fires s) = tables_ok k s"
  "tables_ok k (resume_timer_fires s) = tables_ok k s"
  "tables_ok k (add_meter_value_message_id i j s) = tables_ok k s"
  by (simp_all add: tables_ok_def push_call_result_def push_call_error_def answered_def resume_now_def
      resume_def end_idle_action_def notify_queue_timer_fires_def resume_timer_fires_def
      add_meter_value_message_id_def Let_def split: option.splits sum.splits prod.splits)

lemma tables_ok_start_transaction_handled:
  "tables_ok k (snd (notify_start_transaction_handled i t s)) = tables_ok k s"
  by (simp add: notify_start_transaction_handled_def tables_ok_def case_prod_beta split: option.split)

lemmas small_operation_defs = run_when_idle_def set_registration_status_accepted_def
  update_transaction_message_attempts_def update_transaction_message_retry_interval_def
  update_message_timeout_def add_stopped_transaction_id_def reset_next_message_to_send_def
  start_def stop_def stop_timers_def

lemma mq_step_refines:
  assumes "tables_ok k s" "kinds_ok k"
  shows "aq_steps (transaction_message_attempts (config s)) (view k s) (view k (mq_step k parse s i))"
proof (cases i)
  case (Start_Transaction_Handled a t)
  then show ?thesis
    using view_start_transaction_handled [of k a t s] by simp
next
  case (Get_Persisted now ignore)
  then show ?thesis using get_persisted_refines [OF assms(1)] by simp
qed (simp_all add: push_call_refines push_call_async_refines receive_refines worker_step_refines
    in_flight_timeout_refines pause_refines view_quiet, simp_all add: small_operation_defs view_def)

lemma mq_step_tables:
  assumes "tables_ok k s" "kinds_ok k"
  shows "tables_ok k (mq_step k parse s i)"
proof (cases i)
  case (Start_Transaction_Handled a t)
  then show ?thesis
    using tables_ok_start_transaction_handled [of k a t s] assms by simp
next
  case (Get_Persisted now ignore)
  then show ?thesis using get_persisted_refines [OF assms(1)] by simp
qed (insert assms, simp_all add: tables_ok_push_call tables_ok_receive tables_ok_worker_step
    tables_ok_timeout tables_ok_pause tables_ok_quiet, simp_all add: small_operation_defs tables_ok_def)

end
