(* ===== verification/Message_Queue_Safety.thy ===== *)
theory Message_Queue_Safety
  imports Message_Queue_Refinement
begin

text \<open>
  What holds of the message queue in every state that is reached from a new one: transaction messages
  are sent in their order, a promise is set at most once, retries end, and a message is only sent when it
  is its turn.
\<close>

subsection \<open>The invariants of the specification along a run\<close>

lemma aq_steps_induct:
  assumes "aq_steps l v v'" "P v" "\<And>v v'. aq_step l v v' \<Longrightarrow> P v \<Longrightarrow> P v'"
  shows "P v'"
  using assms(1,2) by (induction rule: rtranclp_induct) (auto intro: assms(3))

text \<open>The rows that a database holds when the queue is created.\<close>

definition stored_ok ::
  "'m message_kinds \<Rightarrow> DBTransactionMessage list \<Rightarrow> DBTransactionMessage list \<Rightarrow> bool" where
  "stored_ok k transactions normals \<longleftrightarrow>
     kinds_ok k \<and> list_all (row_ok k True) transactions \<and> list_all (row_ok k False) normals"

definition mq_inv :: "'m message_kinds \<Rightarrow> 'm message_queue \<Rightarrow> bool" where
  "mq_inv k s \<longleftrightarrow> kinds_ok k \<and> tables_ok k s \<and> aq_unique (view k s) \<and> aq_ordered (view k s)"

lemma view_new: "view k (new_message_queue c transactions normals works order) = aq_init"
  by (simp add: view_def new_message_queue_def aq_init_def)

lemma aq_init_invariants: "aq_unique aq_init" "aq_ordered aq_init" "aq_bounded b aq_init"
  by (simp_all add: aq_init_def aq_unique_def aq_ordered_def aq_bounded_def live_def pending_def
      flight_list_def queued_def)

lemma mq_inv_new:
  "stored_ok k transactions normals \<Longrightarrow> mq_inv k (new_message_queue c transactions normals works order)"
  by (simp add: mq_inv_def stored_ok_def view_new aq_init_invariants)
    (simp add: tables_ok_def new_message_queue_def)

lemma mq_inv_step: "mq_inv k s \<Longrightarrow> mq_inv k (mq_step k parse s i)"
  unfolding mq_inv_def
  using mq_step_tables [of k s parse i] mq_step_refines [of k s parse i]
    aq_steps_induct [of _ _ _ aq_unique] aq_steps_induct [of _ _ _ aq_ordered]
    aq_unique_step aq_ordered_step
  by blast

interpretation mq: machine_invariant "mq_step k parse"
  "new_message_queue c transactions normals works order"
  "\<lambda>s. stored_ok k transactions normals \<longrightarrow> mq_inv k s"
  by unfold_locales (auto intro: mq_inv_new mq_inv_step)

subsection \<open>What the operations leave alone\<close>

definition stable :: "'m message_queue \<Rightarrow> 'm message_queue \<Rightarrow> bool" where
  "stable s s' \<longleftrightarrow> sent s' = sent s \<and>
     transaction_message_attempts (config s') = transaction_message_attempts (config s)"

lemma stable_refl [simp]: "stable s s"
  by (simp add: stable_def)

lemma stable_trans: "stable s s' \<Longrightarrow> stable s' s'' \<Longrightarrow> stable s s''"
  by (simp add: stable_def)

lemma stable_database [simp]:
  "stable s0 (insert_message_queue_message row q s) = stable s0 s"
  "stable s0 (remove_message_queue_message i q s) = stable s0 s"
  "stable s0 (clear_message_queue q s) = stable s0 s"
  by (simp_all add: stable_def insert_message_queue_message_def remove_message_queue_message_def
      clear_message_queue_def db_statement_def update_table_def Let_def)

lemma stable_check_queue_sizes [simp]: "stable s0 (check_queue_sizes k s) = stable s0 s"
proof -
  obtain n t where "dropped_to n t s (check_queue_sizes k s)" using check_queue_sizes_result by blast
  then show ?thesis using outside_queues_fields [of "check_queue_sizes k s" s]
    by (simp add: dropped_to_def stable_def)
qed

lemma stable_fields [simp]:
  "stable s0 (s\<lparr>new_message := b\<rparr>) = stable s0 s"
  "stable s0 (s\<lparr>worker_active := b\<rparr>) = stable s0 s"
  "stable s0 (s\<lparr>next_ref := r\<rparr>) = stable s0 s"
  "stable s0 (s\<lparr>normal_message_queue := n\<rparr>) = stable s0 s"
  "stable s0 (s\<lparr>transaction_message_queue := t\<rparr>) = stable s0 s"
  "stable s0 (s\<lparr>db_calls := c\<rparr>) = stable s0 s"
  "stable s0 (s\<lparr>next_message_to_send := i\<rparr>) = stable s0 s"
  "stable s0 (s\<lparr>in_flight_timeout_timer := x\<rparr>) = stable s0 s"
  "stable s0 (s\<lparr>running_action := a\<rparr>) = stable s0 s"
  "stable s0 (s\<lparr>idle_actions := a'\<rparr>) = stable s0 s"
  "stable s0 (set_promise j e s) = stable s0 s"
  "stable s0 (reset_in_flight s) = stable s0 s"
  "stable s0 (retry_message k' env m s) = stable s0 s"
  "stable s0 (retry_boot_notification env m s) = stable s0 s"
  "stable s0 (give_up k' e' m s) = stable s0 s"
  by (simp_all add: stable_def set_promise_def reset_in_flight_def retry_message_def
      retry_boot_notification_def give_up_def Let_def)

lemma stable_add [simp]:
  "stable s0 (add_to_normal_message_queue k m s) = stable s0 s"
  "stable s0 (add_to_transaction_message_queue k m s) = stable s0 s"
  by (simp_all add: add_to_normal_message_queue_def add_to_transaction_message_queue_def Let_def)

lemma stable_push:
  "stable s (snd (push_call k env call stall s))" "stable s (snd (push_call_async k env call s))"
  by (simp_all add: push_call_def push_call_async_def Let_def split: sum.splits)

lemma stable_handle_timeout [simp]: "stable s0 (handle_timeout_or_callerror k env e s) = stable s0 s"
  by (simp add: handle_timeout_or_callerror_def split: option.splits)

lemma stable_pause: "stable s (pause k env s)"
  by (simp add: pause_def Let_def) (simp add: stable_def)

lemma stable_begin_idle_action: "stable s (begin_idle_action k env s)"
  using stable_pause [of "s\<lparr>idle_actions := tl (idle_actions s)\<rparr>" k env]
  by (simp add: begin_idle_action_def Let_def stable_def)

lemma stable_timeout: "stable s (in_flight_timeout_fires k env s)"
  by (simp add: in_flight_timeout_fires_def Let_def split: option.splits)

lemma stable_receive: "stable s (snd (receive k parse env message s))"
proof -
  have r: "stable s (snd (handle_call_result k e s'))" if "stable s s'" for e s'
    using that by (simp add: handle_call_result_def Let_def split: option.splits)
  have "stable s (snd (receive_answer k env a e s))" for a e
    by (simp add: receive_answer_def Let_def r split: option.splits)
  then show ?thesis using receive_cases [of k parse env message s] by (metis stable_fields(7) stable_refl)
qed

lemma stable_load_persisted:
  "load_persisted k now ignore q rows s = (r, s') \<Longrightarrow> stable s0 s \<Longrightarrow> stable s0 s'"
  by (induction k now ignore q rows s rule: load_persisted.induct)
    (auto simp: Let_def split: if_splits sum.splits option.splits)

lemma stable_restore_queue:
  "restore_queue k now ignore q s = (r, s') \<Longrightarrow> stable s0 s \<Longrightarrow> stable s0 s'"
  by (auto simp: restore_queue_def get_message_queue_messages_def Let_def
      dest!: stable_load_persisted [of _ _ _ _ _ _ _ _ s0] split: if_splits option.splits prod.splits)

lemma stable_get_persisted: "stable s (snd (get_persisted_messages_from_db k now ignore s))"
  using stable_restore_queue [of k now ignore QNormal s _ _ s]
    stable_restore_queue [of k now ignore QTransaction _ _ _ s]
  by (auto simp: get_persisted_messages_from_db_def split: option.splits prod.splits)

lemma stable_start_transaction_handled:
  "stable s (snd (notify_start_transaction_handled i t s))"
  by (simp add: notify_start_transaction_handled_def stable_def case_prod_beta split: option.split)

lemma stable_quiet:
  "stable s (snd (push_call_result k' r s))" "stable s (push_call_error k' i e s)"
  "stable s (resume d s)" "stable s (end_idle_action b s)" "stable s (notify_queue_timer_fires s)"
  "stable s (resume_timer_fires s)" "stable s (add_meter_value_message_id i j s)"
  by (simp_all add: stable_def push_call_result_def push_call_error_def answered_def resume_now_def
      resume_def end_idle_action_def notify_queue_timer_fires_def resume_timer_fires_def
      add_meter_value_message_id_def Let_def split: option.splits sum.splits prod.splits)

lemma mq_step_stable:
  assumes "\<And>env. i \<noteq> Worker_Round env" "\<And>n. i \<noteq> Update_Attempts n"
  shows "stable s (mq_step k parse s i)"
proof (cases i)
  case (Start_Transaction_Handled a t)
  then show ?thesis using stable_start_transaction_handled [of s a t] by simp
qed (insert assms, simp_all add: stable_push stable_receive stable_pause stable_timeout
    stable_get_persisted stable_quiet, simp_all add: small_operation_defs stable_def)

subsection \<open>What a round of the worker thread sends\<close>

definition sends_message ::
  "'m message_kinds \<Rightarrow> mq_env \<Rightarrow> QueueType \<Rightarrow> 'm ControlMessage \<Rightarrow> 'm message_queue \<Rightarrow> 'm message_queue \<Rightarrow> bool" where
  "sends_message k env q message s s' \<longleftrightarrow>
     select_message k (mqe_now env) s = Some (q, message) \<and> \<not> paused s \<and> in_flight s = None \<and>
     next_message_to_send s \<in> {None, Some (uniqueId message)} \<and>
     (\<exists>m. sent s' = sent s @ [m] \<and> cm_messageType m = cm_messageType message \<and>
        entry_of k m = entry_of k (message\<lparr>cm_message_attempts := cm_message_attempts message + 1\<rparr>)) \<and>
     transaction_message_attempts (config s') = transaction_message_attempts (config s)"

lemma replace_transaction_id_sent:
  "replace_transaction_id m s = Some (m', s') \<Longrightarrow> sent s' = sent s \<and> cm_messageType m' = cm_messageType m"
  by (auto simp: replace_transaction_id_def split: option.splits)

lemma send_message_sends:
  assumes "send_message k env q message s = Some s'"
  obtains m where "sent s' = sent s @ [m]" "cm_messageType m = cm_messageType message"
    "entry_of k m = entry_of k (message\<lparr>cm_message_attempts := cm_message_attempts message + 1\<rparr>)"
    "transaction_message_attempts (config s') = transaction_message_attempts (config s)"
  using assms
proof (cases rule: send_message_cases)
  case (1 m s1 s5)
  have "stable (going_out q message m s1) s5" unfolding 1(2) by simp
  then have "sent s5 = sent s1 @ [m]"
    "transaction_message_attempts (config s5) = transaction_message_attempts (config s1)"
    by (simp_all add: stable_def)
  moreover have "stable s5 s'" using 1(3) by auto
  ultimately show ?thesis
    using that [of m] replace_transaction_id_fields(1,3) [OF 1(1)] replace_transaction_id_sent [OF 1(1)]
    by (simp add: stable_def)
qed

lemma worker_round_sends:
  assumes "worker_round k env s = Some s'"
  shows "stable s s' \<or> (\<exists>q message. sends_message k env q message s s')"
proof (cases "running s \<and> idle_actions s \<noteq> [] \<and> in_flight s = None")
  case True
  then show ?thesis using assms stable_begin_idle_action by (auto simp: worker_round_def)
next
  case idle: False
  show ?thesis
  proof (cases "paused s \<or> in_flight s \<noteq> None \<or> select_message k (mqe_now env) s = None")
    case True
    then have "worker_round k env s = Some (s\<lparr>worker_active := running s\<rparr>) \<or>
        worker_round k env s = Some (s\<lparr>new_message := False, worker_active := running s\<rparr>)"
      using idle unfolding worker_round_def by auto
    then show ?thesis using assms by auto
  next
    case False
    then obtain q message where sel: "select_message k (mqe_now env) s = Some (q, message)" by auto
    have ready: "\<not> (paused s \<or> in_flight s \<noteq> None)" using False by blast
    let ?held = "case next_message_to_send s of Some i \<Rightarrow> ci_ne i (uniqueId message) | None \<Rightarrow> False"
    have w: "worker_round k env s = map_option (\<lambda>s. s\<lparr>worker_active := running s\<rparr>)
        (if ?held then Some s else send_message k env q message s)"
      using idle ready sel unfolding worker_round_def by (simp only: if_False option.case prod.case)
    show ?thesis
    proof (cases ?held)
      case True
      then show ?thesis using w assms by auto
    next
      case send: False
      then obtain t where t: "send_message k env q message s = Some t" "stable t s'"
        using w assms by (cases "send_message k env q message s") auto
      from t(1) obtain m where "sent t = sent s @ [m]" "cm_messageType m = cm_messageType message"
        "entry_of k m = entry_of k (message\<lparr>cm_message_attempts := cm_message_attempts message + 1\<rparr>)"
        "transaction_message_attempts (config t) = transaction_message_attempts (config s)"
        by (rule send_message_sends)
      with t(2) False sel send have "sends_message k env q message s s'"
        by (auto simp: sends_message_def stable_def ci_ne_def split: option.splits)
      then show ?thesis by blast
    qed
  qed
qed

lemma worker_step_sends:
  "stable s (worker_step k env s) \<or> (\<exists>q message. sends_message k env q message s (worker_step k env s))"
  using worker_round_sends [of k env s] by (auto simp: worker_step_def split: option.splits)

lemma mq_step_attempts:
  "transaction_message_attempts (config (mq_step k parse s i)) =
     (case i of Update_Attempts n \<Rightarrow> n | _ \<Rightarrow> transaction_message_attempts (config s))"
proof (cases "\<exists>n. i = Update_Attempts n")
  case True
  then show ?thesis by (auto simp: update_transaction_message_attempts_def)
next
  case other: False
  show ?thesis
  proof (cases "\<exists>env. i = Worker_Round env")
    case True
    then show ?thesis using worker_step_sends by (fastforce simp: stable_def sends_message_def)
  next
    case False
    then show ?thesis using mq_step_stable [of i s k parse] other by (auto simp: stable_def split: mq_input.splits)
  qed
qed

text \<open>The order of the choice between the two queues.\<close>

definition in_turn :: "'m message_kinds \<Rightarrow> int \<Rightarrow> 'm ControlMessage \<Rightarrow> 'm message_queue \<Rightarrow> bool" where
  "in_turn k now message s \<longleftrightarrow>
     (let allowed = (\<lambda>m. allowed_to_send_message m now (is_registration_status_accepted s));
          normal = find allowed (normal_message_queue s)
      in (case transaction_message_queue s of
            [] \<Rightarrow> normal = Some message
          | front # _ \<Rightarrow>
              (message = front \<and>
                 (case normal of None \<Rightarrow> True
                  | Some n \<Rightarrow> \<not> is_boot k n \<and> cm_timestamp front \<le> cm_timestamp n)) \<or>
              (normal = Some message \<and>
                 (\<not> allowed front \<or> is_boot k message \<or> cm_timestamp message < cm_timestamp front))))"

lemma select_message_in_turn:
  "select_message k now s = Some (q, message) \<Longrightarrow> in_turn k now message s"
  by (auto simp: select_message_def in_turn_def is_transaction_message_available_def Let_def
      split: list.splits option.splits if_splits)

text \<open>Runs that keep the configured number of attempts below a bound.\<close>

definition attempts_within :: "int \<Rightarrow> mq_input \<Rightarrow> bool" where
  "attempts_within b i = (case i of Update_Attempts n \<Rightarrow> n \<le> b | _ \<Rightarrow> True)"

lemma bounded_run:
  assumes "mq_inv k s" "aq_bounded b (view k s)" "transaction_message_attempts (config s) \<le> b"
    "list_all (attempts_within b) inputs"
  shows "aq_bounded b (view k (run (mq_step k parse) s inputs))"
  using assms
proof (induction inputs arbitrary: s)
  case (Cons i inputs)
  let ?s = "mq_step k parse s i"
  have "aq_steps (transaction_message_attempts (config s)) (view k s) (view k ?s)"
    using Cons.prems(1) by (simp add: mq_inv_def mq_step_refines)
  then have "aq_unique (view k ?s) \<and> aq_bounded b (view k ?s)"
    using Cons.prems(1-3) by (elim aq_steps_induct) (auto simp: mq_inv_def aq_unique_step aq_bounded_step)
  moreover have "transaction_message_attempts (config ?s) \<le> b"
    using Cons.prems(3,4) by (auto simp: mq_step_attempts attempts_within_def split: mq_input.splits)
  ultimately show ?case using Cons.IH [of ?s] Cons.prems(1,4) by (simp add: mq_inv_step)
qed simp

subsection \<open>Claims\<close>

text \<open>
  C16. Transaction messages are sent in the order in which they were queued. In every state that a queue
  reaches, over all orders of calls, received messages, timeouts, failed sends, retries, restarts of the
  connection and restored messages: the transaction messages handed to the connection so far are in the
  order of their creation, where a retry repeats the last one; the message in flight and the ones that
  wait are in strict order; and nothing that was sent is younger than a transaction message that is
  still to be delivered. The numbers of control messages grow with their creation.
\<close>

theorem transaction_messages_in_order:
  assumes "stored_ok k transactions normals"
    and "reach (mq_step k parse) (new_message_queue c transactions normals works order) s"
  shows "sorted (map cm_ref (filter (\<lambda>m. mk_is_transaction k (cm_messageType m)) (sent s))) \<and>
    sorted_wrt (<) (map cm_ref
      (filter (\<lambda>m. mk_is_transaction k (cm_messageType m)) (case in_flight s of Some m \<Rightarrow> [m] | None \<Rightarrow> []) @
       transaction_message_queue s)) \<and>
    (\<forall>m\<in>set (sent s). \<forall>w\<in>set (transaction_message_queue s).
       mk_is_transaction k (cm_messageType m) \<longrightarrow> cm_ref m \<le> cm_ref w)"
proof -
  have "aq_ordered (view k s)" using mq.inv_reach [OF assms(2)] assms(1) by (simp add: mq_inv_def)
  moreover have "filter e_trans (map (entry_of k) ms) =
      map (entry_of k) (filter (\<lambda>m. mk_is_transaction k (cm_messageType m)) ms)" for ms
    by (simp add: filter_map comp_def)
  moreover have "flight_list (view k s) =
      map (entry_of k) (case in_flight s of Some m \<Rightarrow> [m] | None \<Rightarrow> [])"
    by (simp add: flight_list_def split: option.splits)
  ultimately show ?thesis by (simp add: aq_ordered_def pending_def comp_def ball_Un)
qed

text \<open>
  C26. A promise is set at most once. In every reachable state no control message has got two answers,
  which would be an exception of the promise; a message that is in flight or waits has got none, and
  it is at one place only.
\<close>

theorem promises_set_once:
  assumes "stored_ok k transactions normals"
    and "reach (mq_step k parse) (new_message_queue c transactions normals works order) s"
  shows "distinct (map fst (promises s)) \<and>
    distinct (map cm_ref ((case in_flight s of Some m \<Rightarrow> [m] | None \<Rightarrow> []) @
      normal_message_queue s @ transaction_message_queue s)) \<and>
    (\<forall>m\<in>set ((case in_flight s of Some m \<Rightarrow> [m] | None \<Rightarrow> []) @
        normal_message_queue s @ transaction_message_queue s). cm_ref m \<notin> fst ` set (promises s))"
proof -
  have "aq_unique (view k s)" using mq.inv_reach [OF assms(2)] assms(1) by (simp add: mq_inv_def)
  moreover have "map e_ref (live (view k s)) =
      map cm_ref ((case in_flight s of Some m \<Rightarrow> [m] | None \<Rightarrow> []) @
        normal_message_queue s @ transaction_message_queue s)"
    by (simp add: live_def flight_list_def comp_def split: option.splits)
  ultimately show ?thesis unfolding aq_unique_def by (simp del: map_append)
qed

text \<open>
  C28. Retries end. While the configured number of attempts is never above \<open>b\<close>, a message that is not a boot
  notification is handed to the connection at most \<open>b\<close> times during a run of the process, and once where
  \<open>b\<close> is smaller.
\<close>

theorem retries_end:
  assumes "stored_ok k transactions normals" and "transaction_message_attempts c \<le> b"
    and "list_all (attempts_within b) inputs"
    and "m \<in> set (sent (run (mq_step k parse) (new_message_queue c transactions normals works order) inputs))"
    and "\<not> is_boot k m"
  shows "int (length (filter (\<lambda>x. cm_ref x = cm_ref m)
      (sent (run (mq_step k parse) (new_message_queue c transactions normals works order) inputs)))) \<le> max 1 b"
proof -
  let ?new = "new_message_queue c transactions normals works order"
  let ?s = "run (mq_step k parse) ?new inputs"
  have "transaction_message_attempts (config ?new) \<le> b" using assms(2) by (simp add: new_message_queue_def)
  then have "aq_bounded b (view k ?s)"
    using bounded_run [OF mq_inv_new [OF assms(1)]] assms(3) by (simp add: view_new aq_init_invariants)
  then have "sends (view k ?s) (cm_ref m) \<le> max 1 b" using assms(4,5) by (auto simp: aq_bounded_def)
  then show ?thesis by (simp add: sends_def filter_map comp_def)
qed

text \<open>
  C32. A message is sent only in its turn. Only a round of the worker thread hands a message to the
  connection, one at a time, and only while the queue is not paused, no message is in flight and no other
  message has to be sent first. The message is due and, where it has to wait for it, the registration was
  accepted. It is the first message of the transaction queue, unless an allowed boot notification or an
  older allowed message of the normal queue is before it; or it is the first allowed message of the
  normal queue, where the first transaction message is not allowed or is younger, or where it is a boot
  notification.
\<close>

theorem sent_in_turn:
  assumes "sent (mq_step k parse s i) \<noteq> sent s"
  shows "\<exists>env message m. i = Worker_Round env \<and> sent (mq_step k parse s i) = sent s @ [m] \<and>
    cm_ref m = cm_ref message \<and> cm_messageType m = cm_messageType message \<and>
    cm_message_attempts m = cm_message_attempts message + 1 \<and>
    \<not> paused s \<and> in_flight s = None \<and> next_message_to_send s \<in> {None, Some (uniqueId message)} \<and>
    (cm_stall_until_accepted message \<longrightarrow> is_registration_status_accepted s) \<and>
    cm_timestamp message \<le> mqe_now env \<and> in_turn k (mqe_now env) message s"
proof -
  have "\<exists>env. i = Worker_Round env"
  proof (rule ccontr)
    assume "\<nexists>env. i = Worker_Round env"
    moreover have "sent (mq_step k parse s (Update_Attempts n)) = sent s" for n
      by (simp add: update_transaction_message_attempts_def)
    ultimately show False using mq_step_stable [of i s k parse] assms unfolding stable_def by blast
  qed
  then obtain env where i: "i = Worker_Round env" by blast
  then obtain q message where send: "sends_message k env q message s (mq_step k parse s i)"
    using worker_step_sends [of s k env] assms by (auto simp: stable_def)
  then have sel: "select_message k (mqe_now env) s = Some (q, message)" by (simp add: sends_message_def)
  then have "allowed_to_send_message message (mqe_now env) (is_registration_status_accepted s)"
    by (cases rule: select_message_cases) simp_all
  moreover from send obtain m where "sent (mq_step k parse s i) = sent s @ [m]"
    "cm_messageType m = cm_messageType message"
    "entry_of k m = entry_of k (message\<lparr>cm_message_attempts := cm_message_attempts message + 1\<rparr>)"
    by (auto simp: sends_message_def)
  ultimately show ?thesis using send i select_message_in_turn [OF sel]
    by (intro exI [of _ env] exI [of _ message] exI [of _ m])
      (auto simp: sends_message_def allowed_to_send_message_def entry_of_def split: if_splits)
qed

text \<open>
  C34. The message queue refines the specification of an abstract queue: the view of a new queue is the
  initial state of the specification, and in every reachable state each input of the machine leads to a
  state whose view is reached by steps of the specification, under the limit of attempts that is
  configured.
\<close>

theorem queue_refines_specification:
  assumes "stored_ok k transactions normals"
    and "reach (mq_step k parse) (new_message_queue c transactions normals works order) s"
  shows "view k (new_message_queue c transactions normals works order) = aq_init \<and>
    aq_steps (transaction_message_attempts (config s)) (view k s) (view k (mq_step k parse s i))"
  using mq.inv_reach [OF assms(2)] assms(1) by (simp add: mq_inv_def view_new mq_step_refines)

end
