(* ===== verification/Ocpp_Message_Types.thy ===== *)
theory Ocpp_Message_Types
  imports Main
begin

text \<open>
  The message types of OCPP 1.6 with their names, after \<^verbatim>\<open>ocpp/v16/types.hpp\<close> and
  \<^verbatim>\<open>ocpp/v16/types.cpp\<close>, and the kinds of messages of \<^verbatim>\<open>ocpp/v16/message_queue.cpp\<close>.
\<close>

subsection \<open>Message types of OCPP 1.6\<close>

datatype (plugins only: code) MessageType =
    Authorize | AuthorizeResponse | BootNotification | BootNotificationResponse |
    CancelReservation | CancelReservationResponse | CertificateSigned |
    CertificateSignedResponse | ChangeAvailability | ChangeAvailabilityResponse |
    ChangeConfiguration | ChangeConfigurationResponse | ClearCache | ClearCacheResponse |
    ClearChargingProfile | ClearChargingProfileResponse | DataTransfer | DataTransferResponse |
    DeleteCertificate | DeleteCertificateResponse | DiagnosticsStatusNotification |
    DiagnosticsStatusNotificationResponse | ExtendedTriggerMessage |
    ExtendedTriggerMessageResponse | FirmwareStatusNotification |
    FirmwareStatusNotificationResponse | GetCompositeSchedule | GetCompositeScheduleResponse |
    GetConfiguration | GetConfigurationResponse | GetDiagnostics | GetDiagnosticsResponse |
    GetInstalledCertificateIds | GetInstalledCertificateIdsResponse | GetLocalListVersion |
    GetLocalListVersionResponse | GetLog | GetLogResponse | Heartbeat | HeartbeatResponse |
    InstallCertificate | InstallCertificateResponse | LogStatusNotification |
    LogStatusNotificationResponse | MeterValues | MeterValuesResponse |
    RemoteStartTransaction | RemoteStartTransactionResponse | RemoteStopTransaction |
    RemoteStopTransactionResponse | ReserveNow | ReserveNowResponse | Reset | ResetResponse |
    SecurityEventNotification | SecurityEventNotificationResponse | SendLocalList |
    SendLocalListResponse | SetChargingProfile | SetChargingProfileResponse | SignCertificate |
    SignCertificateResponse | SignedFirmwareStatusNotification |
    SignedFirmwareStatusNotificationResponse | SignedUpdateFirmware |
    SignedUpdateFirmwareResponse | StartTransaction | StartTransactionResponse |
    StatusNotification | StatusNotificationResponse | StopTransaction |
    StopTransactionResponse | TriggerMessage | TriggerMessageResponse | UnlockConnector |
    UnlockConnectorResponse | UpdateFirmware | UpdateFirmwareResponse | InternalError

definition messagetype_to_string :: "MessageType \<Rightarrow> string" where
  "messagetype_to_string m = (case m of
       Authorize \<Rightarrow> ''Authorize''
     | AuthorizeResponse \<Rightarrow> ''AuthorizeResponse''
     | BootNotification \<Rightarrow> ''BootNotification''
     | BootNotificationResponse \<Rightarrow> ''BootNotificationResponse''
     | CancelReservation \<Rightarrow> ''CancelReservation''
     | CancelReservationResponse \<Rightarrow> ''CancelReservationResponse''
     | CertificateSigned \<Rightarrow> ''CertificateSigned''
     | CertificateSignedResponse \<Rightarrow> ''CertificateSignedResponse''
     | ChangeAvailability \<Rightarrow> ''ChangeAvailability''
     | ChangeAvailabilityResponse \<Rightarrow> ''ChangeAvailabilityResponse''
     | ChangeConfiguration \<Rightarrow> ''ChangeConfiguration''
     | ChangeConfigurationResponse \<Rightarrow> ''ChangeConfigurationResponse''
     | ClearCache \<Rightarrow> ''ClearCache''
     | ClearCacheResponse \<Rightarrow> ''ClearCacheResponse''
     | ClearChargingProfile \<Rightarrow> ''ClearChargingProfile''
     | ClearChargingProfileResponse \<Rightarrow> ''ClearChargingProfileResponse''
     | DataTransfer \<Rightarrow> ''DataTransfer''
     | DataTransferResponse \<Rightarrow> ''DataTransferResponse''
     | DeleteCertificate \<Rightarrow> ''DeleteCertificate''
     | DeleteCertificateResponse \<Rightarrow> ''DeleteCertificateResponse''
     | DiagnosticsStatusNotification \<Rightarrow> ''DiagnosticsStatusNotification''
     | DiagnosticsStatusNotificationResponse \<Rightarrow> ''DiagnosticsStatusNotificationResponse''
     | ExtendedTriggerMessage \<Rightarrow> ''ExtendedTriggerMessage''
     | ExtendedTriggerMessageResponse \<Rightarrow> ''ExtendedTriggerMessageResponse''
     | FirmwareStatusNotification \<Rightarrow> ''FirmwareStatusNotification''
     | FirmwareStatusNotificationResponse \<Rightarrow> ''FirmwareStatusNotificationResponse''
     | GetCompositeSchedule \<Rightarrow> ''GetCompositeSchedule''
     | GetCompositeScheduleResponse \<Rightarrow> ''GetCompositeScheduleResponse''
     | GetConfiguration \<Rightarrow> ''GetConfiguration''
     | GetConfigurationResponse \<Rightarrow> ''GetConfigurationResponse''
     | GetDiagnostics \<Rightarrow> ''GetDiagnostics''
     | GetDiagnosticsResponse \<Rightarrow> ''GetDiagnosticsResponse''
     | GetInstalledCertificateIds \<Rightarrow> ''GetInstalledCertificateIds''
     | GetInstalledCertificateIdsResponse \<Rightarrow> ''GetInstalledCertificateIdsResponse''
     | GetLocalListVersion \<Rightarrow> ''GetLocalListVersion''
     | GetLocalListVersionResponse \<Rightarrow> ''GetLocalListVersionResponse''
     | GetLog \<Rightarrow> ''GetLog''
     | GetLogResponse \<Rightarrow> ''GetLogResponse''
     | Heartbeat \<Rightarrow> ''Heartbeat''
     | HeartbeatResponse \<Rightarrow> ''HeartbeatResponse''
     | InstallCertificate \<Rightarrow> ''InstallCertificate''
     | InstallCertificateResponse \<Rightarrow> ''InstallCertificateResponse''
     | LogStatusNotification \<Rightarrow> ''LogStatusNotification''
     | LogStatusNotificationResponse \<Rightarrow> ''LogStatusNotificationResponse''
     | MeterValues \<Rightarrow> ''MeterValues''
     | MeterValuesResponse \<Rightarrow> ''MeterValuesResponse''
     | RemoteStartTransaction \<Rightarrow> ''RemoteStartTransaction''
     | RemoteStartTransactionResponse \<Rightarrow> ''RemoteStartTransactionResponse''
     | RemoteStopTransaction \<Rightarrow> ''RemoteStopTransaction''
     | RemoteStopTransactionResponse \<Rightarrow> ''RemoteStopTransactionResponse''
     | ReserveNow \<Rightarrow> ''ReserveNow''
     | ReserveNowResponse \<Rightarrow> ''ReserveNowResponse''
     | Reset \<Rightarrow> ''Reset''
     | ResetResponse \<Rightarrow> ''ResetResponse''
     | SecurityEventNotification \<Rightarrow> ''SecurityEventNotification''
     | SecurityEventNotificationResponse \<Rightarrow> ''SecurityEventNotificationResponse''
     | SendLocalList \<Rightarrow> ''SendLocalList''
     | SendLocalListResponse \<Rightarrow> ''SendLocalListResponse''
     | SetChargingProfile \<Rightarrow> ''SetChargingProfile''
     | SetChargingProfileResponse \<Rightarrow> ''SetChargingProfileResponse''
     | SignCertificate \<Rightarrow> ''SignCertificate''
     | SignCertificateResponse \<Rightarrow> ''SignCertificateResponse''
     | SignedFirmwareStatusNotification \<Rightarrow> ''SignedFirmwareStatusNotification''
     | SignedFirmwareStatusNotificationResponse \<Rightarrow> ''SignedFirmwareStatusNotificationResponse''
     | SignedUpdateFirmware \<Rightarrow> ''SignedUpdateFirmware''
     | SignedUpdateFirmwareResponse \<Rightarrow> ''SignedUpdateFirmwareResponse''
     | StartTransaction \<Rightarrow> ''StartTransaction''
     | StartTransactionResponse \<Rightarrow> ''StartTransactionResponse''
     | StatusNotification \<Rightarrow> ''StatusNotification''
     | StatusNotificationResponse \<Rightarrow> ''StatusNotificationResponse''
     | StopTransaction \<Rightarrow> ''StopTransaction''
     | StopTransactionResponse \<Rightarrow> ''StopTransactionResponse''
     | TriggerMessage \<Rightarrow> ''TriggerMessage''
     | TriggerMessageResponse \<Rightarrow> ''TriggerMessageResponse''
     | UnlockConnector \<Rightarrow> ''UnlockConnector''
     | UnlockConnectorResponse \<Rightarrow> ''UnlockConnectorResponse''
     | UpdateFirmware \<Rightarrow> ''UpdateFirmware''
     | UpdateFirmwareResponse \<Rightarrow> ''UpdateFirmwareResponse''
     | InternalError \<Rightarrow> ''InternalError'')"

text \<open>The chain of comparisons, in the order of the source; without a match it throws.\<close>

definition messagetype_names :: "(string \<times> MessageType) list" where
  "messagetype_names = [
     (''Authorize'', Authorize), (''AuthorizeResponse'', AuthorizeResponse),
     (''BootNotification'', BootNotification),
     (''BootNotificationResponse'', BootNotificationResponse),
     (''CancelReservation'', CancelReservation),
     (''CancelReservationResponse'', CancelReservationResponse),
     (''CertificateSigned'', CertificateSigned),
     (''CertificateSignedResponse'', CertificateSignedResponse),
     (''ChangeAvailability'', ChangeAvailability),
     (''ChangeAvailabilityResponse'', ChangeAvailabilityResponse),
     (''ChangeConfiguration'', ChangeConfiguration),
     (''ChangeConfigurationResponse'', ChangeConfigurationResponse),
     (''ClearCache'', ClearCache), (''ClearCacheResponse'', ClearCacheResponse),
     (''ClearChargingProfile'', ClearChargingProfile),
     (''ClearChargingProfileResponse'', ClearChargingProfileResponse),
     (''DataTransfer'', DataTransfer), (''DataTransferResponse'', DataTransferResponse),
     (''DeleteCertificate'', DeleteCertificate),
     (''DeleteCertificateResponse'', DeleteCertificateResponse),
     (''DiagnosticsStatusNotification'', DiagnosticsStatusNotification),
     (''DiagnosticsStatusNotificationResponse'', DiagnosticsStatusNotificationResponse),
     (''ExtendedTriggerMessage'', ExtendedTriggerMessage),
     (''ExtendedTriggerMessageResponse'', ExtendedTriggerMessageResponse),
     (''FirmwareStatusNotification'', FirmwareStatusNotification),
     (''FirmwareStatusNotificationResponse'', FirmwareStatusNotificationResponse),
     (''GetCompositeSchedule'', GetCompositeSchedule),
     (''GetCompositeScheduleResponse'', GetCompositeScheduleResponse),
     (''GetConfiguration'', GetConfiguration),
     (''GetConfigurationResponse'', GetConfigurationResponse),
     (''GetDiagnostics'', GetDiagnostics),
     (''GetDiagnosticsResponse'', GetDiagnosticsResponse),
     (''GetInstalledCertificateIds'', GetInstalledCertificateIds),
     (''GetInstalledCertificateIdsResponse'', GetInstalledCertificateIdsResponse),
     (''GetLocalListVersion'', GetLocalListVersion),
     (''GetLocalListVersionResponse'', GetLocalListVersionResponse), (''GetLog'', GetLog),
     (''GetLogResponse'', GetLogResponse), (''Heartbeat'', Heartbeat),
     (''HeartbeatResponse'', HeartbeatResponse), (''InstallCertificate'', InstallCertificate),
     (''InstallCertificateResponse'', InstallCertificateResponse),
     (''LogStatusNotification'', LogStatusNotification),
     (''LogStatusNotificationResponse'', LogStatusNotificationResponse),
     (''MeterValues'', MeterValues), (''MeterValuesResponse'', MeterValuesResponse),
     (''RemoteStartTransaction'', RemoteStartTransaction),
     (''RemoteStartTransactionResponse'', RemoteStartTransactionResponse),
     (''RemoteStopTransaction'', RemoteStopTransaction),
     (''RemoteStopTransactionResponse'', RemoteStopTransactionResponse),
     (''ReserveNow'', ReserveNow), (''ReserveNowResponse'', ReserveNowResponse),
     (''Reset'', Reset), (''ResetResponse'', ResetResponse),
     (''SecurityEventNotification'', SecurityEventNotification),
     (''SecurityEventNotificationResponse'', SecurityEventNotificationResponse),
     (''SendLocalList'', SendLocalList), (''SendLocalListResponse'', SendLocalListResponse),
     (''SetChargingProfile'', SetChargingProfile),
     (''SetChargingProfileResponse'', SetChargingProfileResponse),
     (''SignCertificate'', SignCertificate),
     (''SignCertificateResponse'', SignCertificateResponse),
     (''SignedFirmwareStatusNotification'', SignedFirmwareStatusNotification),
     (''SignedFirmwareStatusNotificationResponse'', SignedFirmwareStatusNotificationResponse),
     (''SignedUpdateFirmware'', SignedUpdateFirmware),
     (''SignedUpdateFirmwareResponse'', SignedUpdateFirmwareResponse),
     (''StartTransaction'', StartTransaction),
     (''StartTransactionResponse'', StartTransactionResponse),
     (''StatusNotification'', StatusNotification),
     (''StatusNotificationResponse'', StatusNotificationResponse),
     (''StopTransaction'', StopTransaction),
     (''StopTransactionResponse'', StopTransactionResponse),
     (''TriggerMessage'', TriggerMessage),
     (''TriggerMessageResponse'', TriggerMessageResponse),
     (''UnlockConnector'', UnlockConnector),
     (''UnlockConnectorResponse'', UnlockConnectorResponse),
     (''UpdateFirmware'', UpdateFirmware), (''UpdateFirmwareResponse'', UpdateFirmwareResponse)]"

definition string_to_messagetype :: "string \<Rightarrow> MessageType option" where
  "string_to_messagetype s = map_of messagetype_names s"

text \<open>
  The name of a message type leads back to the type, except for the internal error, which has no name
  that is accepted.
\<close>

lemma messagetype_names_agree: "map messagetype_to_string (map snd messagetype_names) = map fst messagetype_names"
  by code_simp

lemma messagetype_names_distinct: "distinct (map fst messagetype_names)"
  by code_simp

lemma messagetype_named: "m = InternalError \<or> m \<in> set (map snd messagetype_names)"
  unfolding messagetype_names_def by (cases m) simp_all

lemma string_to_messagetype_to_string:
  "string_to_messagetype (messagetype_to_string m) = (if m = InternalError then None else Some m)"
proof (cases "m = InternalError")
  case True
  have "string_to_messagetype (messagetype_to_string InternalError) = None" by code_simp
  with True show ?thesis by simp
next
  case False
  then obtain s where s: "(s, m) \<in> set messagetype_names" using messagetype_named [of m] by auto
  have "map (\<lambda>e. messagetype_to_string (snd e)) messagetype_names = map fst messagetype_names"
    using messagetype_names_agree by (simp add: comp_def)
  with s have "messagetype_to_string m = s" by (auto simp: map_eq_conv)
  with s False show ?thesis
    by (simp add: string_to_messagetype_def map_of_eq_Some_iff [OF messagetype_names_distinct])
qed

subsection \<open>Kinds of messages\<close>

definition is_transaction_message :: "MessageType \<Rightarrow> bool" where
  "is_transaction_message t \<longleftrightarrow>
     t = StartTransaction \<or> t = StopTransaction \<or> t = MeterValues \<or> t = SecurityEventNotification"

definition is_start_transaction_message :: "MessageType \<Rightarrow> bool" where
  "is_start_transaction_message t \<longleftrightarrow> t = StartTransaction"

definition is_boot_notification_message :: "MessageType \<Rightarrow> bool" where
  "is_boot_notification_message t \<longleftrightarrow> t = BootNotification"

end
