(* ===== verification/Message_Queue_V16.thy ===== *)
theory Message_Queue_V16
  imports Message_Queue_Safety Ocpp_Message_Types
begin

text \<open>
  The message queue of OCPP 1.6: the instance of the template for the message types of this version,
  after \<^verbatim>\<open>lib/ocpp/v16/message_queue.cpp\<close>, and runs of it.
\<close>

subsection \<open>The instance\<close>

definition v16_kinds :: "(string \<Rightarrow> string \<Rightarrow> bool) \<Rightarrow> MessageType message_kinds" where
  "v16_kinds iequals =
     \<lparr>mk_is_transaction = is_transaction_message, mk_is_start = is_start_transaction_message,
      mk_is_boot = is_boot_notification_message, mk_is_update = (\<lambda>t. t = MeterValues),
      mk_to_string = messagetype_to_string, mk_of_string = string_to_messagetype,
      mk_internal_error = InternalError, mk_iequals = iequals\<rparr>"

lemma v16_kinds_ok: "kinds_ok (v16_kinds iequals)"
  by (simp add: kinds_ok_def v16_kinds_def string_to_messagetype_to_string split: if_splits)

lemma v16_stored_ok: "stored_ok (v16_kinds iequals) [] []"
  by (simp add: stored_ok_def v16_kinds_ok)

subsection \<open>Runs\<close>

definition sample_kinds :: "MessageType message_kinds" where
  "sample_kinds = v16_kinds (=)"

definition sample_config :: "int \<Rightarrow> MessageType MessageQueueConfig" where
  "sample_config threshold =
     \<lparr>transaction_message_attempts = 2, transaction_message_retry_interval = 0,
      queues_total_size_threshold = threshold, queue_all_messages = False,
      message_types_discard_for_queueing = [], message_timeout_seconds = 30,
      boot_notification_retry_interval_seconds = 60\<rparr>"

definition sample_queue :: "int \<Rightarrow> MessageType message_queue" where
  "sample_queue threshold = new_message_queue (sample_config threshold) [] [] (\<lambda>calls. True) (\<lambda>calls row. 0)"

definition sample_env :: "int \<Rightarrow> string \<Rightarrow> bool \<Rightarrow> mq_env" where
  "sample_env now i ok = \<lparr>mqe_now = now, mqe_retry_now = now, mqe_new_id = i, mqe_send_ok = ok\<rparr>"

definition sample_call :: "string \<Rightarrow> string \<Rightarrow> json" where
  "sample_call i action = JArray [JInt 2, JString i, JString action, JObject []]"

definition no_parser :: "string \<Rightarrow> json option" where
  "no_parser text = None"

text \<open>
  Two meter values: the first one fails to be sent, is sent again and is given up after a timeout; then
  the second one is sent.
\<close>

definition sample_inputs :: "mq_input list" where
  "sample_inputs =
     [Start, Resume 0, Push_Call (sample_env 10 [] True) (sample_call ''1'' ''MeterValues'') False,
      Push_Call (sample_env 11 [] True) (sample_call ''2'' ''MeterValues'') False,
      Worker_Round (sample_env 12 ''3'' False), Worker_Round (sample_env 13 [] True),
      In_Flight_Timeout (sample_env 14 ''4'' True), Worker_Round (sample_env 15 [] True)]"

definition sample_state :: "MessageType message_queue" where
  "sample_state = run (mq_step sample_kinds no_parser) (sample_queue 100) sample_inputs"

lemma sample_reach:
  "reach (mq_step sample_kinds no_parser) (sample_queue 100) sample_state"
  unfolding sample_state_def by (rule reach_run [OF reach_init])

lemma sample_stored_ok: "stored_ok sample_kinds [] []"
  unfolding sample_kinds_def by (rule v16_stored_ok)

theorem transaction_messages_in_order_witness:
  "map cm_ref (sent sample_state) = [0, 0, 1] \<and>
   sorted (map cm_ref (filter (\<lambda>m. mk_is_transaction sample_kinds (cm_messageType m)) (sent sample_state)))"
proof
  show "map cm_ref (sent sample_state) = [0, 0, 1]" by code_simp
  show "sorted (map cm_ref (filter (\<lambda>m. mk_is_transaction sample_kinds (cm_messageType m)) (sent sample_state)))"
    using transaction_messages_in_order [OF sample_stored_ok, of no_parser "sample_config 100"
        "\<lambda>calls. True" "\<lambda>calls row. 0" sample_state] sample_reach
    unfolding sample_queue_def by blast
qed

theorem promises_set_once_witness:
  "map fst (promises sample_state) = [0] \<and> map_option cm_ref (in_flight sample_state) = Some 1 \<and>
   distinct (map fst (promises sample_state))"
proof (intro conjI)
  show "map fst (promises sample_state) = [0]" by code_simp
  show "map_option cm_ref (in_flight sample_state) = Some 1" by code_simp
  show "distinct (map fst (promises sample_state))"
    using promises_set_once [OF sample_stored_ok, of no_parser "sample_config 100"
        "\<lambda>calls. True" "\<lambda>calls row. 0" sample_state] sample_reach
    unfolding sample_queue_def by blast
qed

theorem retries_end_witness:
  "map cm_ref (sent sample_state) = [0, 0, 1] \<and>
   int (length (filter (\<lambda>x. cm_ref x = cm_ref (hd (sent sample_state))) (sent sample_state))) \<le> max 1 2"
proof
  show refs: "map cm_ref (sent sample_state) = [0, 0, 1]" by code_simp
  then have "hd (sent sample_state) \<in> set (sent sample_state)" by (cases "sent sample_state") simp_all
  moreover have "\<not> is_boot sample_kinds (hd (sent sample_state))" by code_simp
  moreover have "list_all (attempts_within 2) sample_inputs" by code_simp
  moreover have "transaction_message_attempts (sample_config 100) \<le> 2" by code_simp
  ultimately show "int (length (filter (\<lambda>x. cm_ref x = cm_ref (hd (sent sample_state)))
      (sent sample_state))) \<le> max 1 2"
    using retries_end [OF sample_stored_ok, of "sample_config 100" 2 sample_inputs
        "hd (sent sample_state)" no_parser "\<lambda>calls. True" "\<lambda>calls row. 0"]
    unfolding sample_state_def sample_queue_def by blast
qed

theorem queue_refines_specification_witness:
  "transaction_message_attempts (config sample_state) = 2 \<and>
   aq_steps 2 (view sample_kinds sample_state)
     (view sample_kinds (mq_step sample_kinds no_parser sample_state (In_Flight_Timeout (sample_env 16 ''5'' True))))"
proof
  show "transaction_message_attempts (config sample_state) = 2" by code_simp
  then show "aq_steps 2 (view sample_kinds sample_state)
     (view sample_kinds (mq_step sample_kinds no_parser sample_state (In_Flight_Timeout (sample_env 16 ''5'' True))))"
    using queue_refines_specification [OF sample_stored_ok, of no_parser "sample_config 100"
        "\<lambda>calls. True" "\<lambda>calls row. 0" sample_state "In_Flight_Timeout (sample_env 16 ''5'' True)"] sample_reach
    unfolding sample_queue_def by simp
qed

text \<open>A queue that holds a boot notification besides a transaction, and more than the threshold allows.\<close>

definition sample_message :: "nat \<Rightarrow> MessageType \<Rightarrow> MessageType ControlMessage" where
  "sample_message ref t =
     \<lparr>cm_ref = ref, cm_message = [], cm_messageType = t, cm_message_attempts = 0,
      cm_timestamp = int ref, cm_initial_unique_id = [], cm_stall_until_accepted = False\<rparr>"

definition sample_full :: "MessageType message_queue" where
  "sample_full = (sample_queue 4)\<lparr>
     transaction_message_queue := [sample_message 0 StartTransaction, sample_message 1 MeterValues,
       sample_message 2 MeterValues, sample_message 3 StopTransaction],
     normal_message_queue := [sample_message 4 Heartbeat, sample_message 5 BootNotification,
       sample_message 6 Heartbeat],
     paused := False, new_message := True, worker_active := True\<rparr>"

theorem queue_sizes_bounded_witness:
  "queues_size sample_full = 7 \<and> queues_size (check_queue_sizes sample_kinds sample_full) = 4 \<and>
   filter (is_boot sample_kinds) (normal_message_queue (check_queue_sizes sample_kinds sample_full)) =
     filter (is_boot sample_kinds) (normal_message_queue sample_full)"
proof (intro conjI)
  show "queues_size sample_full = 7" by code_simp
  show "queues_size (check_queue_sizes sample_kinds sample_full) = 4" by code_simp
  show "filter (is_boot sample_kinds) (normal_message_queue (check_queue_sizes sample_kinds sample_full)) =
     filter (is_boot sample_kinds) (normal_message_queue sample_full)"
    using queue_sizes_bounded [of sample_kinds sample_full] by blast
qed

theorem sent_in_turn_witness:
  "\<exists>message m. sent (mq_step sample_kinds no_parser sample_full (Worker_Round (sample_env 9 [] True))) = [m] \<and>
     cm_ref m = cm_ref message \<and> in_turn sample_kinds 9 message sample_full"
proof -
  let ?s = "mq_step sample_kinds no_parser sample_full (Worker_Round (sample_env 9 [] True))"
  have "sent sample_full = []" by code_simp
  moreover have "map cm_ref (sent ?s) = [0]" by code_simp
  ultimately have "sent ?s \<noteq> sent sample_full" by (metis list.distinct(1) list.simps(8))
  with sent_in_turn [of sample_kinds no_parser sample_full "Worker_Round (sample_env 9 [] True)"]
    \<open>sent sample_full = []\<close>
  show ?thesis by (auto simp: sample_env_def)
qed

end
