(* ===== verification/Exi_Bitstream.thy ===== *)
theory Exi_Bitstream
  imports Prelude "HOL-Library.Word"
begin

text \<open>
  The bit stream of the EXI codec, after \<^verbatim>\<open>cbv2g/common/exi_bitstream.c\<close> and \<^verbatim>\<open>exi_header.c\<close>. A
  function of the source returns an error code and changes the stream; here it is a function from the
  stream to an error or a value, and the changed stream. What an out parameter holds behind an error is
  not modelled, no caller looks at it. An access outside an array is the error \<open>Undefined_Behaviour\<close>, so
  that its absence can be stated. Sizes and positions are unbounded: a position stops at the size of
  the data.
\<close>

unbundle bit_operations_syntax

subsection \<open>Results\<close>

datatype exi_error =
    BITSTREAM_OVERFLOW
  | HEADER_COOKIE_NOT_SUPPORTED
  | HEADER_OPTIONS_NOT_SUPPORTED
  | HEADER_INCORRECT
  | SUPPORTED_MAX_OCTETS_OVERRUN
  | OCTET_COUNT_LARGER_THAN_TYPE_SUPPORTS
  | UNKNOWN_EVENT_FOR_DECODING
  | DECODER_NOT_IMPLEMENTED
  | UNKNOWN_EVENT_FOR_ENCODING
  | ENCODER_NOT_IMPLEMENTED
  | BIT_COUNT_LARGER_THAN_TYPE_SIZE
  | BYTE_COUNT_LARGER_THAN_TYPE_SIZE
  | ARRAY_OUT_OF_BOUNDS
  | CHARACTER_BUFFER_TOO_SMALL
  | BYTE_BUFFER_TOO_SMALL
  | ENCODED_INTEGER_SIZE_LARGER_THAN_DESTINATION
  | UNKNOWN_GRAMMAR_ID
  | UNKNOWN_EVENT_CODE
  | UNSUPPORTED_SUB_EVENT
  | DEVIANTS_NOT_SUPPORTED
  | STRINGVALUES_NOT_SUPPORTED
  | UNSUPPORTED_INTEGER_VALUE_TYPE
  | UNSUPPORTED_DATETIME_TYPE
  | UNSUPPORTED_CHARACTER_VALUE
  | INCORRECT_END_FRAGMENT_VALUE
  | NOT_IMPLEMENTED_YET
  | Undefined_Behaviour

record exi_bitstream =
  data :: "8 word list"
  data_size :: nat
  bit_count :: nat
  byte_pos :: nat
  init_called :: bool
  flag_byte_pos :: nat

type_synonym 'a exi = "exi_bitstream \<Rightarrow> (exi_error + 'a) \<times> exi_bitstream"

definition exi_return :: "'a \<Rightarrow> 'a exi" where
  "exi_return v s = (Inr v, s)"

definition exi_fail :: "exi_error \<Rightarrow> 'a exi" where
  "exi_fail e s = (Inl e, s)"

definition exi_bind :: "'a exi \<Rightarrow> ('a \<Rightarrow> 'b exi) \<Rightarrow> 'b exi" where
  "exi_bind f g s = (case f s of (Inl e, s') \<Rightarrow> (Inl e, s') | (Inr v, s') \<Rightarrow> g v s')"

subsection \<open>Bits\<close>

definition EXI_BITSTREAM_MAX_BIT_COUNT :: nat where
  "EXI_BITSTREAM_MAX_BIT_COUNT = 8"

definition exi_bitstream_has_overflow :: "unit exi" where
  "exi_bitstream_has_overflow s =
     (let s = (if bit_count s = EXI_BITSTREAM_MAX_BIT_COUNT \<and> byte_pos s < data_size s
               then s\<lparr>byte_pos := byte_pos s + 1, bit_count := 0\<rparr> else s)
      in if byte_pos s \<ge> data_size s then (Inl BITSTREAM_OVERFLOW, s) else (Inr (), s))"

definition exi_bitstream_write_bit :: "bool \<Rightarrow> unit exi" where
  "exi_bitstream_write_bit b =
     exi_bind exi_bitstream_has_overflow (\<lambda>_ s.
       if byte_pos s < length (data s) then
         let current_byte = (if bit_count s = 0 then 0 else data s ! byte_pos s);
             current_byte = (if b then current_byte OR
                 push_bit (EXI_BITSTREAM_MAX_BIT_COUNT - (bit_count s + 1)) 1 else current_byte)
         in (Inr (), s\<lparr>data := (data s)[byte_pos s := current_byte], bit_count := bit_count s + 1\<rparr>)
       else (Inl Undefined_Behaviour, s))"

definition exi_bitstream_read_bit :: "bool exi" where
  "exi_bitstream_read_bit =
     exi_bind exi_bitstream_has_overflow (\<lambda>_ s.
       if byte_pos s < length (data s) then
         let current_bit = drop_bit (EXI_BITSTREAM_MAX_BIT_COUNT - (bit_count s + 1)) (data s ! byte_pos s)
         in (Inr (current_bit AND 1 \<noteq> 0), s\<lparr>bit_count := bit_count s + 1\<rparr>)
       else (Inl Undefined_Behaviour, s))"

definition exi_bitstream_init :: "8 word list \<Rightarrow> nat \<Rightarrow> nat \<Rightarrow> exi_bitstream" where
  "exi_bitstream_init d sz data_offset =
     \<lparr>data = d, data_size = sz, bit_count = 0, byte_pos = data_offset, init_called = True,
      flag_byte_pos = data_offset\<rparr>"

definition exi_bitstream_reset :: "exi_bitstream \<Rightarrow> exi_bitstream" where
  "exi_bitstream_reset s =
     s\<lparr>byte_pos := (if init_called s then flag_byte_pos s else 0), bit_count := 0\<rparr>"

definition exi_bitstream_get_length :: "exi_bitstream \<Rightarrow> nat" where
  "exi_bitstream_get_length s =
     (let len = byte_pos s;
          len = (if init_called s \<and> flag_byte_pos s > 0 then len - flag_byte_pos s else len)
      in len + (if bit_count s > 0 then 1 else 0))"

subsection \<open>Groups of bits\<close>

text \<open>The loops; the argument counts the bits that are left.\<close>

primrec write_bits_loop :: "32 word \<Rightarrow> nat \<Rightarrow> unit exi" where
  "write_bits_loop v 0 = exi_return ()"
| "write_bits_loop v (Suc n) =
     exi_bind (exi_bitstream_write_bit (v AND push_bit n 1 > 0)) (\<lambda>_. write_bits_loop v n)"

definition exi_bitstream_write_bits :: "nat \<Rightarrow> 32 word \<Rightarrow> unit exi" where
  "exi_bitstream_write_bits n v =
     (if n > 32 then exi_fail BIT_COUNT_LARGER_THAN_TYPE_SIZE else write_bits_loop v n)"

definition exi_bitstream_write_octet :: "8 word \<Rightarrow> unit exi" where
  "exi_bitstream_write_octet v = exi_bitstream_write_bits 8 (ucast v)"

primrec read_bits_loop :: "nat \<Rightarrow> 'a::len word \<Rightarrow> 'a word exi" where
  "read_bits_loop 0 v = exi_return v"
| "read_bits_loop (Suc n) v =
     exi_bind exi_bitstream_read_bit (\<lambda>b. read_bits_loop n (push_bit 1 v OR of_bool b))"

definition exi_bitstream_read_bits :: "nat \<Rightarrow> 32 word exi" where
  "exi_bitstream_read_bits n =
     (if n > 32 then exi_fail BIT_COUNT_LARGER_THAN_TYPE_SIZE else read_bits_loop n 0)"

definition exi_bitstream_read_octet :: "8 word exi" where
  "exi_bitstream_read_octet = read_bits_loop 8 0"

subsection \<open>Header\<close>

definition EXI_SIMPLE_HEADER_BIT_SIZE :: nat where "EXI_SIMPLE_HEADER_BIT_SIZE = 8"

definition EXI_SIMPLE_HEADER_VALUE :: "32 word" where "EXI_SIMPLE_HEADER_VALUE = 0x80"

definition exi_header_write :: "unit exi" where
  "exi_header_write = exi_bitstream_write_bits EXI_SIMPLE_HEADER_BIT_SIZE EXI_SIMPLE_HEADER_VALUE"

definition exi_header_read :: "32 word exi" where
  "exi_header_read = exi_bitstream_read_bits EXI_SIMPLE_HEADER_BIT_SIZE"

definition exi_header_read_and_check :: "unit exi" where
  "exi_header_read_and_check =
     exi_bind exi_header_read (\<lambda>header.
       if header \<noteq> EXI_SIMPLE_HEADER_VALUE then exi_fail HEADER_INCORRECT else exi_return ())"

end
