(* ===== verification/Exi_Base_Types.thy ===== *)
theory Exi_Base_Types
  imports Exi_Bitstream
begin

text \<open>
  The values of the EXI codec, after \<^verbatim>\<open>cbv2g/common/exi_basetypes.c\<close>, \<^verbatim>\<open>exi_basetypes_encoder.c\<close>,
  \<^verbatim>\<open>exi_basetypes_decoder.c\<close> and \<^verbatim>\<open>exi_types_decoder.c\<close>: integers in groups of seven bits, integers of
  any size as bytes, bytes and characters. An \<^verbatim>\<open>exi_unsigned_t\<close> is the list of its first
  \<^verbatim>\<open>octets_count\<close> octets, and the content of a destination array the list of what has been written to it
  from its beginning. The sizes of the destination arrays are arguments of their own, apart from the
  limits that the C functions are given; writing behind the end of an array is the error
  \<open>Undefined_Behaviour\<close>. Signed
  integers are words that are read with their sign. What a function leaves in an out parameter when it
  returns an error is not modelled.
\<close>

subsection \<open>Data\<close>

definition EXI_BASETYPES_MAX_OCTETS_SUPPORTED :: nat where "EXI_BASETYPES_MAX_OCTETS_SUPPORTED = 29"
definition EXI_BASETYPES_UINT8_MAX_OCTETS :: nat where "EXI_BASETYPES_UINT8_MAX_OCTETS = 2"
definition EXI_BASETYPES_UINT16_MAX_OCTETS :: nat where "EXI_BASETYPES_UINT16_MAX_OCTETS = 3"
definition EXI_BASETYPES_UINT32_MAX_OCTETS :: nat where "EXI_BASETYPES_UINT32_MAX_OCTETS = 5"
definition EXI_BASETYPES_UINT64_MAX_OCTETS :: nat where "EXI_BASETYPES_UINT64_MAX_OCTETS = 10"

type_synonym exi_unsigned = "8 word list"

record exi_signed =
  sgn_data :: exi_unsigned
  is_negative :: bool

definition exi_lift :: "exi_error + 'a \<Rightarrow> 'a exi" where
  "exi_lift r s = (r, s)"

text \<open>An action that writes the element \<open>i\<close> of an array with \<open>n\<close> elements, even if it then fails.\<close>

definition store_at :: "nat \<Rightarrow> nat \<Rightarrow> 'a exi \<Rightarrow> 'a exi" where
  "store_at n i f = (if i < n then f else exi_fail Undefined_Behaviour)"

lemma store_at_within [simp]: "i < n \<Longrightarrow> store_at n i f = f"
  by (simp add: store_at_def)

subsection \<open>Conversions between integers and bytes\<close>

text \<open>The loops that shift a word to the right end.\<close>

lemma drop_bit_less:
  assumes "v \<noteq> 0" "0 < n"
  shows "unat (drop_bit n v) < unat v"
proof -
  have "(1::nat) < 2 ^ n" using one_less_power [of "2::nat" n] assms(2) by simp
  moreover have "0 < unat v" using assms(1) by (simp add: unat_gt_0)
  ultimately show ?thesis unfolding unat_drop_bit_eq by (simp only: drop_bit_eq_div div_less_dividend)
qed

function magnitude_octets_loop :: "64 word \<Rightarrow> nat \<Rightarrow> nat" where
  "magnitude_octets_loop magnitude count =
     (let magnitude = drop_bit 7 magnitude
      in if magnitude \<noteq> 0 then magnitude_octets_loop magnitude (count + 1) else count)"
  by pat_completeness auto
termination
  by (relation "measure (\<lambda>(m, c). unat m)")
    (simp_all only: in_measure prod.case wf_measure,
     metis drop_bit_less drop_bit_of_0 zero_less_numeral)

definition exi_basetypes_magnitude_octets :: "64 word \<Rightarrow> nat" where
  "exi_basetypes_magnitude_octets magnitude = magnitude_octets_loop magnitude 1"

function count_bytes :: "64 word \<Rightarrow> nat \<Rightarrow> nat" where
  "count_bytes remaining count =
     (if remaining \<noteq> 0 then count_bytes (drop_bit 8 remaining) (count + 1) else count)"
  by pat_completeness auto
termination
  by (relation "measure (\<lambda>(r, c). unat r)")
    (simp_all only: in_measure prod.case wf_measure, rule drop_bit_less, simp_all)

declare magnitude_octets_loop.simps [simp del] count_bytes.simps [simp del]

primrec fill_bytes :: "nat \<Rightarrow> 64 word \<Rightarrow> exi_unsigned \<Rightarrow> exi_unsigned" where
  "fill_bytes 0 magnitude octets = octets"
| "fill_bytes (Suc n) magnitude octets = fill_bytes n (drop_bit 8 magnitude) (ucast magnitude # octets)"

definition exi_basetypes_write_magnitude :: "64 word \<Rightarrow> exi_unsigned" where
  "exi_basetypes_write_magnitude magnitude = fill_bytes (count_bytes magnitude 0) magnitude []"

definition exi_basetypes_convert_to_unsigned :: "32 word \<Rightarrow> nat \<Rightarrow> exi_error + exi_unsigned" where
  "exi_basetypes_convert_to_unsigned v max_octets =
     (if exi_basetypes_magnitude_octets (ucast v) \<le> max_octets
      then Inr (exi_basetypes_write_magnitude (ucast v)) else Inl OCTET_COUNT_LARGER_THAN_TYPE_SUPPORTS)"

definition exi_basetypes_convert_64_to_unsigned :: "64 word \<Rightarrow> exi_error + exi_unsigned" where
  "exi_basetypes_convert_64_to_unsigned v = Inr (exi_basetypes_write_magnitude v)"

text \<open>The octets behind the leading zeros.\<close>

definition significant :: "exi_unsigned \<Rightarrow> exi_unsigned" where
  "significant octets = drop (length (takeWhile (\<lambda>b. b = 0) octets)) octets"

definition exi_basetypes_read_magnitude :: "exi_unsigned \<Rightarrow> 64 word" where
  "exi_basetypes_read_magnitude octets =
     (if length (significant octets) > 8 then - 1
      else foldl (\<lambda>magnitude b. push_bit 8 magnitude OR ucast b) 0 (significant octets))"

definition exi_basetypes_convert_64_from_unsigned :: "exi_unsigned \<Rightarrow> exi_error + 64 word" where
  "exi_basetypes_convert_64_from_unsigned octets =
     (if length (significant octets) > 8 then Inl ENCODED_INTEGER_SIZE_LARGER_THAN_DESTINATION
      else Inr (exi_basetypes_read_magnitude octets))"

definition exi_basetypes_convert_from_unsigned :: "exi_unsigned \<Rightarrow> nat \<Rightarrow> exi_error + 32 word" where
  "exi_basetypes_convert_from_unsigned octets max_octets =
     (case exi_basetypes_convert_64_from_unsigned octets of
        Inl e \<Rightarrow> Inl e
      | Inr magnitude \<Rightarrow>
          if exi_basetypes_magnitude_octets magnitude > max_octets
          then Inl OCTET_COUNT_LARGER_THAN_TYPE_SUPPORTS
          else if magnitude > 0xFFFFFFFF then Inl ENCODED_INTEGER_SIZE_LARGER_THAN_DESTINATION
          else Inr (ucast magnitude))"

text \<open>The magnitude of a negative integer is the one of its complement.\<close>

definition magnitude_of :: "'a::len word \<Rightarrow> 64 word" where
  "magnitude_of v = (if sint v < 0 then word_of_int (- (sint v + 1)) else word_of_int (sint v))"

definition exi_basetypes_convert_to_signed :: "32 word \<Rightarrow> nat \<Rightarrow> exi_error + exi_signed" where
  "exi_basetypes_convert_to_signed v max_octets =
     (if exi_basetypes_magnitude_octets (magnitude_of v) \<le> max_octets
      then Inr \<lparr>sgn_data = exi_basetypes_write_magnitude (magnitude_of v), is_negative = (sint v < 0)\<rparr>
      else Inl OCTET_COUNT_LARGER_THAN_TYPE_SUPPORTS)"

definition exi_basetypes_convert_64_to_signed :: "64 word \<Rightarrow> exi_error + exi_signed" where
  "exi_basetypes_convert_64_to_signed v =
     Inr \<lparr>sgn_data = exi_basetypes_write_magnitude (magnitude_of v), is_negative = (sint v < 0)\<rparr>"

definition exi_basetypes_convert_from_signed :: "exi_signed \<Rightarrow> nat \<Rightarrow> exi_error + 32 word" where
  "exi_basetypes_convert_from_signed v max_octets =
     (let magnitude = exi_basetypes_read_magnitude (sgn_data v)
      in if exi_basetypes_magnitude_octets magnitude > max_octets
         then Inl OCTET_COUNT_LARGER_THAN_TYPE_SUPPORTS
         else if magnitude > 0x7FFFFFFF then Inl ENCODED_INTEGER_SIZE_LARGER_THAN_DESTINATION
         else Inr (if is_negative v then - 1 - ucast magnitude else ucast magnitude))"

definition exi_basetypes_convert_64_from_signed :: "exi_signed \<Rightarrow> exi_error + 64 word" where
  "exi_basetypes_convert_64_from_signed v =
     (let magnitude = exi_basetypes_read_magnitude (sgn_data v)
      in if magnitude > 0x7FFFFFFFFFFFFFFF then Inl ENCODED_INTEGER_SIZE_LARGER_THAN_DESTINATION
         else Inr (if is_negative v then - 1 - magnitude else magnitude))"

subsection \<open>Conversions between bytes and groups of seven bits\<close>

text \<open>The swapping loop of \<^verbatim>\<open>_reverse_array\<close>.\<close>

function reverse_loop :: "'a list \<Rightarrow> nat \<Rightarrow> nat \<Rightarrow> 'a list" where
  "reverse_loop d i j =
     (if i < j then reverse_loop (d[i := d ! j, j := d ! i]) (i + 1) (j - 1) else d)"
  by pat_completeness auto
termination
  by (relation "measure (\<lambda>(d, i, j). j - i)") auto

declare reverse_loop.simps [simp del]

definition reverse_array :: "'a list \<Rightarrow> 'a list" where
  "reverse_array d = (if d = [] then d else reverse_loop d 0 (length d - 1))"

text \<open>The bytes found, the lowest first, and the bits that do not fill a byte yet.\<close>

fun bytes_from_unsigned_loop ::
  "nat \<Rightarrow> nat \<Rightarrow> exi_unsigned \<Rightarrow> 16 word \<Rightarrow> nat \<Rightarrow> exi_unsigned \<Rightarrow> exi_error + exi_unsigned" where
  "bytes_from_unsigned_loop array_size sz [] temp total_offset d =
     (if total_offset \<noteq> 0 \<and> temp AND 0xFF \<noteq> 0 then
        if length d \<ge> sz then Inl ENCODED_INTEGER_SIZE_LARGER_THAN_DESTINATION
        else if length d \<ge> array_size then Inl Undefined_Behaviour
        else Inr (reverse_array (d @ [ucast (temp AND 0xFF)]))
      else Inr (reverse_array d))"
| "bytes_from_unsigned_loop array_size sz (b # octets) temp total_offset d =
     (let temp = temp + push_bit total_offset (ucast (b AND 0x7F));
          total_offset = total_offset + 7
      in if total_offset \<ge> 8 then
           if length d \<ge> sz then Inl ENCODED_INTEGER_SIZE_LARGER_THAN_DESTINATION
           else if length d \<ge> array_size then Inl Undefined_Behaviour
           else bytes_from_unsigned_loop array_size sz octets (drop_bit 8 temp) (total_offset - 8)
                  (d @ [ucast (temp AND 0xFF)])
         else bytes_from_unsigned_loop array_size sz octets temp total_offset d)"

definition exi_basetypes_convert_bytes_from_unsigned ::
  "exi_unsigned \<Rightarrow> nat \<Rightarrow> nat \<Rightarrow> exi_error + exi_unsigned" where
  "exi_basetypes_convert_bytes_from_unsigned octets array_size sz =
     bytes_from_unsigned_loop array_size sz octets 0 0 []"

function bits_in_byte :: "8 word \<Rightarrow> nat" where
  "bits_in_byte b = (if b \<noteq> 0 then Suc (bits_in_byte (drop_bit 1 b)) else 0)"
  by pat_completeness auto
termination
  by (relation "measure unat")
    (simp_all only: in_measure wf_measure, rule drop_bit_less, simp_all)

declare bits_in_byte.simps [simp del]

text \<open>The argument \<open>n\<close> counts the octets that are left of those expected.\<close>

primrec bytes_to_unsigned_loop ::
  "nat \<Rightarrow> nat \<Rightarrow> 8 word list \<Rightarrow> nat \<Rightarrow> 16 word \<Rightarrow> nat \<Rightarrow> exi_unsigned \<Rightarrow> exi_error + exi_unsigned" where
  "bytes_to_unsigned_loop 0 expected d incount dummy dummy_count octets = Inr octets"
| "bytes_to_unsigned_loop (Suc n) expected d incount dummy dummy_count octets =
     (if dummy_count < 7 \<and> incount \<ge> length d then Inl Undefined_Behaviour
      else
        let (dummy, dummy_count, incount) =
              (if dummy_count < 7
               then (dummy OR push_bit dummy_count (ucast (d ! (length d - incount - 1))),
                     dummy_count + 8, incount + 1)
               else (dummy, dummy_count, incount));
            current_octet = ucast (dummy AND 0x7F)
        in if length octets \<ge> EXI_BASETYPES_MAX_OCTETS_SUPPORTED then Inl Undefined_Behaviour
           else if length octets + 1 < expected
           then bytes_to_unsigned_loop n expected d incount (drop_bit 7 dummy) (dummy_count - 7)
                  (octets @ [current_octet OR 0x80])
           else Inr (octets @ [current_octet]))"

definition exi_basetypes_convert_bytes_to_unsigned :: "8 word list \<Rightarrow> exi_error + exi_unsigned" where
  "exi_basetypes_convert_bytes_to_unsigned d =
     (let bytenum = length (takeWhile (\<lambda>b. b = 0) d)
      in if bytenum = length d then Inr [0]
         else
           let total_relevant_input_bits = (length d - bytenum - 1) * 8 + bits_in_byte (d ! bytenum);
               exi_expected_octets_count = (total_relevant_input_bits + 6) div 7
           in bytes_to_unsigned_loop exi_expected_octets_count exi_expected_octets_count d 0 0 0 [])"

subsection \<open>Encoders\<close>

text \<open>The groups of seven bits of a word, the lowest first; at most \<open>n\<close> of them.\<close>

primrec raw_unsigned_loop :: "nat \<Rightarrow> 64 word \<Rightarrow> exi_unsigned" where
  "raw_unsigned_loop 0 dummy = []"
| "raw_unsigned_loop (Suc n) dummy =
     (let current_octet = ucast (dummy AND 0x7F); dummy = drop_bit 7 dummy
      in if dummy = 0 then [current_octet] else (current_octet OR 0x80) # raw_unsigned_loop n dummy)"

definition exi_basetypes_encoder_raw_unsigned :: "64 word \<Rightarrow> exi_unsigned" where
  "exi_basetypes_encoder_raw_unsigned v = raw_unsigned_loop EXI_BASETYPES_UINT64_MAX_OCTETS v"

primrec exi_basetypes_encoder_write_unsigned :: "exi_unsigned \<Rightarrow> unit exi" where
  "exi_basetypes_encoder_write_unsigned [] = exi_return ()"
| "exi_basetypes_encoder_write_unsigned (b # octets) =
     exi_bind (exi_bitstream_write_octet b) (\<lambda>_. exi_basetypes_encoder_write_unsigned octets)"

definition exi_basetypes_encoder_bool :: "bool \<Rightarrow> unit exi" where
  "exi_basetypes_encoder_bool v = exi_bitstream_write_bits 1 (if v then 1 else 0)"

text \<open>The loops over the given number of bytes or characters; the list is the array.\<close>

fun encode_bytes_loop :: "nat \<Rightarrow> 8 word list \<Rightarrow> unit exi" where
  "encode_bytes_loop 0 bytes = exi_return ()"
| "encode_bytes_loop (Suc n) [] = exi_fail Undefined_Behaviour"
| "encode_bytes_loop (Suc n) (b # bytes) =
     exi_bind (exi_bitstream_write_octet b) (\<lambda>_. encode_bytes_loop n bytes)"

definition exi_basetypes_encoder_bytes :: "nat \<Rightarrow> 8 word list \<Rightarrow> nat \<Rightarrow> unit exi" where
  "exi_basetypes_encoder_bytes bytes_len bytes bytes_size =
     (if bytes_len > bytes_size then exi_fail BYTE_BUFFER_TOO_SMALL else encode_bytes_loop bytes_len bytes)"

definition exi_basetypes_encoder_nbit_uint :: "nat \<Rightarrow> 32 word \<Rightarrow> unit exi" where
  "exi_basetypes_encoder_nbit_uint n v = exi_bitstream_write_bits n v"

definition exi_basetypes_encoder_uint_8 :: "8 word \<Rightarrow> unit exi" where
  "exi_basetypes_encoder_uint_8 v =
     exi_basetypes_encoder_write_unsigned (exi_basetypes_encoder_raw_unsigned (ucast v))"

definition exi_basetypes_encoder_uint_16 :: "16 word \<Rightarrow> unit exi" where
  "exi_basetypes_encoder_uint_16 v =
     exi_basetypes_encoder_write_unsigned (exi_basetypes_encoder_raw_unsigned (ucast v))"

definition exi_basetypes_encoder_uint_32 :: "32 word \<Rightarrow> unit exi" where
  "exi_basetypes_encoder_uint_32 v =
     exi_basetypes_encoder_write_unsigned (exi_basetypes_encoder_raw_unsigned (ucast v))"

definition exi_basetypes_encoder_uint_64 :: "64 word \<Rightarrow> unit exi" where
  "exi_basetypes_encoder_uint_64 v =
     exi_basetypes_encoder_write_unsigned (exi_basetypes_encoder_raw_unsigned v)"

definition exi_basetypes_encoder_unsigned :: "exi_unsigned \<Rightarrow> unit exi" where
  "exi_basetypes_encoder_unsigned v =
     exi_bind (exi_lift (exi_basetypes_convert_bytes_to_unsigned v)) exi_basetypes_encoder_write_unsigned"

text \<open>The four functions for signed integers differ in the width only.\<close>

definition encode_integer :: "('a::len word \<Rightarrow> unit exi) \<Rightarrow> 'a word \<Rightarrow> unit exi" where
  "encode_integer encode_uint v =
     exi_bind (exi_basetypes_encoder_bool (sint v < 0)) (\<lambda>_.
       encode_uint (if sint v < 0 then word_of_int (- sint v - 1) else v))"

definition exi_basetypes_encoder_integer_8 :: "8 word \<Rightarrow> unit exi" where
  "exi_basetypes_encoder_integer_8 = encode_integer exi_basetypes_encoder_uint_8"

definition exi_basetypes_encoder_integer_16 :: "16 word \<Rightarrow> unit exi" where
  "exi_basetypes_encoder_integer_16 = encode_integer exi_basetypes_encoder_uint_16"

definition exi_basetypes_encoder_integer_32 :: "32 word \<Rightarrow> unit exi" where
  "exi_basetypes_encoder_integer_32 = encode_integer exi_basetypes_encoder_uint_32"

definition exi_basetypes_encoder_integer_64 :: "64 word \<Rightarrow> unit exi" where
  "exi_basetypes_encoder_integer_64 = encode_integer exi_basetypes_encoder_uint_64"

definition exi_basetypes_encoder_signed :: "exi_signed \<Rightarrow> unit exi" where
  "exi_basetypes_encoder_signed v =
     exi_bind (exi_basetypes_encoder_bool (is_negative v)) (\<lambda>_. exi_basetypes_encoder_unsigned (sgn_data v))"

fun encode_characters_loop :: "nat \<Rightarrow> 8 word list \<Rightarrow> unit exi" where
  "encode_characters_loop 0 characters = exi_return ()"
| "encode_characters_loop (Suc n) [] = exi_fail Undefined_Behaviour"
| "encode_characters_loop (Suc n) (c # characters) =
     (if c > 127 then exi_fail UNSUPPORTED_CHARACTER_VALUE
      else exi_bind (exi_bitstream_write_octet c) (\<lambda>_. encode_characters_loop n characters))"

definition exi_basetypes_encoder_characters :: "nat \<Rightarrow> 8 word list \<Rightarrow> nat \<Rightarrow> unit exi" where
  "exi_basetypes_encoder_characters characters_len characters characters_size =
     (if characters_len > characters_size then exi_fail CHARACTER_BUFFER_TOO_SMALL
      else encode_characters_loop characters_len characters)"

subsection \<open>Decoders\<close>

text \<open>The octets are written to the array of an \<^verbatim>\<open>exi_unsigned_t\<close>.\<close>

primrec read_unsigned_loop :: "nat \<Rightarrow> exi_unsigned \<Rightarrow> exi_unsigned exi" where
  "read_unsigned_loop 0 octets = exi_fail SUPPORTED_MAX_OCTETS_OVERRUN"
| "read_unsigned_loop (Suc n) octets =
     store_at EXI_BASETYPES_MAX_OCTETS_SUPPORTED (length octets)
       (exi_bind exi_bitstream_read_octet (\<lambda>current_octet.
          if current_octet AND 0x80 = 0 then exi_return (octets @ [current_octet])
          else read_unsigned_loop n (octets @ [current_octet])))"

definition exi_basetypes_decoder_read_unsigned :: "exi_unsigned exi" where
  "exi_basetypes_decoder_read_unsigned = read_unsigned_loop EXI_BASETYPES_MAX_OCTETS_SUPPORTED []"

primrec fold_octets :: "exi_unsigned \<Rightarrow> nat \<Rightarrow> 64 word \<Rightarrow> 64 word" where
  "fold_octets [] n result = result"
| "fold_octets (b # octets) n result = fold_octets octets (n + 1) (result OR push_bit (n * 7) (ucast (b AND 0x7F)))"

definition exi_basetypes_decoder_fold_unsigned :: "exi_unsigned \<Rightarrow> nat \<Rightarrow> 64 word \<Rightarrow> exi_error + 64 word" where
  "exi_basetypes_decoder_fold_unsigned raw max_octets max_value =
     (if length raw > max_octets then Inl OCTET_COUNT_LARGER_THAN_TYPE_SUPPORTS
      else if length raw = EXI_BASETYPES_UINT64_MAX_OCTETS \<and>
              raw ! (EXI_BASETYPES_UINT64_MAX_OCTETS - 1) AND 0x7F > 0x01
      then Inl ENCODED_INTEGER_SIZE_LARGER_THAN_DESTINATION
      else
        let result = fold_octets raw 0 0
        in if result > max_value then Inl ENCODED_INTEGER_SIZE_LARGER_THAN_DESTINATION else Inr result)"

definition exi_basetypes_decoder_read_magnitude :: "nat \<Rightarrow> 64 word \<Rightarrow> 64 word exi" where
  "exi_basetypes_decoder_read_magnitude max_octets max_magnitude =
     exi_bind exi_basetypes_decoder_read_unsigned (\<lambda>raw.
       if length raw > max_octets then exi_fail OCTET_COUNT_LARGER_THAN_TYPE_SUPPORTS
       else if length raw = EXI_BASETYPES_UINT64_MAX_OCTETS \<and>
               raw ! (EXI_BASETYPES_UINT64_MAX_OCTETS - 1) AND 0x7F \<noteq> 0
       then exi_fail ENCODED_INTEGER_SIZE_LARGER_THAN_DESTINATION
       else exi_lift (exi_basetypes_decoder_fold_unsigned raw max_octets max_magnitude))"

definition exi_basetypes_decoder_bool :: "bool exi" where
  "exi_basetypes_decoder_bool = exi_bind (exi_bitstream_read_bits 1) (\<lambda>b. exi_return (b \<noteq> 0))"

primrec decode_bytes_loop :: "nat \<Rightarrow> nat \<Rightarrow> 8 word list \<Rightarrow> 8 word list exi" where
  "decode_bytes_loop array_size 0 bytes = exi_return bytes"
| "decode_bytes_loop array_size (Suc n) bytes =
     store_at array_size (length bytes)
       (exi_bind exi_bitstream_read_octet (\<lambda>b. decode_bytes_loop array_size n (bytes @ [b])))"

definition exi_basetypes_decoder_bytes :: "nat \<Rightarrow> nat \<Rightarrow> nat \<Rightarrow> 8 word list exi" where
  "exi_basetypes_decoder_bytes bytes_len array_size bytes_size =
     (if bytes_len > bytes_size then exi_fail BYTE_BUFFER_TOO_SMALL
      else decode_bytes_loop array_size bytes_len [])"

definition exi_basetypes_decoder_nbit_uint :: "nat \<Rightarrow> 32 word exi" where
  "exi_basetypes_decoder_nbit_uint n = exi_bitstream_read_bits n"

text \<open>The functions for unsigned integers differ in the limits only.\<close>

definition decode_uint :: "nat \<Rightarrow> 64 word \<Rightarrow> 'a::len word exi" where
  "decode_uint max_octets max_value =
     exi_bind exi_basetypes_decoder_read_unsigned (\<lambda>raw.
     exi_bind (exi_lift (exi_basetypes_decoder_fold_unsigned raw max_octets max_value)) (\<lambda>result.
       exi_return (ucast result)))"

definition exi_basetypes_decoder_uint_8 :: "8 word exi" where
  "exi_basetypes_decoder_uint_8 = decode_uint EXI_BASETYPES_UINT8_MAX_OCTETS 0xFF"

definition exi_basetypes_decoder_uint_16 :: "16 word exi" where
  "exi_basetypes_decoder_uint_16 = decode_uint EXI_BASETYPES_UINT16_MAX_OCTETS 0xFFFF"

definition exi_basetypes_decoder_uint_32 :: "32 word exi" where
  "exi_basetypes_decoder_uint_32 = decode_uint EXI_BASETYPES_UINT32_MAX_OCTETS 0xFFFFFFFF"

definition exi_basetypes_decoder_uint_64 :: "64 word exi" where
  "exi_basetypes_decoder_uint_64 = decode_uint EXI_BASETYPES_UINT64_MAX_OCTETS (- 1)"

definition exi_basetypes_decoder_unsigned :: "exi_unsigned exi" where
  "exi_basetypes_decoder_unsigned =
     exi_bind exi_basetypes_decoder_read_unsigned (\<lambda>raw.
     exi_bind (exi_lift (exi_basetypes_convert_bytes_from_unsigned raw EXI_BASETYPES_MAX_OCTETS_SUPPORTED
       EXI_BASETYPES_MAX_OCTETS_SUPPORTED))
       (\<lambda>octets. exi_return (significant octets)))"

definition decode_integer :: "nat \<Rightarrow> 64 word \<Rightarrow> 'a::len word exi" where
  "decode_integer max_octets max_magnitude =
     exi_bind exi_basetypes_decoder_bool (\<lambda>sign.
     exi_bind (exi_basetypes_decoder_read_magnitude max_octets max_magnitude) (\<lambda>magnitude.
       exi_return (if sign then - ucast magnitude - 1 else ucast magnitude)))"

definition exi_basetypes_decoder_integer_8 :: "8 word exi" where
  "exi_basetypes_decoder_integer_8 = decode_integer EXI_BASETYPES_UINT8_MAX_OCTETS 0x7F"

definition exi_basetypes_decoder_integer_16 :: "16 word exi" where
  "exi_basetypes_decoder_integer_16 = decode_integer EXI_BASETYPES_UINT16_MAX_OCTETS 0x7FFF"

definition exi_basetypes_decoder_integer_32 :: "32 word exi" where
  "exi_basetypes_decoder_integer_32 = decode_integer EXI_BASETYPES_UINT32_MAX_OCTETS 0x7FFFFFFF"

definition exi_basetypes_decoder_integer_64 :: "64 word exi" where
  "exi_basetypes_decoder_integer_64 = decode_integer EXI_BASETYPES_UINT64_MAX_OCTETS 0x7FFFFFFFFFFFFFFF"

definition exi_basetypes_decoder_signed :: "exi_signed exi" where
  "exi_basetypes_decoder_signed =
     exi_bind exi_basetypes_decoder_bool (\<lambda>sign.
     exi_bind exi_basetypes_decoder_read_unsigned (\<lambda>raw.
     exi_bind (exi_lift (exi_basetypes_convert_bytes_from_unsigned raw EXI_BASETYPES_MAX_OCTETS_SUPPORTED
       EXI_BASETYPES_MAX_OCTETS_SUPPORTED))
       (\<lambda>octets. exi_return \<lparr>sgn_data = octets, is_negative = sign\<rparr>)))"

text \<open>The terminator is written behind the characters; it is not part of the result.\<close>

primrec decode_characters_loop :: "nat \<Rightarrow> nat \<Rightarrow> 8 word list \<Rightarrow> 8 word list exi" where
  "decode_characters_loop array_size 0 characters =
     store_at array_size (length characters) (exi_return characters)"
| "decode_characters_loop array_size (Suc n) characters =
     store_at array_size (length characters)
       (exi_bind exi_bitstream_read_octet (\<lambda>c.
          if c > 127 then exi_fail UNSUPPORTED_CHARACTER_VALUE
          else decode_characters_loop array_size n (characters @ [c])))"

definition EXTRA_CHAR :: nat where "EXTRA_CHAR = 1"

definition exi_basetypes_decoder_characters :: "nat \<Rightarrow> nat \<Rightarrow> nat \<Rightarrow> 8 word list exi" where
  "exi_basetypes_decoder_characters characters_len array_size characters_size =
     (if characters_len + EXTRA_CHAR > characters_size then exi_fail CHARACTER_BUFFER_TOO_SMALL
      else decode_characters_loop array_size characters_len [])"

subsection \<open>Simple elements\<close>

text \<open>An event code, the value, and the code for the end of the element.\<close>

definition decode_simple_element :: "'a exi \<Rightarrow> 'a exi" where
  "decode_simple_element decode =
     exi_bind (exi_basetypes_decoder_nbit_uint 1) (\<lambda>eventCode.
       if eventCode = 0 then
         exi_bind decode (\<lambda>v.
         exi_bind (exi_basetypes_decoder_nbit_uint 1) (\<lambda>eventCode.
           if eventCode \<noteq> 0 then exi_fail DEVIANTS_NOT_SUPPORTED else exi_return v))
       else exi_fail UNSUPPORTED_SUB_EVENT)"

definition decode_exi_type_hex_binary :: "nat \<Rightarrow> nat \<Rightarrow> 8 word list exi" where
  "decode_exi_type_hex_binary array_size value_buffer_size =
     decode_simple_element
       (exi_bind exi_basetypes_decoder_uint_16 (\<lambda>value_len.
          exi_basetypes_decoder_bytes (unat value_len) array_size value_buffer_size))"

definition decode_exi_type_integer8 :: "8 word exi" where
  "decode_exi_type_integer8 = decode_simple_element exi_basetypes_decoder_integer_8"

definition decode_exi_type_integer16 :: "16 word exi" where
  "decode_exi_type_integer16 = decode_simple_element exi_basetypes_decoder_integer_16"

definition decode_exi_type_integer32 :: "32 word exi" where
  "decode_exi_type_integer32 = decode_simple_element exi_basetypes_decoder_integer_32"

definition decode_exi_type_integer64 :: "64 word exi" where
  "decode_exi_type_integer64 = decode_simple_element exi_basetypes_decoder_integer_64"

definition decode_exi_type_uint8 :: "8 word exi" where
  "decode_exi_type_uint8 = decode_simple_element exi_basetypes_decoder_uint_8"

definition decode_exi_type_uint16 :: "16 word exi" where
  "decode_exi_type_uint16 = decode_simple_element exi_basetypes_decoder_uint_16"

definition decode_exi_type_uint32 :: "32 word exi" where
  "decode_exi_type_uint32 = decode_simple_element exi_basetypes_decoder_uint_32"

definition decode_exi_type_uint64 :: "64 word exi" where
  "decode_exi_type_uint64 = decode_simple_element exi_basetypes_decoder_uint_64"

end
