(* ===== verification/App_Handshake.thy ===== *)
theory App_Handshake
  imports Exi_Base_Types
begin

text \<open>
  The messages with which a vehicle and a charger agree on a protocol, after
  \<^verbatim>\<open>cbv2g/app_handshake/appHand_Datatypes.h\<close>, \<^verbatim>\<open>appHand_Encoder.c\<close> and \<^verbatim>\<open>appHand_Decoder.c\<close>. The array of
  characters and the array of protocols are the lists of their first \<^verbatim>\<open>charactersLen\<close> and \<^verbatim>\<open>arrayLen\<close>
  elements; a flag for an optional field and the field are an option; the union of the document and its
  two flags are a datatype. The functions of the source loop over the states of a grammar: a state that is
  entered once is a step of a sequence here, the state that is entered again is a recursive function.
\<close>

subsection \<open>Data\<close>

definition appHand_ProtocolNamespace_CHARACTER_SIZE :: nat where
  "appHand_ProtocolNamespace_CHARACTER_SIZE = 100"

definition appHand_AppProtocolType_5_ARRAY_SIZE :: nat where
  "appHand_AppProtocolType_5_ARRAY_SIZE = 5"

record appHand_AppProtocolType =
  ProtocolNamespace :: "8 word list"
  VersionNumberMajor :: "32 word"
  VersionNumberMinor :: "32 word"
  SchemaID :: "8 word"
  Priority :: "8 word"

text \<open>The response code is the number of the enumerator; a message may hold one that has no enumerator.\<close>

definition appHand_responseCodeType_OK_SuccessfulNegotiation :: "32 word" where
  "appHand_responseCodeType_OK_SuccessfulNegotiation = 0"

definition appHand_responseCodeType_OK_SuccessfulNegotiationWithMinorDeviation :: "32 word" where
  "appHand_responseCodeType_OK_SuccessfulNegotiationWithMinorDeviation = 1"

definition appHand_responseCodeType_Failed_NoNegotiation :: "32 word" where
  "appHand_responseCodeType_Failed_NoNegotiation = 2"

type_synonym appHand_supportedAppProtocolReq = "appHand_AppProtocolType list"

record appHand_supportedAppProtocolRes =
  ResponseCode :: "32 word"
  res_SchemaID :: "8 word option"

datatype appHand_exiDocument =
    supportedAppProtocolReq_isUsed appHand_supportedAppProtocolReq
  | supportedAppProtocolRes_isUsed appHand_supportedAppProtocolRes
  | init_appHand_exiDocument

subsection \<open>Encoder\<close>

text \<open>A value between the event for its content and the one for the end of the element.\<close>

definition encode_content :: "unit exi \<Rightarrow> unit exi" where
  "encode_content encode =
     exi_bind (exi_basetypes_encoder_nbit_uint 1 0) (\<lambda>_.
     exi_bind encode (\<lambda>_.
       exi_basetypes_encoder_nbit_uint 1 0))"

definition encode_element :: "unit exi \<Rightarrow> unit exi" where
  "encode_element encode = exi_bind (exi_basetypes_encoder_nbit_uint 1 0) (\<lambda>_. encode_content encode)"

definition encode_appHand_AppProtocolType :: "appHand_AppProtocolType \<Rightarrow> unit exi" where
  "encode_appHand_AppProtocolType p =
     exi_bind (encode_element
       (exi_bind (exi_basetypes_encoder_uint_16 (word_of_nat (length (ProtocolNamespace p) + 2))) (\<lambda>_.
          exi_basetypes_encoder_characters (length (ProtocolNamespace p)) (ProtocolNamespace p)
            appHand_ProtocolNamespace_CHARACTER_SIZE))) (\<lambda>_.
     exi_bind (encode_element (exi_basetypes_encoder_uint_32 (VersionNumberMajor p))) (\<lambda>_.
     exi_bind (encode_element (exi_basetypes_encoder_uint_32 (VersionNumberMinor p))) (\<lambda>_.
     exi_bind (encode_element (exi_basetypes_encoder_nbit_uint 8 (ucast (SchemaID p)))) (\<lambda>_.
     exi_bind (encode_element (exi_basetypes_encoder_nbit_uint 5 (ucast (Priority p) - 1))) (\<lambda>_.
       exi_basetypes_encoder_nbit_uint 1 0)))))"

text \<open>
  Grammar state 8, with the index of the next protocol and the protocols from there on. A protocol behind
  the end of the array cannot be read.
\<close>

primrec encode_protocols :: "nat \<Rightarrow> appHand_AppProtocolType list \<Rightarrow> unit exi" where
  "encode_protocols AppProtocol_currentIndex [] = exi_basetypes_encoder_nbit_uint 2 1"
| "encode_protocols AppProtocol_currentIndex (p # ps) =
     exi_bind (exi_basetypes_encoder_nbit_uint 2 0) (\<lambda>_.
     exi_bind (if AppProtocol_currentIndex < appHand_AppProtocolType_5_ARRAY_SIZE
               then encode_appHand_AppProtocolType p else exi_fail Undefined_Behaviour) (\<lambda>_.
       if AppProtocol_currentIndex + 1 < 20 then encode_protocols (AppProtocol_currentIndex + 1) ps
       else exi_basetypes_encoder_nbit_uint 1 0))"

definition encode_appHand_supportedAppProtocolReq :: "appHand_supportedAppProtocolReq \<Rightarrow> unit exi" where
  "encode_appHand_supportedAppProtocolReq req =
     (case req of
        [] \<Rightarrow> exi_fail UNKNOWN_EVENT_CODE
      | p # ps \<Rightarrow>
          exi_bind (exi_basetypes_encoder_nbit_uint 1 0) (\<lambda>_.
          exi_bind (encode_appHand_AppProtocolType p) (\<lambda>_. encode_protocols 1 ps)))"

definition encode_appHand_supportedAppProtocolRes :: "appHand_supportedAppProtocolRes \<Rightarrow> unit exi" where
  "encode_appHand_supportedAppProtocolRes res =
     exi_bind (encode_element (exi_basetypes_encoder_nbit_uint 2 (ResponseCode res))) (\<lambda>_.
       case res_SchemaID res of
         Some schema_id \<Rightarrow>
           exi_bind (exi_basetypes_encoder_nbit_uint 2 0) (\<lambda>_.
           exi_bind (encode_content (exi_basetypes_encoder_nbit_uint 8 (ucast schema_id))) (\<lambda>_.
             exi_basetypes_encoder_nbit_uint 1 0))
       | None \<Rightarrow> exi_basetypes_encoder_nbit_uint 2 1)"

definition encode_appHand_exiDocument :: "appHand_exiDocument \<Rightarrow> unit exi" where
  "encode_appHand_exiDocument exiDoc =
     exi_bind exi_header_write (\<lambda>_.
       case exiDoc of
         supportedAppProtocolReq_isUsed req \<Rightarrow>
           exi_bind (exi_basetypes_encoder_nbit_uint 2 0) (\<lambda>_. encode_appHand_supportedAppProtocolReq req)
       | supportedAppProtocolRes_isUsed res \<Rightarrow>
           exi_bind (exi_basetypes_encoder_nbit_uint 2 1) (\<lambda>_. encode_appHand_supportedAppProtocolRes res)
       | init_appHand_exiDocument \<Rightarrow> exi_fail UNKNOWN_EVENT_FOR_ENCODING)"

subsection \<open>Decoder\<close>

text \<open>The event of a grammar state that has one event only.\<close>

definition decode_event :: "'a exi \<Rightarrow> 'a exi" where
  "decode_event decode =
     exi_bind (exi_basetypes_decoder_nbit_uint 1) (\<lambda>eventCode.
       if eventCode = 0 then decode else exi_fail UNKNOWN_EVENT_CODE)"

definition decode_namespace :: "8 word list exi" where
  "decode_namespace =
     exi_bind exi_basetypes_decoder_uint_16 (\<lambda>charactersLen.
       if charactersLen \<ge> 2
       then exi_basetypes_decoder_characters (unat (charactersLen - 2))
              appHand_ProtocolNamespace_CHARACTER_SIZE appHand_ProtocolNamespace_CHARACTER_SIZE
       else exi_fail STRINGVALUES_NOT_SUPPORTED)"

definition decode_appHand_AppProtocolType :: "appHand_AppProtocolType exi" where
  "decode_appHand_AppProtocolType =
     exi_bind (decode_event (decode_simple_element decode_namespace)) (\<lambda>namespace.
     exi_bind (decode_event decode_exi_type_uint32) (\<lambda>major.
     exi_bind (decode_event decode_exi_type_uint32) (\<lambda>minor.
     exi_bind (decode_event (decode_simple_element
       (exi_bind (exi_basetypes_decoder_nbit_uint 8) (\<lambda>v. exi_return (ucast v))))) (\<lambda>schema_id.
     exi_bind (decode_event (decode_simple_element
       (exi_bind (exi_basetypes_decoder_nbit_uint 5) (\<lambda>v. exi_return (ucast (v + 1)))))) (\<lambda>priority.
     decode_event
       (exi_return \<lparr>ProtocolNamespace = namespace, VersionNumberMajor = major, VersionNumberMinor = minor,
                    SchemaID = schema_id, Priority = priority\<rparr>))))))"

text \<open>
  Grammar state 8, with the protocols decoded so far; the next one is decoded into the array of the
  message.
\<close>

function decode_protocols :: "appHand_AppProtocolType list \<Rightarrow> appHand_supportedAppProtocolReq exi" where
  "decode_protocols ps =
     exi_bind (exi_basetypes_decoder_nbit_uint 2) (\<lambda>eventCode.
       if eventCode = 0 then
         if length ps < appHand_AppProtocolType_5_ARRAY_SIZE then
           exi_bind (store_at appHand_AppProtocolType_5_ARRAY_SIZE (length ps) decode_appHand_AppProtocolType) (\<lambda>p.
             if length ps + 1 < 20 then decode_protocols (ps @ [p]) else decode_event (exi_return (ps @ [p])))
         else exi_fail ARRAY_OUT_OF_BOUNDS
       else if eventCode = 1 then exi_return ps
       else exi_fail UNKNOWN_EVENT_CODE)"
  by pat_completeness auto
termination
  by (relation "measure (\<lambda>ps. 20 - length ps)") auto

declare decode_protocols.simps [simp del]

definition decode_appHand_supportedAppProtocolReq :: "appHand_supportedAppProtocolReq exi" where
  "decode_appHand_supportedAppProtocolReq =
     decode_event
       (if 0 < appHand_AppProtocolType_5_ARRAY_SIZE then
          exi_bind (store_at appHand_AppProtocolType_5_ARRAY_SIZE 0 decode_appHand_AppProtocolType)
            (\<lambda>p. decode_protocols [p])
        else exi_fail ARRAY_OUT_OF_BOUNDS)"

definition decode_appHand_supportedAppProtocolRes :: "appHand_supportedAppProtocolRes exi" where
  "decode_appHand_supportedAppProtocolRes =
     exi_bind (decode_event (decode_simple_element (exi_basetypes_decoder_nbit_uint 2))) (\<lambda>response_code.
     exi_bind (exi_basetypes_decoder_nbit_uint 2) (\<lambda>eventCode.
       if eventCode = 0 then
         exi_bind (decode_simple_element
           (exi_bind (exi_basetypes_decoder_nbit_uint 8) (\<lambda>v. exi_return (ucast v)))) (\<lambda>schema_id.
           decode_event (exi_return \<lparr>ResponseCode = response_code, res_SchemaID = Some schema_id\<rparr>))
       else if eventCode = 1 then exi_return \<lparr>ResponseCode = response_code, res_SchemaID = None\<rparr>
       else exi_fail UNKNOWN_EVENT_CODE))"

definition decode_appHand_exiDocument :: "appHand_exiDocument exi" where
  "decode_appHand_exiDocument =
     exi_bind exi_header_read_and_check (\<lambda>_.
     exi_bind (exi_basetypes_decoder_nbit_uint 2) (\<lambda>eventCode.
       if eventCode = 0 then
         exi_bind decode_appHand_supportedAppProtocolReq (\<lambda>req. exi_return (supportedAppProtocolReq_isUsed req))
       else if eventCode = 1 then
         exi_bind decode_appHand_supportedAppProtocolRes (\<lambda>res. exi_return (supportedAppProtocolRes_isUsed res))
       else exi_fail UNSUPPORTED_SUB_EVENT))"

end
