(* ===== verification/Exi_Stream_Laws.thy ===== *)
theory Exi_Stream_Laws
  imports Exi_Bitstream
begin

text \<open>
  The bit stream as a sequence of bits: writing appends to the bits before the position, reading consumes
  the bits behind it, and both stop with an error at the end of the data. The locale \<open>exi_codec\<close> states
  what a pair of a writing and a reading function has to satisfy to be inverse to each other.
\<close>

subsection \<open>The bits of a stream\<close>

definition stream_bit :: "8 word list \<Rightarrow> nat \<Rightarrow> bool" where
  "stream_bit d p = bit (d ! (p div 8)) (7 - p mod 8)"

definition bit_pos :: "exi_bitstream \<Rightarrow> nat" where
  "bit_pos s = 8 * byte_pos s + bit_count s"

definition capacity :: "exi_bitstream \<Rightarrow> nat" where
  "capacity s = 8 * data_size s"

definition stream_wf :: "exi_bitstream \<Rightarrow> bool" where
  "stream_wf s \<longleftrightarrow> bit_count s \<le> 8 \<and> data_size s \<le> length (data s)"

text \<open>The rest of the byte that is being written is zero, since writing only sets bits.\<close>

definition writable :: "exi_bitstream \<Rightarrow> bool" where
  "writable s \<longleftrightarrow> stream_wf s \<and> bit_pos s \<le> capacity s \<and>
     (\<forall>p. bit_pos s \<le> p \<and> p < 8 * ((bit_pos s + 7) div 8) \<longrightarrow> \<not> stream_bit (data s) p)"

definition written :: "exi_bitstream \<Rightarrow> bool list" where
  "written s = map (stream_bit (data s)) [0..<bit_pos s]"

definition upcoming :: "exi_bitstream \<Rightarrow> bool list" where
  "upcoming s = map (stream_bit (data s)) [bit_pos s..<capacity s]"

definition same_frame :: "exi_bitstream \<Rightarrow> exi_bitstream \<Rightarrow> bool" where
  "same_frame s s' \<longleftrightarrow> data_size s' = data_size s \<and> length (data s') = length (data s) \<and>
     init_called s' = init_called s \<and> flag_byte_pos s' = flag_byte_pos s"

definition appends :: "bool list \<Rightarrow> exi_bitstream \<Rightarrow> exi_bitstream \<Rightarrow> bool" where
  "appends bs s s' \<longleftrightarrow> writable s' \<and> same_frame s s' \<and> written s' = written s @ bs"

definition consumes :: "nat \<Rightarrow> exi_bitstream \<Rightarrow> exi_bitstream \<Rightarrow> bool" where
  "consumes n s s' \<longleftrightarrow> stream_wf s' \<and> same_frame s s' \<and> data s' = data s \<and> bit_pos s' = bit_pos s + n"

lemma length_written [simp]: "length (written s) = bit_pos s"
  by (simp add: written_def)

lemma appends_pos: "appends bs s s' \<Longrightarrow> bit_pos s' = bit_pos s + length bs"
  unfolding appends_def by (metis length_append length_written)

lemma appends_capacity: "appends bs s s' \<Longrightarrow> capacity s' = capacity s"
  by (simp add: appends_def same_frame_def capacity_def)

lemma consumes_capacity: "consumes n s s' \<Longrightarrow> capacity s' = capacity s"
  by (simp add: consumes_def same_frame_def capacity_def)

lemma same_frame_refl [simp]: "same_frame s s"
  by (simp add: same_frame_def)

lemma same_frame_trans: "same_frame s s' \<Longrightarrow> same_frame s' s'' \<Longrightarrow> same_frame s s''"
  by (simp add: same_frame_def)

lemma appends_trans: "appends bs s s' \<Longrightarrow> appends cs s' s'' \<Longrightarrow> appends (bs @ cs) s s''"
  by (auto simp: appends_def intro: same_frame_trans)

lemma appends_refl: "writable s \<Longrightarrow> appends [] s s"
  by (simp add: appends_def)

lemma appends_writable: "appends bs s s' \<Longrightarrow> writable s'"
  by (simp add: appends_def)

lemma consumes_trans: "consumes m s s' \<Longrightarrow> consumes n s' s'' \<Longrightarrow> consumes (m + n) s s''"
  by (auto simp: consumes_def intro: same_frame_trans)

lemma consumes_refl: "stream_wf s \<Longrightarrow> consumes 0 s s"
  by (simp add: consumes_def)

lemma consumes_upcoming: "consumes n s s' \<Longrightarrow> upcoming s' = drop n (upcoming s)"
  by (simp add: consumes_def upcoming_def drop_map same_frame_def capacity_def)

lemma writable_wf: "writable s \<Longrightarrow> stream_wf s"
  by (simp add: writable_def)

subsection \<open>One bit\<close>

text \<open>The position that the two functions use: the overflow check moves on from a full byte.\<close>

lemma has_overflow_cases:
  assumes "stream_wf s"
  obtains (room) s' where "exi_bitstream_has_overflow s = (Inr (), s')" "bit_pos s < capacity s"
      "bit_count s' < 8" "bit_pos s' = bit_pos s" "data s' = data s" "same_frame s s'"
      "byte_pos s' < length (data s)"
  | (full) s' where "exi_bitstream_has_overflow s = (Inl BITSTREAM_OVERFLOW, s')" "capacity s \<le> bit_pos s"
      "consumes 0 s s'"
proof (cases "bit_count s = 8 \<and> byte_pos s < data_size s")
  case True
  let ?s = "s\<lparr>byte_pos := byte_pos s + 1, bit_count := 0\<rparr>"
  have o: "exi_bitstream_has_overflow s =
      (if byte_pos s + 1 \<ge> data_size s then (Inl BITSTREAM_OVERFLOW, ?s) else (Inr (), ?s))"
    using True by (simp add: exi_bitstream_has_overflow_def EXI_BITSTREAM_MAX_BIT_COUNT_def)
  have p: "bit_pos ?s = bit_pos s" using True by (simp add: bit_pos_def)
  show ?thesis
  proof (cases "byte_pos s + 1 \<ge> data_size s")
    case True
    then show ?thesis using o p assms \<open>bit_count s = 8 \<and> _\<close>
      by (intro full [of ?s]) (auto simp: consumes_def same_frame_def stream_wf_def bit_pos_def capacity_def)
  next
    case False
    then show ?thesis using o p assms \<open>bit_count s = 8 \<and> _\<close>
      by (intro room [of ?s]) (auto simp: same_frame_def stream_wf_def bit_pos_def capacity_def)
  qed
next
  case False
  then have o: "exi_bitstream_has_overflow s =
      (if byte_pos s \<ge> data_size s then (Inl BITSTREAM_OVERFLOW, s) else (Inr (), s))"
    by (auto simp: exi_bitstream_has_overflow_def EXI_BITSTREAM_MAX_BIT_COUNT_def)
  show ?thesis
  proof (cases "byte_pos s \<ge> data_size s")
    case True
    then show ?thesis using o assms
      by (intro full [of s]) (auto simp: consumes_refl bit_pos_def capacity_def)
  next
    case byte: False
    then show ?thesis using o assms False
      by (intro room [of s]) (auto simp: stream_wf_def bit_pos_def capacity_def)
  qed
qed

lemma pos_div_mod:
  "bit_count s < 8 \<Longrightarrow> bit_pos s div 8 = byte_pos s \<and> bit_pos s mod 8 = bit_count s"
  by (simp add: bit_pos_def)

lemma read_bit_room:
  assumes "stream_wf s" "bit_pos s < capacity s"
  shows "\<exists>s'. exi_bitstream_read_bit s = (Inr (stream_bit (data s) (bit_pos s)), s') \<and> consumes 1 s s'"
  using assms(1)
proof (cases rule: has_overflow_cases)
  case (room t)
  let ?t = "t\<lparr>bit_count := bit_count t + 1\<rparr>"
  have "drop_bit (8 - (bit_count t + 1)) (data s ! byte_pos t) AND 1 \<noteq> 0 \<longleftrightarrow>
      stream_bit (data s) (bit_pos s)"
    using pos_div_mod [OF room(3)] room(3,4)
    by (simp add: stream_bit_def and_one_eq mod_2_eq_odd bit_iff_odd_drop_bit)
  then have "exi_bitstream_read_bit s = (Inr (stream_bit (data s) (bit_pos s)), ?t)"
    using room by (simp add: exi_bitstream_read_bit_def exi_bind_def EXI_BITSTREAM_MAX_BIT_COUNT_def Let_def)
  moreover have "consumes 1 s ?t"
    using room assms(1) by (auto simp: consumes_def stream_wf_def same_frame_def bit_pos_def)
  ultimately show ?thesis by blast
next
  case full
  with assms(2) show ?thesis by simp
qed

lemma read_bit_full:
  assumes "stream_wf s" "capacity s \<le> bit_pos s"
  shows "\<exists>s'. exi_bitstream_read_bit s = (Inl BITSTREAM_OVERFLOW, s') \<and> consumes 0 s s'"
  using assms(1)
proof (cases rule: has_overflow_cases)
  case (full t)
  then show ?thesis by (simp add: exi_bitstream_read_bit_def exi_bind_def)
next
  case room
  with assms(2) show ?thesis by simp
qed

text \<open>The byte that is written, bit by bit.\<close>

lemma byte_bits:
  fixes c :: "8 word"
  assumes "n < 8" "k < 8"
  shows "bit (if b then c OR push_bit (8 - (k + 1)) 1 else c) (7 - n) \<longleftrightarrow> bit c (7 - n) \<or> b \<and> n = k"
  using assms by (auto simp: bit_simps)

lemma stream_bit_update:
  assumes "i < length d"
  shows "stream_bit (d[i := c]) p = (if p div 8 = i then bit c (7 - p mod 8) else stream_bit d p)"
  using assms by (auto simp: stream_bit_def)

lemma byte_position:
  fixes p :: nat
  assumes "8 * a \<le> p" "p < 8 * a + 8"
  shows "p div 8 = a" "p mod 8 = p - 8 * a"
proof -
  from assms obtain r where "p = 8 * a + r" "r < 8" using le_iff_add [of "8 * a" p] by auto
  then show "p div 8 = a" "p mod 8 = p - 8 * a" by simp_all
qed

lemma write_bit_room:
  assumes "writable s" "bit_pos s < capacity s"
  shows "\<exists>s'. exi_bitstream_write_bit b s = (Inr (), s') \<and> appends [b] s s'"
  using writable_wf [OF assms(1)]
proof (cases rule: has_overflow_cases)
  case (room t)
  let ?P = "bit_pos s"
  define k where "k = bit_count t"
  have k: "k < 8" "?P div 8 = byte_pos t" "?P mod 8 = k" "?P = 8 * byte_pos t + k"
    using pos_div_mod [OF room(3)] room(3,4) bit_pos_def [of t] by (simp_all add: k_def)
  define old where "old = (if k = 0 then 0 else data s ! byte_pos t)"
  define c where "c = (if b then old OR push_bit (8 - (k + 1)) 1 else old)"
  define d where "d = (data s)[byte_pos t := c]"
  define s' where "s' = t\<lparr>data := d, bit_count := k + 1\<rparr>"
  have wrote: "exi_bitstream_write_bit b s = (Inr (), s')"
    using room unfolding s'_def d_def c_def old_def k_def
    by (simp add: exi_bitstream_write_bit_def exi_bind_def EXI_BITSTREAM_MAX_BIT_COUNT_def Let_def)
  have bits: "stream_bit d p = (if p div 8 = byte_pos t
      then bit old (7 - p mod 8) \<or> b \<and> p mod 8 = k else stream_bit (data s) p)" for p
    unfolding d_def stream_bit_update [OF room(7)] c_def using byte_bits [of "p mod 8" k b old] k(1) by simp
  have zero: "\<not> bit old (7 - p mod 8)" if "p div 8 = byte_pos t" "k \<le> p mod 8" for p
  proof (cases "k = 0")
    case False
    then have "(?P + 7) div 8 = Suc (byte_pos t)" using k(1) byte_position [of "Suc (byte_pos t)" "?P + 7"]
      unfolding k(4) by simp
    moreover have "p = 8 * byte_pos t + p mod 8" using that(1) mult_div_mod_eq [of 8 p] by simp
    ultimately have "?P \<le> p \<and> p < 8 * ((?P + 7) div 8)"
      using that(2) mod_less_divisor [of 8 p] unfolding k(4) by linarith
    then show ?thesis using assms(1) that(1) False by (auto simp: writable_def old_def stream_bit_def)
  qed (simp add: old_def)
  have before: "stream_bit d p = stream_bit (data s) p" if "p < ?P" for p
  proof (cases "p div 8 = byte_pos t")
    case True
    then have "p mod 8 < k" using that mult_div_mod_eq [of 8 p] unfolding k(4) by simp
    then show ?thesis using True unfolding bits by (auto simp: old_def stream_bit_def)
  qed (simp add: bits)
  have here: "stream_bit d ?P = b" using zero [of ?P] k(2,3) unfolding bits by auto
  have behind: "\<not> stream_bit d p" if "Suc ?P \<le> p" "p < 8 * ((Suc ?P + 7) div 8)" for p
  proof -
    have "(Suc ?P + 7) div 8 = Suc (byte_pos t)" using k(1) unfolding k(4) by simp
    then have "8 * byte_pos t + k < p" "p < 8 * byte_pos t + 8" using that unfolding k(4) by simp_all
    then have "p div 8 = byte_pos t" "k < p mod 8" using byte_position [of "byte_pos t" p] by simp_all
    then show ?thesis using zero [of p] unfolding bits by simp
  qed
  have pos: "bit_pos s' = Suc ?P" unfolding k(4) s'_def bit_pos_def [of "_\<lparr>bit_count := _\<rparr>"] by simp
  have data: "data s' = d" by (simp add: s'_def)
  have "written s' = written s @ [b]"
    unfolding written_def pos data upt_Suc using before here by simp
  moreover have frame: "same_frame s s'" "stream_wf s'"
    using room(6) writable_wf [OF assms(1)] k(1) by (auto simp: same_frame_def s'_def d_def stream_wf_def)
  moreover have "writable s'"
    unfolding writable_def pos data
  proof (intro conjI allI impI)
    show "Suc ?P \<le> capacity s'" using assms(2) frame(1) by (simp add: capacity_def same_frame_def)
    show "\<not> stream_bit d p" if "Suc ?P \<le> p \<and> p < 8 * ((Suc ?P + 7) div 8)" for p
      using behind that by blast
  qed (rule frame(2))
  ultimately have "appends [b] s s'" by (simp add: appends_def)
  with wrote show ?thesis by blast
next
  case full
  with assms(2) show ?thesis by simp
qed

lemma write_bit_full:
  assumes "stream_wf s" "capacity s \<le> bit_pos s"
  shows "\<exists>s'. exi_bitstream_write_bit b s = (Inl BITSTREAM_OVERFLOW, s')"
  using assms(1)
proof (cases rule: has_overflow_cases)
  case (full t)
  then show ?thesis by (simp add: exi_bitstream_write_bit_def exi_bind_def)
next
  case room
  with assms(2) show ?thesis by simp
qed

subsection \<open>Groups of bits\<close>

text \<open>The lowest bits of a word, the most significant one first.\<close>

primrec bits_msb :: "nat \<Rightarrow> 'a::len word \<Rightarrow> bool list" where
  "bits_msb 0 v = []"
| "bits_msb (Suc n) v = bit v n # bits_msb n v"

lemma length_bits_msb [simp]: "length (bits_msb n v) = n"
  by (induction n) simp_all

lemma bits_msb_ucast:
  "n \<le> LENGTH('a) \<Longrightarrow> bits_msb n (ucast v :: 'a::len word) = bits_msb n (v :: 'b::len word)"
  by (induction n) (auto simp: bit_simps dest: bit_imp_le_length)

lemma write_bits_loop_Suc:
  "write_bits_loop v (Suc n) s =
     exi_bind (exi_bitstream_write_bit (bit v n)) (\<lambda>_. write_bits_loop v n) s"
  unfolding write_bits_loop.simps bit_iff_and_push_bit_not_eq_0 word_gt_0 by (simp only: neq_commute)

declare write_bits_loop.simps(2) [simp del]

lemma write_bits_loop_room:
  "writable s \<Longrightarrow> bit_pos s + n \<le> capacity s \<Longrightarrow>
   \<exists>s'. write_bits_loop v n s = (Inr (), s') \<and> appends (bits_msb n v) s s'"
proof (induction n arbitrary: s)
  case 0
  then show ?case by (simp add: exi_return_def appends_refl)
next
  case (Suc n)
  obtain t where t: "exi_bitstream_write_bit (bit v n) s = (Inr (), t)" "appends [bit v n] s t"
    using write_bit_room [OF Suc.prems(1)] Suc.prems(2) by auto
  then have "bit_pos t + n \<le> capacity t"
    using Suc.prems(2) by (simp add: appends_pos appends_capacity)
  with Suc.IH [of t] t obtain s' where
    "write_bits_loop v n t = (Inr (), s')" "appends (bits_msb n v) t s'"
    by (auto dest: appends_writable)
  then show ?case using t appends_trans [OF t(2)] by (simp add: exi_bind_def write_bits_loop_Suc)
qed

lemma write_bits_loop_full:
  "writable s \<Longrightarrow> capacity s < bit_pos s + n \<Longrightarrow>
   \<exists>s'. write_bits_loop v n s = (Inl BITSTREAM_OVERFLOW, s')"
proof (induction n arbitrary: s)
  case (Suc n)
  show ?case
  proof (cases "bit_pos s < capacity s")
    case True
    then obtain t where t: "exi_bitstream_write_bit (bit v n) s = (Inr (), t)" "appends [bit v n] s t"
      using write_bit_room [OF Suc.prems(1)] by blast
    then have "writable t" "capacity t < bit_pos t + n" "n > 0"
      using Suc.prems(2) True by (auto simp: appends_pos appends_capacity dest: appends_writable)
    then show ?thesis using Suc.IH [of t] t(1) by (simp add: exi_bind_def write_bits_loop_Suc)
  next
    case False
    then show ?thesis using write_bit_full [OF writable_wf [OF Suc.prems(1)], of "bit v n"]
      by (auto simp: exi_bind_def write_bits_loop_Suc)
  qed
qed (simp add: writable_def)

text \<open>Reading appends the bits to the value read so far.\<close>

lemma upcoming_Cons:
  "upcoming s = b # bs \<longleftrightarrow> bit_pos s < capacity s \<and> b = stream_bit (data s) (bit_pos s) \<and>
     bs = map (stream_bit (data s)) [Suc (bit_pos s)..<capacity s]"
  by (cases "bit_pos s < capacity s") (auto simp: upcoming_def upt_conv_Cons simp del: upt_Suc)

primrec bits_value :: "bool list \<Rightarrow> 'a::len word \<Rightarrow> 'a word" where
  "bits_value [] v = v"
| "bits_value (b # bs) v = bits_value bs (push_bit 1 v OR of_bool b)"

lemma read_bits_loop_room:
  "stream_wf s \<Longrightarrow> upcoming s = bs @ rest \<Longrightarrow>
   \<exists>s'. read_bits_loop (length bs) v s = (Inr (bits_value bs v), s') \<and> consumes (length bs) s s'"
proof (induction bs arbitrary: s v)
  case Nil
  then show ?case by (simp add: exi_return_def consumes_refl)
next
  case (Cons b bs)
  have b: "bit_pos s < capacity s" "b = stream_bit (data s) (bit_pos s)"
    using Cons.prems(2) upcoming_Cons [of s b "bs @ rest"] by simp_all
  obtain t where t: "exi_bitstream_read_bit s = (Inr b, t)" "consumes 1 s t"
    using read_bit_room [OF Cons.prems(1) b(1)] b(2) by auto
  then have "stream_wf t" "upcoming t = bs @ rest"
    using consumes_upcoming [OF t(2)] Cons.prems(2) by (simp_all add: consumes_def)
  from Cons.IH [OF this, of "push_bit 1 v OR of_bool b"] t consumes_trans [OF t(2)] show ?case
    unfolding length_Cons read_bits_loop.simps bits_value.simps exi_bind_def by fastforce
qed

lemma read_bits_loop_full:
  "stream_wf s \<Longrightarrow> length (upcoming s) < n \<Longrightarrow>
   \<exists>m s'. read_bits_loop n v s = (Inl BITSTREAM_OVERFLOW, s') \<and> consumes m s s' \<and> m \<le> length (upcoming s)"
proof (induction n arbitrary: s v)
  case (Suc n)
  show ?case
  proof (cases "bit_pos s < capacity s")
    case True
    obtain t where t: "exi_bitstream_read_bit s = (Inr (stream_bit (data s) (bit_pos s)), t)" "consumes 1 s t"
      using read_bit_room [OF Suc.prems(1) True] by blast
    then have u: "stream_wf t" "length (upcoming t) + 1 = length (upcoming s)"
      using consumes_upcoming [OF t(2)] True by (simp_all add: consumes_def upcoming_def)
    with Suc.prems(2) have "length (upcoming t) < n" by simp
    from Suc.IH [OF u(1) this, of "push_bit 1 v OR of_bool (stream_bit (data s) (bit_pos s))"]
    obtain m s' where "read_bits_loop (Suc n) v s = (Inl BITSTREAM_OVERFLOW, s')" "consumes m t s'"
      "m \<le> length (upcoming t)"
      using t(1) unfolding read_bits_loop.simps exi_bind_def by auto
    then show ?thesis using consumes_trans [OF t(2)] u(2) by (intro exI [of _ "1 + m"]) auto
  next
    case False
    then obtain t where "exi_bitstream_read_bit s = (Inl BITSTREAM_OVERFLOW, t)" "consumes 0 s t"
      using read_bit_full [OF Suc.prems(1)] by auto
    then show ?thesis unfolding read_bits_loop.simps exi_bind_def by auto
  qed
qed simp

text \<open>The value of the bits of a word is the word, cut to their number.\<close>

lemma bits_value_bits_msb:
  "n \<le> LENGTH('a) \<Longrightarrow>
   bits_value (bits_msb n v) w = push_bit n w OR take_bit n (v :: 'a::len word)"
proof (induction n arbitrary: w)
  case (Suc n)
  have "push_bit n (push_bit 1 w OR of_bool (bit v n)) OR take_bit n v =
      push_bit (Suc n) w OR take_bit (Suc n) v"
    by (rule bit_eqI) (use Suc.prems in \<open>auto simp: bit_simps less_Suc_eq\<close>)
  with Suc show ?case by simp
qed simp

subsection \<open>Writing and reading a sequence of bits\<close>

text \<open>A function writes given bits if there is room for them, and reports the end of the data otherwise.\<close>

definition writes :: "unit exi \<Rightarrow> bool list \<Rightarrow> bool" where
  "writes f bs \<longleftrightarrow> (\<forall>s. writable s \<longrightarrow>
     (if bit_pos s + length bs \<le> capacity s then \<exists>s'. f s = (Inr (), s') \<and> appends bs s s'
      else \<exists>s'. f s = (Inl BITSTREAM_OVERFLOW, s')))"

definition reads :: "'a exi \<Rightarrow> bool list \<Rightarrow> 'a \<Rightarrow> bool" where
  "reads g bs v \<longleftrightarrow> (\<forall>s rest. stream_wf s \<longrightarrow> upcoming s = bs @ rest \<longrightarrow>
     (\<exists>s'. g s = (Inr v, s') \<and> consumes (length bs) s s'))"

lemma writesD:
  assumes "writes f bs" "writable s"
  shows "bit_pos s + length bs \<le> capacity s \<Longrightarrow> \<exists>s'. f s = (Inr (), s') \<and> appends bs s s'"
    and "\<not> bit_pos s + length bs \<le> capacity s \<Longrightarrow> \<exists>s'. f s = (Inl BITSTREAM_OVERFLOW, s')"
  using assms unfolding writes_def by (meson, meson)

lemma readsD:
  "reads g bs v \<Longrightarrow> stream_wf s \<Longrightarrow> upcoming s = bs @ rest \<Longrightarrow>
   \<exists>s'. g s = (Inr v, s') \<and> consumes (length bs) s s'"
  unfolding reads_def by blast

lemma writes_return: "writes (exi_return ()) []"
  by (auto simp: writes_def exi_return_def appends_refl writable_def)

lemma writes_bind:
  assumes f: "writes f as" and g: "writes g bs"
  shows "writes (exi_bind f (\<lambda>_. g)) (as @ bs)"
  unfolding writes_def
proof (intro allI impI)
  fix s assume w: "writable s"
  let ?h = "exi_bind f (\<lambda>_. g)"
  show "if bit_pos s + length (as @ bs) \<le> capacity s then \<exists>s'. ?h s = (Inr (), s') \<and> appends (as @ bs) s s'
    else \<exists>s'. ?h s = (Inl BITSTREAM_OVERFLOW, s')"
  proof (cases "bit_pos s + length as \<le> capacity s")
    case True
    then obtain t where t: "f s = (Inr (), t)" "appends as s t" using writesD(1) [OF f w] by blast
    have "bit_pos t + length bs \<le> capacity t \<longleftrightarrow> bit_pos s + length (as @ bs) \<le> capacity s"
      using t(2) by (simp add: appends_pos appends_capacity add.assoc)
    moreover have "?h s = g t" using t(1) by (simp add: exi_bind_def)
    ultimately show ?thesis
      using writesD [OF g appends_writable [OF t(2)]] appends_trans [OF t(2)] by auto
  next
    case False
    then obtain t where "f s = (Inl BITSTREAM_OVERFLOW, t)" using writesD(2) [OF f w] by blast
    then show ?thesis using False by (simp add: exi_bind_def)
  qed
qed

lemma reads_return: "reads (exi_return v) [] v"
  by (auto simp: reads_def exi_return_def consumes_refl)

lemma reads_bind:
  assumes f: "reads f as v" and g: "reads (g v) bs w"
  shows "reads (exi_bind f g) (as @ bs) w"
  unfolding reads_def
proof (intro allI impI)
  fix s rest assume s: "stream_wf s" "upcoming s = (as @ bs) @ rest"
  then obtain t where t: "f s = (Inr v, t)" "consumes (length as) s t"
    using readsD [OF f, of s "bs @ rest"] by auto
  then have "stream_wf t" "upcoming t = bs @ rest"
    using s(2) consumes_upcoming [OF t(2)] by (simp_all add: consumes_def)
  then obtain s' where "g v t = (Inr w, s')" "consumes (length bs) t s'"
    using g unfolding reads_def by blast
  then show "\<exists>s'. exi_bind f g s = (Inr w, s') \<and> consumes (length (as @ bs)) s s'"
    using t consumes_trans [OF t(2)] by (simp add: exi_bind_def)
qed

lemma reads_bind_return: "reads f bs v \<Longrightarrow> w = h v \<Longrightarrow> reads (exi_bind f (\<lambda>v. exi_return (h v))) bs w"
  using reads_bind [of f bs v "\<lambda>v. exi_return (h v)" "[]" w] reads_return [of "h v"] by simp

lemma writes_bits: "n \<le> 32 \<Longrightarrow> writes (exi_bitstream_write_bits n v) (bits_msb n v)"
  using write_bits_loop_room [of _ n v] write_bits_loop_full [of _ n v]
  by (auto simp: writes_def exi_bitstream_write_bits_def)

lemma reads_bits_loop:
  assumes "n \<le> LENGTH('a)"
  shows "reads (read_bits_loop n (0 :: 'a::len word)) (bits_msb n v) (take_bit n v)"
  unfolding reads_def
proof (intro allI impI)
  fix s rest assume "stream_wf s" "upcoming s = bits_msb n v @ rest"
  from read_bits_loop_room [OF this, of "0 :: 'a word"]
  show "\<exists>s'. read_bits_loop n 0 s = (Inr (take_bit n v), s') \<and> consumes (length (bits_msb n v)) s s'"
    using bits_value_bits_msb [OF assms, of v 0] by simp
qed

lemma reads_bits:
  "n \<le> 32 \<Longrightarrow> v < 2 ^ n \<or> n = 32 \<Longrightarrow> reads (exi_bitstream_read_bits n) (bits_msb n v) v"
proof -
  assume n: "n \<le> 32" and v: "v < 2 ^ n \<or> n = 32"
  have "take_bit n v = v"
  proof (cases "n = 32")
    case False
    then have "v < 2 ^ n" "n < LENGTH(32)" using n v by simp_all
    then show ?thesis by (simp add: take_bit_eq_mask less_mask_eq)
  qed (simp add: take_bit_word_eq_self)
  then show ?thesis using reads_bits_loop [of n v] n by (simp add: exi_bitstream_read_bits_def)
qed

lemma writes_octet: "writes (exi_bitstream_write_octet b) (bits_msb 8 b)"
  using writes_bits [of 8 "ucast b"] bits_msb_ucast [of 8 b, where 'a = 32]
  by (simp add: exi_bitstream_write_octet_def)

lemma reads_octet: "reads exi_bitstream_read_octet (bits_msb 8 b) b"
  using reads_bits_loop [of 8 b] by (simp add: exi_bitstream_read_octet_def take_bit_word_eq_self)

subsection \<open>Codecs\<close>

text \<open>The stream as it was written, at the position where writing began.\<close>

definition rewind :: "exi_bitstream \<Rightarrow> exi_bitstream \<Rightarrow> exi_bitstream" where
  "rewind s s' = s'\<lparr>byte_pos := byte_pos s, bit_count := bit_count s\<rparr>"

lemma upcoming_rewind:
  assumes "appends bs s s'"
  shows "upcoming (rewind s s') = bs @ upcoming s'"
proof -
  let ?p = "bit_pos s" and ?q = "bit_pos s'" and ?b = "stream_bit (data s')"
  have q: "?q = ?p + length bs" by (rule appends_pos [OF assms])
  have "?q \<le> capacity s'" using assms by (simp add: appends_def writable_def)
  then have "[?p..<capacity s'] = [?p..<?q] @ [?q..<capacity s']"
    using q upt_add_eq_append [of ?p ?q "capacity s' - ?q"] by simp
  moreover have "bs = drop ?p (map ?b [0..<?q])"
    using assms by (simp add: appends_def written_def [of s', symmetric])
  then have "map ?b [?p..<?q] = bs" by (simp add: drop_map)
  moreover have "bit_pos (rewind s s') = ?p" "data (rewind s s') = data s'" "capacity (rewind s s') = capacity s'"
    by (simp_all add: rewind_def bit_pos_def capacity_def)
  ultimately show ?thesis by (simp add: upcoming_def)
qed

locale exi_codec =
  fixes enc :: "'a \<Rightarrow> unit exi"
    and dec :: "'a exi"
    and code :: "'a \<Rightarrow> bool list"
    and valid :: "'a \<Rightarrow> bool"
  assumes enc_writes: "valid v \<Longrightarrow> writes (enc v) (code v)"
    and dec_reads: "valid v \<Longrightarrow> reads dec (code v) v"
begin

lemma enc_succeeds:
  assumes "valid v" "writable s"
  shows "fst (enc v s) = (if bit_pos s + length (code v) \<le> capacity s then Inr () else Inl BITSTREAM_OVERFLOW)"
  using writesD [OF enc_writes [OF assms(1)] assms(2)] by (cases "bit_pos s + length (code v) \<le> capacity s") auto

lemma round_trip:
  assumes "valid v" "writable s" "enc v s = (Inr (), s')"
  shows "\<exists>s''. dec (rewind s s') = (Inr v, s'') \<and> bit_pos s'' = bit_pos s' \<and> data s'' = data s'"
proof -
  have a: "appends (code v) s s'"
    using writesD [OF enc_writes [OF assms(1)] assms(2)] assms(3)
    by (cases "bit_pos s + length (code v) \<le> capacity s") auto
  have "stream_wf (rewind s s')"
    using a assms(2) by (simp add: appends_def writable_def stream_wf_def rewind_def)
  from readsD [OF dec_reads [OF assms(1)] this upcoming_rewind [OF a]] obtain s'' where
    "dec (rewind s s') = (Inr v, s'')" "consumes (length (code v)) (rewind s s') s''" by blast
  then show ?thesis using appends_pos [OF a] by (auto simp: consumes_def rewind_def bit_pos_def)
qed

end

subsection \<open>Reading untrusted data\<close>

text \<open>
  A reading function is safe if it never leaves the array, whatever the data, moves forward within the
  data only and yields a value with the given property.
\<close>

definition advances :: "exi_bitstream \<Rightarrow> exi_bitstream \<Rightarrow> bool" where
  "advances s s' \<longleftrightarrow> stream_wf s' \<and> same_frame s s' \<and> data s' = data s \<and> bit_pos s \<le> bit_pos s' \<and>
     bit_pos s' \<le> max (bit_pos s) (capacity s)"

definition safely :: "'a exi \<Rightarrow> ('a \<Rightarrow> bool) \<Rightarrow> bool" where
  "safely g P \<longleftrightarrow> (\<forall>s. stream_wf s \<longrightarrow> advances s (snd (g s)) \<and>
     (case fst (g s) of Inl e \<Rightarrow> e \<noteq> Undefined_Behaviour | Inr v \<Rightarrow> P v))"

lemma advances_refl: "stream_wf s \<Longrightarrow> advances s s"
  by (simp add: advances_def)

lemma advances_trans: "advances s s' \<Longrightarrow> advances s' s'' \<Longrightarrow> advances s s''"
  by (auto simp: advances_def same_frame_def capacity_def)

lemma safely_return: "P v \<Longrightarrow> safely (exi_return v) P"
  by (simp add: safely_def exi_return_def advances_refl)

lemma safely_fail: "e \<noteq> Undefined_Behaviour \<Longrightarrow> safely (exi_fail e) P"
  by (simp add: safely_def exi_fail_def advances_refl)

lemma safely_mono: "safely g P \<Longrightarrow> (\<And>v. P v \<Longrightarrow> Q v) \<Longrightarrow> safely g Q"
  by (auto simp: safely_def split: sum.splits)

lemma safely_bind:
  assumes f: "safely f P" and g: "\<And>v. P v \<Longrightarrow> safely (g v) Q"
  shows "safely (exi_bind f g) Q"
  unfolding safely_def
proof (intro allI impI)
  fix s assume s: "stream_wf s"
  obtain r t where t: "f s = (r, t)" by fastforce
  have a: "advances s t" "case r of Inl e \<Rightarrow> e \<noteq> Undefined_Behaviour | Inr v \<Rightarrow> P v"
    using f s t by (auto simp: safely_def dest: spec [of _ s])
  show "advances s (snd (exi_bind f g s)) \<and>
    (case fst (exi_bind f g s) of Inl e \<Rightarrow> e \<noteq> Undefined_Behaviour | Inr v \<Rightarrow> Q v)"
  proof (cases r)
    case (Inl e)
    then show ?thesis using a t by (simp add: exi_bind_def)
  next
    case (Inr v)
    have "advances t (snd (g v t)) \<and> (case fst (g v t) of Inl e \<Rightarrow> e \<noteq> Undefined_Behaviour | Inr v \<Rightarrow> Q v)"
      using g [of v] a Inr by (simp add: safely_def advances_def)
    then show ?thesis using t Inr advances_trans [OF a(1)] by (simp add: exi_bind_def)
  qed
qed

lemma bits_value_high:
  "length bs \<le> i \<Longrightarrow> bit (bits_value bs v) i \<longleftrightarrow> i < LENGTH('a) \<and> bit v (i - length bs)"
  for v :: "'a::len word"
proof (induction bs arbitrary: v)
  case Nil
  then show ?case using bit_imp_le_length [of v i] by auto
next
  case (Cons b bs)
  let ?w = "push_bit 1 v OR of_bool b" and ?j = "i - length (b # bs)"
  have "bit (bits_value bs ?w) i \<longleftrightarrow> i < LENGTH('a) \<and> bit ?w (i - length bs)"
    using Cons.IH [of ?w] Cons.prems by (simp only: length_Cons Suc_leD)
  moreover have "i - length bs = Suc ?j" "Suc ?j \<le> i" using Cons.prems by simp_all
  moreover have "bit ?w (Suc ?j) \<longleftrightarrow> Suc ?j < LENGTH('a) \<and> bit v ?j"
    unfolding bit_or_iff bit_push_bit_iff bit_of_bool_iff by simp
  ultimately show ?case unfolding bits_value.simps by (metis le_less_trans)
qed

lemma bits_value_below: "take_bit (length bs) (bits_value bs 0) = bits_value bs (0 :: 'a::len word)"
proof (rule bit_eqI)
  fix i
  show "bit (take_bit (length bs) (bits_value bs (0 :: 'a word))) i = bit (bits_value bs (0 :: 'a word)) i"
    using bits_value_high [of bs i "0 :: 'a word"] by (cases "i < length bs") (simp_all add: bit_take_bit_iff)
qed

lemma safely_read_bits_loop: "safely (read_bits_loop n (0 :: 'a::len word)) (\<lambda>v. take_bit n v = v)"
  unfolding safely_def
proof (intro allI impI)
  fix s assume s: "stream_wf s"
  let ?r = "read_bits_loop n (0 :: 'a word) s"
  show "advances s (snd ?r) \<and> (case fst ?r of Inl e \<Rightarrow> e \<noteq> Undefined_Behaviour | Inr v \<Rightarrow> take_bit n v = v)"
  proof (cases "n \<le> length (upcoming s)")
    case True
    let ?bs = "take n (upcoming s)"
    from True have n: "length ?bs = n" by simp
    obtain s' where r: "?r = (Inr (bits_value ?bs 0), s')" "consumes n s s'"
      using read_bits_loop_room [OF s, of ?bs "drop n (upcoming s)" 0] n by auto
    have "bit_pos s + n \<le> max (bit_pos s) (capacity s)" using True by (simp add: upcoming_def)
    then have "advances s s'" using r(2) by (simp add: advances_def consumes_def)
    then show ?thesis using r(1) bits_value_below [of ?bs] n by simp
  next
    case False
    then obtain m s' where r: "?r = (Inl BITSTREAM_OVERFLOW, s')" "consumes m s s'" "m \<le> length (upcoming s)"
      using read_bits_loop_full [OF s, of n "0 :: 'a word"] by (auto simp: not_le)
    then have "advances s s'" by (auto simp: advances_def consumes_def upcoming_def)
    then show ?thesis using r(1) by simp
  qed
qed

lemma safely_read_bits:
  "safely (exi_bitstream_read_bits n) (\<lambda>v. n < 32 \<longrightarrow> v < 2 ^ n)"
proof (cases "n > 32")
  case False
  have "v < 2 ^ n" if "take_bit n v = v" "n < 32" for v :: "32 word"
    using that and_mask_less' [of n v] by (simp add: take_bit_eq_mask)
  then have "safely (read_bits_loop n (0 :: 32 word)) (\<lambda>v. n < 32 \<longrightarrow> v < 2 ^ n)"
    by (intro safely_mono [OF safely_read_bits_loop]) blast
  with False show ?thesis by (simp add: exi_bitstream_read_bits_def)
qed (simp add: exi_bitstream_read_bits_def safely_fail)

lemma safely_read_octet: "safely exi_bitstream_read_octet (\<lambda>v. True)"
  unfolding exi_bitstream_read_octet_def by (rule safely_mono [OF safely_read_bits_loop]) simp

lemma safely_header: "safely exi_header_read_and_check (\<lambda>v. True)"
  unfolding exi_header_read_and_check_def exi_header_read_def
  by (rule safely_bind [OF safely_read_bits]) (simp add: safely_return safely_fail)

text \<open>A new stream on an array.\<close>

definition sample_stream :: "8 word list \<Rightarrow> exi_bitstream" where
  "sample_stream d = exi_bitstream_init d (length d) 0"

lemma sample_stream_writable: "writable (sample_stream d)"
  by (simp add: sample_stream_def exi_bitstream_init_def writable_def stream_wf_def bit_pos_def capacity_def)

end
