(* ===== verification/Exi_Integers.thy ===== *)
theory Exi_Integers
  imports Exi_Base_Types Exi_Stream_Laws
begin

text \<open>
  The integers of the EXI codec. On the wire an unsigned integer is a sequence of octets with seven bits
  of the value each, the lowest first; the highest bit of an octet tells whether another one follows.
  The decoders yield exactly the value of such a sequence, or an error where it does not fit; the
  encoders and decoders of every width are inverse to each other.
\<close>

subsection \<open>Octets on the wire\<close>

definition wire :: "8 word list \<Rightarrow> bool list" where
  "wire octets = concat (map (bits_msb 8) octets)"

primrec groups_value :: "exi_unsigned \<Rightarrow> nat" where
  "groups_value [] = 0"
| "groups_value (b # octets) = unat (b AND 0x7F) + 128 * groups_value octets"

fun terminated :: "exi_unsigned \<Rightarrow> bool" where
  "terminated [] = False"
| "terminated [b] = (b AND 0x80 = 0)"
| "terminated (b # octets) = (b AND 0x80 \<noteq> 0 \<and> terminated octets)"

lemma wire_simps [simp]: "wire [] = []" "wire (b # octets) = bits_msb 8 b @ wire octets"
  by (simp_all add: wire_def)

lemma length_wire [simp]: "length (wire octets) = 8 * length octets"
  by (induction octets) simp_all

lemma writes_unsigned: "writes (exi_basetypes_encoder_write_unsigned octets) (wire octets)"
proof (induction octets)
  case (Cons b octets)
  then show ?case using writes_bind [OF writes_octet] by simp
qed (simp add: writes_return)

lemma reads_unsigned_loop:
  "terminated octets \<Longrightarrow> length octets \<le> n \<Longrightarrow> length acc + n \<le> EXI_BASETYPES_MAX_OCTETS_SUPPORTED \<Longrightarrow>
   reads (read_unsigned_loop n acc) (wire octets) (acc @ octets)"
proof (induction octets arbitrary: n acc rule: terminated.induct)
  case (2 b)
  then obtain m where "n = Suc m" by (cases n) auto
  with 2 show ?case
    using reads_bind [OF reads_octet, of "\<lambda>current_octet. if current_octet AND 0x80 = 0
        then exi_return (acc @ [current_octet]) else read_unsigned_loop m (acc @ [current_octet])"
        b "[]" "acc @ [b]"] reads_return [of "acc @ [b]"] by simp
next
  case (3 b c octets)
  then obtain m where m: "n = Suc m" by (cases n) auto
  have "reads (read_unsigned_loop m (acc @ [b])) (wire (c # octets)) ((acc @ [b]) @ c # octets)"
    using 3(1) [of m "acc @ [b]"] 3(2-4) m by simp
  then show ?case
    using 3(2,4) m reads_bind [OF reads_octet, of "\<lambda>current_octet. if current_octet AND 0x80 = 0
        then exi_return (acc @ [current_octet]) else read_unsigned_loop m (acc @ [current_octet])"
        b "wire (c # octets)" "acc @ b # c # octets"] by simp
qed simp

lemma reads_unsigned:
  "terminated octets \<Longrightarrow> length octets \<le> 29 \<Longrightarrow>
   reads exi_basetypes_decoder_read_unsigned (wire octets) octets"
  using reads_unsigned_loop [of octets 29 "[]"]
  by (simp add: exi_basetypes_decoder_read_unsigned_def EXI_BASETYPES_MAX_OCTETS_SUPPORTED_def)

subsection \<open>The octets of a word\<close>

lemma unat_and_mask: "unat (v AND mask n) = unat v mod 2 ^ n" for v :: "'a::len word"
  unfolding take_bit_eq_mask [symmetric] unsigned_take_bit_eq by (rule take_bit_eq_mod)

lemma mask_7: "(0x7F :: 8 word) = mask 7" "(0x7F :: 16 word) = mask 7" "(0x7F :: 64 word) = mask 7"
  by (simp_all add: mask_eq_exp_minus_1)

lemma unat_and_7F:
  "unat (b AND 0x7F) = unat b mod 128" "unat (t AND 0x7F) = unat t mod 128" "unat (v AND 0x7F) = unat v mod 128"
  for b :: "8 word" and t :: "16 word" and v :: "64 word"
  by (simp_all only: mask_7 unat_and_mask) simp_all

lemma octet_bits: "bit (0x7F :: 8 word) i \<longleftrightarrow> i < 7" "bit (0x80 :: 8 word) i \<longleftrightarrow> i = 7"
proof -
  show "bit (0x7F :: 8 word) i \<longleftrightarrow> i < 7" unfolding mask_7 bit_mask_iff by auto
  have "(0x80 :: 8 word) = 2 ^ 7" by simp
  then show "bit (0x80 :: 8 word) i \<longleftrightarrow> i = 7" by (simp only: bit_exp_iff) auto
qed

lemma flag_clear_iff: "b AND 0x80 = 0 \<longleftrightarrow> \<not> bit b 7" for b :: "8 word"
proof -
  have "(0x80 :: 8 word) = 2 ^ 7" by simp
  then show ?thesis by (simp only: and_exp_eq_0_iff_not_bit)
qed

lemma flag_set: "(b OR 0x80) AND 0x80 \<noteq> 0" "(b OR 0x80) AND 0x7F = b AND 0x7F" for b :: "8 word"
proof -
  show "(b OR 0x80) AND 0x80 \<noteq> 0" unfolding flag_clear_iff bit_or_iff octet_bits by simp
  show "(b OR 0x80) AND 0x7F = b AND 0x7F"
    by (rule bit_eqI) (simp only: bit_and_iff bit_or_iff octet_bits, auto)
qed

lemma unat_small_ucast: "unat v < 2 ^ LENGTH('b) \<Longrightarrow> unat (ucast v :: 'b::len word) = unat v" for v :: "'a::len word"
  by (simp add: unsigned_ucast_eq take_bit_nat_eq_self)

lemma group_octet:
  fixes v :: "64 word"
  defines "c \<equiv> ucast (v AND 0x7F) :: 8 word"
  shows "unat c = unat v mod 128" "unat (c AND 0x7F) = unat v mod 128" "c AND 0x80 = 0"
proof -
  show c: "unat c = unat v mod 128" unfolding c_def by (subst unat_small_ucast) (simp_all add: unat_and_7F)
  then show "unat (c AND 0x7F) = unat v mod 128" by (simp add: unat_and_7F)
  have "v AND 0x7F = take_bit 7 v" by (simp only: mask_7 take_bit_eq_mask)
  then have "\<not> bit c 7" unfolding c_def by (simp add: bit_ucast_iff bit_take_bit_iff)
  then show "c AND 0x80 = 0" by (simp add: flag_clear_iff)
qed

lemma unat_drop_7: "unat (drop_bit 7 v) = unat v div 128" for v :: "64 word"
  unfolding unat_drop_bit_eq by (simp only: drop_bit_eq_div) simp

lemma raw_unsigned_loop_ne: "raw_unsigned_loop (Suc n) v \<noteq> []"
  by (simp add: Let_def)

lemma raw_unsigned_loop_correct:
  "unat v < 128 ^ Suc n \<Longrightarrow>
   terminated (raw_unsigned_loop (Suc n) v) \<and> groups_value (raw_unsigned_loop (Suc n) v) = unat v \<and>
   length (raw_unsigned_loop (Suc n) v) \<le> Suc n"
proof (induction n arbitrary: v)
  case 0
  then have "drop_bit 7 v = 0" using unat_drop_7 [of v] by (simp add: unat_eq_0)
  then show ?case using 0 group_octet [of v] by (simp add: Let_def)
next
  case (Suc n)
  let ?c = "ucast (v AND 0x7F) :: 8 word" and ?d = "drop_bit 7 v"
  have v: "unat v = unat v mod 128 + 128 * unat ?d" using unat_drop_7 [of v] by simp
  show ?case
  proof (cases "?d = 0")
    case True
    then show ?thesis using v group_octet [of v] by (simp add: Let_def)
  next
    case False
    have "unat ?d < 128 ^ Suc n" using Suc.prems unat_drop_7 [of v] by (simp add: less_mult_imp_div_less)
    note IH = Suc.IH [OF this]
    have raw: "raw_unsigned_loop (Suc (Suc n)) v = (?c OR 0x80) # raw_unsigned_loop (Suc n) ?d"
      using False by (subst raw_unsigned_loop.simps(2)) (simp only: Let_def if_False)
    obtain x xs where x: "raw_unsigned_loop (Suc n) ?d = x # xs"
      using raw_unsigned_loop_ne [of n ?d] by (meson list.exhaust)
    show ?thesis using IH v group_octet [of v] unfolding raw x by (simp add: flag_set)
  qed
qed

lemma raw_unsigned_loop_length:
  "unat v < 128 ^ Suc m \<Longrightarrow> m \<le> n \<Longrightarrow> length (raw_unsigned_loop (Suc n) v) \<le> Suc m"
proof (induction n arbitrary: v m)
  case (Suc n)
  let ?d = "drop_bit 7 v"
  show ?case
  proof (cases "?d = 0")
    case False
    then obtain k where k: "m = Suc k" using Suc.prems(1) unat_drop_7 [of v] by (cases m) (auto simp: unat_eq_0)
    have "unat ?d < 128 ^ Suc k" using Suc.prems(1) unat_drop_7 [of v] by (simp add: k less_mult_imp_div_less)
    with Suc.IH [of ?d k] Suc.prems(2) k False show ?thesis
      by (subst raw_unsigned_loop.simps(2)) (simp only: Let_def if_False list.size, simp)
  qed (subst raw_unsigned_loop.simps(2), simp add: Let_def)
qed (simp add: Let_def)

lemma raw_unsigned:
  defines "raw \<equiv> exi_basetypes_encoder_raw_unsigned"
  shows "terminated (raw v)" "groups_value (raw v) = unat v" "length (raw v) \<le> 10"
    "unat v < 128 ^ Suc m \<Longrightarrow> m \<le> 9 \<Longrightarrow> length (raw v) \<le> Suc m"
proof -
  have "unat v < 2 ^ 64" using unsigned_less [of v, where 'a = nat] by simp
  then have "unat v < 128 ^ Suc 9" by simp
  from raw_unsigned_loop_correct [OF this] raw_unsigned_loop_length [of v m 9]
  show "terminated (raw v)" "groups_value (raw v) = unat v" "length (raw v) \<le> 10"
    "unat v < 128 ^ Suc m \<Longrightarrow> m \<le> 9 \<Longrightarrow> length (raw v) \<le> Suc m"
    unfolding raw_def exi_basetypes_encoder_raw_unsigned_def EXI_BASETYPES_UINT64_MAX_OCTETS_def
    by (simp_all only: eval_nat_numeral, simp_all)
qed

subsection \<open>The word of a sequence of octets\<close>

lemma or_push_bit_nat:
  fixes a :: nat
  assumes "a < 2 ^ m"
  shows "a OR push_bit m c = a + push_bit m c"
proof (rule disjunctive_add [symmetric])
  fix i
  have "take_bit m a = a" using assms by (rule take_bit_nat_eq_self)
  then have "bit a i \<Longrightarrow> i < m" by (metis bit_take_bit_iff)
  then show "\<not> bit a i \<or> \<not> bit (push_bit m c) i" by (auto simp: bit_push_bit_iff_nat)
qed

lemma fold_octet:
  fixes r :: "64 word"
  assumes "unat r < 2 ^ m" "unat r + 2 ^ m * unat (b AND 0x7F) < 2 ^ 64"
  shows "unat (r OR push_bit m (ucast (b AND 0x7F :: 8 word))) = unat r + 2 ^ m * unat (b AND 0x7F)"
proof -
  let ?x = "ucast (b AND 0x7F) :: 64 word"
  have x: "unat ?x = unat (b AND 0x7F)"
    using unsigned_less [of "b AND 0x7F", where 'a = nat] by (subst unat_small_ucast) simp_all
  have "unat (push_bit m ?x) = take_bit 64 (push_bit m (unat ?x))" by (simp add: unsigned_push_bit_eq)
  also have "\<dots> = push_bit m (unat ?x)"
    using assms(2) x by (intro take_bit_nat_eq_self) (simp add: push_bit_eq_mult mult.commute)
  finally show ?thesis
    using or_push_bit_nat [OF assms(1), of "unat (b AND 0x7F)"] x by (simp add: unsigned_or_eq push_bit_eq_mult mult.commute)
qed

lemma fold_octets_value:
  "unat r < 2 ^ (n * 7) \<Longrightarrow> unat r + 2 ^ (n * 7) * groups_value octets < 2 ^ 64 \<Longrightarrow>
   unat (fold_octets octets n r) = unat r + 2 ^ (n * 7) * groups_value octets"
proof (induction octets arbitrary: n r)
  case (Cons b octets)
  let ?m = "n * 7" and ?g = "unat (b AND 0x7F)"
  let ?r = "r OR push_bit ?m (ucast (b AND 0x7F))"
  have p: "2 ^ (Suc n * 7) = 128 * (2::nat) ^ ?m" by (simp add: power_add)
  have sum: "unat r + 2 ^ ?m * groups_value (b # octets) =
      unat r + 2 ^ ?m * ?g + 2 ^ (Suc n * 7) * groups_value octets"
    by (simp only: p groups_value.simps) (simp add: algebra_simps)
  then have "unat r + 2 ^ ?m * ?g < 2 ^ 64" using Cons.prems(2) by linarith
  from fold_octet [OF Cons.prems(1) this] have r: "unat ?r = unat r + 2 ^ ?m * ?g" .
  have "?g \<le> 127" using unat_and_7F(1) [of b] by simp
  then have "2 ^ ?m * ?g \<le> 2 ^ ?m * 127" by (rule mult_le_mono2)
  then have "unat ?r < 2 ^ (Suc n * 7)" using Cons.prems(1) unfolding r p by linarith
  then have "unat (fold_octets octets (Suc n) ?r) = unat ?r + 2 ^ (Suc n * 7) * groups_value octets"
    using Cons.prems(2) unfolding sum by (intro Cons.IH) (simp_all only: r)
  then show ?case unfolding sum by (simp add: r)
qed simp

lemma groups_value_bounds:
  "groups_value octets < 128 ^ length octets"
  "octets \<noteq> [] \<Longrightarrow> 128 ^ (length octets - 1) * unat (last octets AND 0x7F) \<le> groups_value octets"
proof -
  show "groups_value octets < 128 ^ length octets"
  proof (induction octets)
    case (Cons b octets)
    have "unat (b AND 0x7F) < 128" by (simp add: unat_and_7F)
    with Cons show ?case by simp
  qed simp
  show "octets \<noteq> [] \<Longrightarrow> 128 ^ (length octets - 1) * unat (last octets AND 0x7F) \<le> groups_value octets"
  proof (induction octets)
    case (Cons b octets)
    then show ?case by (cases octets) simp_all
  qed simp
qed

lemma groups_value_append:
  "groups_value (octets @ octets') = groups_value octets + 128 ^ length octets * groups_value octets'"
  by (induction octets) simp_all

text \<open>What the fold yields, for at most ten octets: the value where it is within the limit, else an error.\<close>

lemma fold_unsigned_exact:
  assumes "octets \<noteq> []" "max_octets \<le> 10"
  shows "exi_basetypes_decoder_fold_unsigned octets max_octets max_value =
    (if length octets > max_octets then Inl OCTET_COUNT_LARGER_THAN_TYPE_SUPPORTS
     else if groups_value octets \<le> unat max_value then Inr (word_of_nat (groups_value octets))
     else Inl ENCODED_INTEGER_SIZE_LARGER_THAN_DESTINATION)"
proof (cases "length octets > max_octets")
  case False
  let ?high = "length octets = 10 \<and> octets ! 9 AND 0x7F > 1"
  have limit: "unat max_value < 2 ^ 64" using unsigned_less [of max_value, where 'a = nat] by simp
  have nine: "128 ^ 9 = (2::nat) ^ 63" by simp
  show ?thesis
  proof (cases ?high)
    case True
    then have "last octets = octets ! 9" using assms(1) by (simp add: last_conv_nth)
    moreover have "2 \<le> unat (octets ! 9 AND 0x7F)" using True by (simp add: word_less_nat_alt)
    then have "2 ^ 63 * 2 \<le> 128 ^ (length octets - 1) * unat (octets ! 9 AND 0x7F)"
      using True by (intro mult_le_mono) simp_all
    ultimately have "2 ^ 64 \<le> groups_value octets" using groups_value_bounds(2) [OF assms(1)] by simp
    then show ?thesis using True False limit
      by (simp add: exi_basetypes_decoder_fold_unsigned_def EXI_BASETYPES_UINT64_MAX_OCTETS_def)
  next
    case low: False
    have g: "groups_value octets < 2 ^ 64"
    proof (cases "length octets = 10")
      case True
      then have o: "octets = take 9 octets @ [octets ! 9]" 
        using take_Suc_conv_app_nth [of 9 octets] take_all [of octets "Suc 9"] by simp
      have "unat (octets ! 9 AND 0x7F) \<le> 1" using True low by (simp add: word_less_nat_alt not_less)
      moreover have "groups_value (take 9 octets) < 2 ^ 63"
        using groups_value_bounds(1) [of "take 9 octets"] True nine by simp
      moreover have "groups_value octets = groups_value (take 9 octets) + 2 ^ 63 * unat (octets ! 9 AND 0x7F)"
        using groups_value_append [of "take 9 octets" "[octets ! 9]"] o True nine by simp
      ultimately show ?thesis by simp
    next
      case False
      then have "length octets \<le> 9" using \<open>\<not> length octets > max_octets\<close> assms(2) by simp
      then have "(128::nat) ^ length octets \<le> 128 ^ 9" by (rule power_increasing) simp
      with groups_value_bounds(1) [of octets] have "groups_value octets < 128 ^ 9" by (rule less_le_trans)
      then show ?thesis by simp
    qed
    then have f: "unat (fold_octets octets 0 0) = groups_value octets" using fold_octets_value [of 0 0 octets] by simp
    then have "fold_octets octets 0 0 = word_of_nat (groups_value octets)" by (metis of_nat_unat ucast_id)
    then show ?thesis using low False f
      by (auto simp: exi_basetypes_decoder_fold_unsigned_def EXI_BASETYPES_UINT64_MAX_OCTETS_def Let_def
          word_less_nat_alt)
  qed
qed (simp add: exi_basetypes_decoder_fold_unsigned_def)

subsection \<open>Decoders are exact\<close>

text \<open>The result for a sequence of octets on the wire, for a type with \<open>w\<close> bits.\<close>

definition decoded :: "nat \<Rightarrow> nat \<Rightarrow> exi_unsigned \<Rightarrow> exi_error + 'a::len word" where
  "decoded max_octets w octets =
     (if length octets > max_octets then Inl OCTET_COUNT_LARGER_THAN_TYPE_SUPPORTS
      else if groups_value octets < 2 ^ w then Inr (word_of_nat (groups_value octets))
      else Inl ENCODED_INTEGER_SIZE_LARGER_THAN_DESTINATION)"

lemma terminated_ne: "terminated octets \<Longrightarrow> octets \<noteq> []"
  by auto

lemma decode_uint_exact:
  assumes "terminated octets" "length octets \<le> 29" "stream_wf s" "upcoming s = wire octets @ rest"
    and "max_octets \<le> 10" "Suc (unat max_value) = 2 ^ w"
  shows "fst (decode_uint max_octets max_value s) = (decoded max_octets w octets :: _ + 'a::len word)"
proof -
  obtain t where t: "exi_basetypes_decoder_read_unsigned s = (Inr octets, t)"
    using readsD [OF reads_unsigned [OF assms(1,2)] assms(3,4)] by blast
  have "groups_value octets \<le> unat max_value \<longleftrightarrow> groups_value octets < 2 ^ w" using assms(6) by auto
  moreover have "ucast (word_of_nat (groups_value octets) :: 64 word) = (word_of_nat (groups_value octets) :: 'a word)"
    if "groups_value octets \<le> unat max_value"
  proof -
    have "groups_value octets < 2 ^ 64" using that unsigned_less [of max_value, where 'a = nat] by simp
    then show ?thesis by (simp add: unsigned_of_nat take_bit_nat_eq_self)
  qed
  ultimately show ?thesis
    using t fold_unsigned_exact [OF terminated_ne [OF assms(1)] assms(5), of max_value]
    by (simp add: decode_uint_def exi_bind_def exi_lift_def exi_return_def decoded_def)
qed

lemmas uint_decoder_defs = exi_basetypes_decoder_uint_8_def exi_basetypes_decoder_uint_16_def
  exi_basetypes_decoder_uint_32_def exi_basetypes_decoder_uint_64_def
  EXI_BASETYPES_UINT8_MAX_OCTETS_def EXI_BASETYPES_UINT16_MAX_OCTETS_def
  EXI_BASETYPES_UINT32_MAX_OCTETS_def EXI_BASETYPES_UINT64_MAX_OCTETS_def

lemma unat_max_64: "Suc (unat (- 1 :: 64 word)) = 2 ^ 64"
  by (simp add: unsigned_minus_1_eq_mask mask_eq_exp_minus_1)

text \<open>
  C30. Decoding an unsigned integer is exact, for every sequence of octets on the wire that ends within
  the 29 octets supported: the decoder of each width returns the value of the sequence if it uses no
  more octets than the width may need and the value fits into the width, and an error otherwise. No
  value is cut off, and redundant zero groups are accepted.
\<close>

theorem uint_decoding_exact:
  assumes "terminated octets" "length octets \<le> 29" "stream_wf s" "upcoming s = wire octets @ rest"
  shows "fst (exi_basetypes_decoder_uint_8 s) = decoded 2 8 octets \<and>
    fst (exi_basetypes_decoder_uint_16 s) = decoded 3 16 octets \<and>
    fst (exi_basetypes_decoder_uint_32 s) = decoded 5 32 octets \<and>
    fst (exi_basetypes_decoder_uint_64 s) = decoded 10 64 octets"
  unfolding uint_decoder_defs
  by (intro conjI decode_uint_exact [OF assms]) (simp_all add: unat_max_64)

subsection \<open>Round trips\<close>

lemma reads_lift: "reads (exi_lift (Inr v)) [] v"
  using reads_return [of v] by (simp add: reads_def exi_lift_def exi_return_def)

lemma reads_bind_eq:
  "reads f as v \<Longrightarrow> reads (g v) bs w \<Longrightarrow> cs = as @ bs \<Longrightarrow> reads (exi_bind f g) cs w"
  by (simp add: reads_bind)

lemma reads_bind_lift: "r = Inr v \<Longrightarrow> reads (g v) bs w \<Longrightarrow> reads (exi_bind (exi_lift r) g) bs w"
  using reads_bind [OF reads_lift, of g v bs w] by simp

text \<open>The octets of a word and what the decoders make of them.\<close>

lemma raw_fold:
  assumes "unat v < 128 ^ max_octets" "0 < max_octets" "max_octets \<le> 10" "v \<le> max_value"
  shows "exi_basetypes_decoder_fold_unsigned (exi_basetypes_encoder_raw_unsigned v) max_octets max_value = Inr v"
proof -
  have "length (exi_basetypes_encoder_raw_unsigned v) \<le> max_octets"
    using raw_unsigned(4) [of v "max_octets - 1"] assms(1-3) by (cases max_octets) simp_all
  moreover have "unat v \<le> unat max_value" using assms(4) by (simp add: word_le_nat_alt)
  ultimately show ?thesis
    using fold_unsigned_exact [OF terminated_ne [OF raw_unsigned(1)] assms(3), of v max_value]
    by (simp add: raw_unsigned(2))
qed

lemma reads_raw:
  "reads exi_basetypes_decoder_read_unsigned (wire (exi_basetypes_encoder_raw_unsigned v))
     (exi_basetypes_encoder_raw_unsigned v)"
  using raw_unsigned(1,3) [of v] by (intro reads_unsigned) simp_all

lemma ucast_up_down:
  fixes v :: "'a::len word"
  assumes "LENGTH('a) \<le> 64"
  shows "unat (ucast v :: 64 word) = unat v" "(ucast (ucast v :: 64 word) :: 'a word) = v"
proof -
  have "unat v < 2 ^ 64"
    using less_le_trans [OF unsigned_less [of v, where 'a = nat] power_increasing [OF assms, of 2]] by simp
  then show u: "unat (ucast v :: 64 word) = unat v" by (intro unat_small_ucast) simp
  show "(ucast (ucast v :: 64 word) :: 'a word) = v"
    by (intro word_unat_eq_iff [THEN iffD2]) (simp add: unat_small_ucast u unsigned_less)
qed

lemma reads_decode_uint:
  fixes v :: "'a::len word"
  assumes "unat v < 128 ^ max_octets" "0 < max_octets" "max_octets \<le> 10" "LENGTH('a) \<le> 64"
    and "unat v \<le> unat max_value"
  shows "reads (decode_uint max_octets max_value) (wire (exi_basetypes_encoder_raw_unsigned (ucast v))) v"
proof -
  let ?v = "ucast v :: 64 word"
  note u = ucast_up_down [OF assms(4), of v]
  have "exi_basetypes_decoder_fold_unsigned (exi_basetypes_encoder_raw_unsigned ?v) max_octets max_value = Inr ?v"
    using assms u by (intro raw_fold) (simp_all add: word_le_nat_alt)
  then show ?thesis
    unfolding decode_uint_def
    using reads_bind [OF reads_raw [of ?v], of "\<lambda>raw. exi_bind (exi_lift
        (exi_basetypes_decoder_fold_unsigned raw max_octets max_value)) (\<lambda>result. exi_return (ucast result))" "[]" v]
      reads_bind_lift [of _ ?v "\<lambda>result. exi_return (ucast result)" "[]" v] reads_return [of v] u(2)
    by simp
qed

lemma reads_nbit:
  "n \<le> 32 \<Longrightarrow> v < 2 ^ n \<or> n = 32 \<Longrightarrow> reads (exi_basetypes_decoder_nbit_uint n) (bits_msb n v) v"
  unfolding exi_basetypes_decoder_nbit_uint_def by (rule reads_bits)

lemma writes_nbit: "n \<le> 32 \<Longrightarrow> writes (exi_basetypes_encoder_nbit_uint n v) (bits_msb n v)"
  unfolding exi_basetypes_encoder_nbit_uint_def by (rule writes_bits)

lemma writes_bool: "writes (exi_basetypes_encoder_bool b) [b]"
  using writes_bits [of 1 1] writes_bits [of 1 0] by (cases b) (simp_all add: exi_basetypes_encoder_bool_def)

lemma reads_bool: "reads exi_basetypes_decoder_bool [b] b"
  unfolding exi_basetypes_decoder_bool_def
  using reads_bits [of 1 1] reads_bits [of 1 0]
  by (intro reads_bind_return [of _ _ "if b then 1 else 0"]) (cases b; simp)+

lemma reads_uint_8: "reads exi_basetypes_decoder_uint_8 (wire (exi_basetypes_encoder_raw_unsigned (ucast v))) v"
  using reads_decode_uint [of v 2 "0xFF"] unsigned_less [of v, where 'a = nat]
  by (simp add: uint_decoder_defs)

lemma reads_uint_16: "reads exi_basetypes_decoder_uint_16 (wire (exi_basetypes_encoder_raw_unsigned (ucast v))) v"
  using reads_decode_uint [of v 3 "0xFFFF"] unsigned_less [of v, where 'a = nat] by (simp add: uint_decoder_defs)

lemma reads_uint_32: "reads exi_basetypes_decoder_uint_32 (wire (exi_basetypes_encoder_raw_unsigned (ucast v))) v"
  using reads_decode_uint [of v 5 "0xFFFFFFFF"] unsigned_less [of v, where 'a = nat] by (simp add: uint_decoder_defs)

lemma reads_uint_64: "reads exi_basetypes_decoder_uint_64 (wire (exi_basetypes_encoder_raw_unsigned v)) v"
  using reads_decode_uint [of v 10 "- 1"] unsigned_less [of v, where 'a = nat] unat_max_64
  by (simp add: uint_decoder_defs)

subsection \<open>Signed integers\<close>

text \<open>The word that the encoder writes behind the sign, and what is below the limits of the decoder.\<close>

definition sign_magnitude :: "'a::len word \<Rightarrow> 'a word" where
  "sign_magnitude v = (if sint v < 0 then word_of_int (- sint v - 1) else v)"

lemma sign_magnitude_less: "unat (sign_magnitude v) < 2 ^ (LENGTH('a) - 1)" for v :: "'a::len word"
proof -
  define k where "k = (if sint v < 0 then - sint v - 1 else sint v)"
  have k: "sign_magnitude v = word_of_int k" by (simp add: sign_magnitude_def k_def)
  have r: "0 \<le> k" "k < 2 ^ (LENGTH('a) - 1)" using sint_ge [of v] sint_lt [of v] by (auto simp: k_def)
  have "(2::int) ^ (LENGTH('a) - 1) \<le> 2 ^ LENGTH('a)" by (rule power_increasing) simp_all
  then have "take_bit LENGTH('a) k = k" using r by (intro take_bit_int_eq_self) linarith+
  then have "uint (sign_magnitude v) = k" using r(1) by (simp add: k unsigned_of_int)
  then have "int (unat (sign_magnitude v)) = k" using r(1) by simp
  then have "int (unat (sign_magnitude v)) < int (2 ^ (LENGTH('a) - 1))" using r(2) by simp
  then show ?thesis by (simp only: of_nat_less_iff)
qed

lemma sign_magnitude_back: "(if sint v < 0 then - sign_magnitude v - 1 else sign_magnitude v) = v"
  by (simp add: sign_magnitude_def)

lemma reads_magnitude:
  assumes "unat v < 2 ^ 63" "unat v < 128 ^ max_octets" "0 < max_octets" "max_octets \<le> 10" "v \<le> max_magnitude"
  shows "reads (exi_basetypes_decoder_read_magnitude max_octets max_magnitude)
    (wire (exi_basetypes_encoder_raw_unsigned v)) v"
proof -
  let ?raw = "exi_basetypes_encoder_raw_unsigned v"
  have "length ?raw \<le> 9" using raw_unsigned(4) [of v 8] assms(1) by simp
  moreover have "length ?raw \<le> max_octets"
    using raw_unsigned(4) [of v "max_octets - 1"] assms(2-4) by (cases max_octets) simp_all
  ultimately show ?thesis
    unfolding exi_basetypes_decoder_read_magnitude_def
    using reads_bind [OF reads_raw [of v], of _ "[]" v] raw_fold [OF assms(2-5)] reads_lift [of v]
    by (auto simp: EXI_BASETYPES_UINT64_MAX_OCTETS_def)
qed

lemma reads_decode_integer:
  fixes v :: "'a::len word"
  assumes "2 ^ (LENGTH('a) - 1) \<le> (128::nat) ^ max_octets" "0 < max_octets" "max_octets \<le> 10"
    and "LENGTH('a) \<le> 64" "Suc (unat max_magnitude) = 2 ^ (LENGTH('a) - 1)"
  shows "reads (decode_integer max_octets max_magnitude)
    ((sint v < 0) # wire (exi_basetypes_encoder_raw_unsigned (ucast (sign_magnitude v)))) v"
proof -
  let ?x = "ucast (sign_magnitude v) :: 64 word"
  note u = ucast_up_down [OF assms(4), of "sign_magnitude v"] and l = sign_magnitude_less [of v]
  have "(2::nat) ^ (LENGTH('a) - 1) \<le> 2 ^ 63" using assms(4) by (intro power_increasing) simp_all
  then have "unat ?x < 2 ^ 63" using l u(1) by simp
  moreover have "unat ?x < 128 ^ max_octets" using less_le_trans [OF l assms(1)] u(1) by simp
  moreover have "?x \<le> max_magnitude" using l u(1) assms(5) by (simp add: word_le_nat_alt)
  ultimately have m: "reads (exi_basetypes_decoder_read_magnitude max_octets max_magnitude)
      (wire (exi_basetypes_encoder_raw_unsigned ?x)) ?x"
    using assms(2,3) by (intro reads_magnitude) simp_all
  have "reads (exi_bind (exi_basetypes_decoder_read_magnitude max_octets max_magnitude)
      (\<lambda>magnitude. exi_return (if sint v < 0 then - ucast magnitude - 1 else ucast magnitude)))
      (wire (exi_basetypes_encoder_raw_unsigned ?x)) v"
    by (rule reads_bind_return [OF m]) (simp only: u(2) sign_magnitude_back)
  then show ?thesis unfolding decode_integer_def by (rule reads_bind_eq [OF reads_bool]) simp
qed

lemma writes_encode_integer:
  assumes "\<And>v. writes (encode_uint v) (wire (exi_basetypes_encoder_raw_unsigned (ucast v)))"
  shows "writes (encode_integer encode_uint v)
    ((sint v < 0) # wire (exi_basetypes_encoder_raw_unsigned (ucast (sign_magnitude v))))"
  using writes_bind [OF writes_bool assms, of "sint v < 0" "sign_magnitude v"]
  by (simp add: encode_integer_def sign_magnitude_def)

subsection \<open>Codecs\<close>

lemmas uint_encoder_defs = exi_basetypes_encoder_uint_8_def exi_basetypes_encoder_uint_16_def
  exi_basetypes_encoder_uint_32_def exi_basetypes_encoder_uint_64_def

lemmas integer_defs = exi_basetypes_encoder_integer_8_def exi_basetypes_encoder_integer_16_def
  exi_basetypes_encoder_integer_32_def exi_basetypes_encoder_integer_64_def
  exi_basetypes_decoder_integer_8_def exi_basetypes_decoder_integer_16_def
  exi_basetypes_decoder_integer_32_def exi_basetypes_decoder_integer_64_def
  EXI_BASETYPES_UINT8_MAX_OCTETS_def EXI_BASETYPES_UINT16_MAX_OCTETS_def
  EXI_BASETYPES_UINT32_MAX_OCTETS_def EXI_BASETYPES_UINT64_MAX_OCTETS_def

definition unsigned_code :: "'a::len word \<Rightarrow> bool list" where
  "unsigned_code v = wire (exi_basetypes_encoder_raw_unsigned (ucast v))"

definition signed_code :: "'a::len word \<Rightarrow> bool list" where
  "signed_code v = (sint v < 0) # unsigned_code (sign_magnitude v)"

lemmas code_defs = unsigned_code_def signed_code_def

interpretation exi_bool: exi_codec exi_basetypes_encoder_bool exi_basetypes_decoder_bool "\<lambda>b. [b]" "\<lambda>b. True"
  by unfold_locales (rule writes_bool, rule reads_bool)

interpretation exi_uint_8: exi_codec exi_basetypes_encoder_uint_8 exi_basetypes_decoder_uint_8 unsigned_code "\<lambda>v. True"
  by unfold_locales (simp_all add: code_defs uint_encoder_defs writes_unsigned reads_uint_8)

interpretation exi_uint_16: exi_codec exi_basetypes_encoder_uint_16 exi_basetypes_decoder_uint_16 unsigned_code "\<lambda>v. True"
  by unfold_locales (simp_all add: code_defs uint_encoder_defs writes_unsigned reads_uint_16)

interpretation exi_uint_32: exi_codec exi_basetypes_encoder_uint_32 exi_basetypes_decoder_uint_32 unsigned_code "\<lambda>v. True"
  by unfold_locales (simp_all add: code_defs uint_encoder_defs writes_unsigned reads_uint_32)

interpretation exi_uint_64: exi_codec exi_basetypes_encoder_uint_64 exi_basetypes_decoder_uint_64 unsigned_code "\<lambda>v. True"
  by unfold_locales (simp_all add: code_defs uint_encoder_defs writes_unsigned reads_uint_64)

interpretation exi_integer_8:
  exi_codec exi_basetypes_encoder_integer_8 exi_basetypes_decoder_integer_8 signed_code "\<lambda>v. True"
  by unfold_locales (simp_all add: code_defs integer_defs writes_encode_integer reads_decode_integer
      uint_encoder_defs writes_unsigned)

interpretation exi_integer_16:
  exi_codec exi_basetypes_encoder_integer_16 exi_basetypes_decoder_integer_16 signed_code "\<lambda>v. True"
  by unfold_locales (simp_all add: code_defs integer_defs writes_encode_integer reads_decode_integer
      uint_encoder_defs writes_unsigned)

interpretation exi_integer_32:
  exi_codec exi_basetypes_encoder_integer_32 exi_basetypes_decoder_integer_32 signed_code "\<lambda>v. True"
  by unfold_locales (simp_all add: code_defs integer_defs writes_encode_integer reads_decode_integer
      uint_encoder_defs writes_unsigned)

lemma integer_64_code:
  "writes (exi_basetypes_encoder_integer_64 v) (signed_code v)"
  "reads exi_basetypes_decoder_integer_64 (signed_code v) v"
proof -
  have "writes (encode_integer exi_basetypes_encoder_uint_64 v) (signed_code v)"
    unfolding code_defs by (rule writes_encode_integer) (simp add: uint_encoder_defs writes_unsigned)
  then show "writes (exi_basetypes_encoder_integer_64 v) (signed_code v)" by (simp add: integer_defs)
  have "reads (decode_integer 10 0x7FFFFFFFFFFFFFFF) (signed_code v) v"
    unfolding code_defs by (rule reads_decode_integer) simp_all
  then show "reads exi_basetypes_decoder_integer_64 (signed_code v) v" by (simp add: integer_defs)
qed

interpretation exi_integer_64:
  exi_codec exi_basetypes_encoder_integer_64 exi_basetypes_decoder_integer_64 signed_code "\<lambda>v. True"
  by unfold_locales (rule integer_64_code)+

text \<open>What a decoder does behind an encoder: it gives back the value and stops where the encoder stopped.\<close>

definition restores :: "('a \<Rightarrow> unit exi) \<Rightarrow> 'a exi \<Rightarrow> exi_bitstream \<Rightarrow> 'a \<Rightarrow> bool" where
  "restores enc dec s v \<longleftrightarrow>
     (case enc v s of
        (Inl e, s') \<Rightarrow> e = BITSTREAM_OVERFLOW
      | (Inr _, s') \<Rightarrow> (case dec (rewind s s') of
            (Inl e, s'') \<Rightarrow> False
          | (Inr w, s'') \<Rightarrow> w = v \<and> bit_pos s'' = bit_pos s' \<and> data s'' = data s'))"

context exi_codec
begin

lemma restored:
  assumes "valid v" "writable s"
  shows "restores enc dec s v"
proof (cases "enc v s")
  case (Pair r s')
  show ?thesis
  proof (cases r)
    case (Inl e)
    then show ?thesis using enc_succeeds [OF assms] Pair by (simp add: restores_def split: if_splits)
  next
    case (Inr u)
    then show ?thesis using round_trip [OF assms, of s'] Pair by (auto simp: restores_def)
  qed
qed

end

text \<open>
  C31. Round trip of integers: for every width and every value, signed or unsigned, the decoder
  restores what the encoder has written and stops at the same position; the encoder fails only where
  the data has no room.
\<close>

theorem integers_restored:
  assumes "writable s"
  shows "restores exi_basetypes_encoder_uint_8 exi_basetypes_decoder_uint_8 s v8 \<and>
    restores exi_basetypes_encoder_uint_16 exi_basetypes_decoder_uint_16 s v16 \<and>
    restores exi_basetypes_encoder_uint_32 exi_basetypes_decoder_uint_32 s v32 \<and>
    restores exi_basetypes_encoder_uint_64 exi_basetypes_decoder_uint_64 s v64 \<and>
    restores exi_basetypes_encoder_integer_8 exi_basetypes_decoder_integer_8 s v8 \<and>
    restores exi_basetypes_encoder_integer_16 exi_basetypes_decoder_integer_16 s v16 \<and>
    restores exi_basetypes_encoder_integer_32 exi_basetypes_decoder_integer_32 s v32 \<and>
    restores exi_basetypes_encoder_integer_64 exi_basetypes_decoder_integer_64 s v64"
  using assms
  by (intro conjI exi_uint_8.restored exi_uint_16.restored exi_uint_32.restored exi_uint_64.restored
      exi_integer_8.restored exi_integer_16.restored exi_integer_32.restored exi_integer_64.restored) simp_all

subsection \<open>Witnesses\<close>

theorem uint_decoding_exact_witness:
  "fst (exi_basetypes_decoder_uint_8 (sample_stream [0x80, 0x02])) = Inl ENCODED_INTEGER_SIZE_LARGER_THAN_DESTINATION \<and>
   fst (exi_basetypes_decoder_uint_16 (sample_stream [0x80, 0x02])) = Inr 256"
proof -
  have "terminated [0x80, 0x02]" "groups_value [0x80, 0x02] = 256"
    "upcoming (sample_stream [0x80, 0x02]) = wire [0x80, 0x02] @ []" by code_simp+
  then show ?thesis
    using uint_decoding_exact [of "[0x80, 0x02]" "sample_stream [0x80, 0x02]" "[]"]
      writable_wf [OF sample_stream_writable] by (simp add: decoded_def)
qed

theorem integers_restored_witness:
  "restores exi_basetypes_encoder_integer_64 exi_basetypes_decoder_integer_64 (sample_stream (replicate 16 0)) (- 300) \<and>
   restores exi_basetypes_encoder_uint_8 exi_basetypes_decoder_uint_8 (sample_stream [0, 0]) 255"
  using integers_restored [OF sample_stream_writable] by blast

end
