(* ===== verification/Exi_Decoder_Safety.thy ===== *)
theory Exi_Decoder_Safety
  imports Exi_Base_Types Exi_Stream_Laws
begin

text \<open>
  The decoders of the base types on arbitrary data: none of them leaves an array, each reads forward
  within the data, and the sizes of the results are within the limits of the callers.
\<close>

lemma safely_True: "safely g P \<Longrightarrow> safely g (\<lambda>v. True)"
  by (rule safely_mono) simp_all

lemma safely_lift:
  "(case r of Inl e \<Rightarrow> e \<noteq> Undefined_Behaviour | Inr v \<Rightarrow> P v) \<Longrightarrow> safely (exi_lift r) P"
  by (auto simp: safely_def exi_lift_def advances_refl split: sum.splits)

lemma safely_bind_True: "safely f (\<lambda>v. True) \<Longrightarrow> (\<And>v. safely (g v) Q) \<Longrightarrow> safely (exi_bind f g) Q"
  by (rule safely_bind)

lemma safely_nbit: "safely (exi_basetypes_decoder_nbit_uint n) (\<lambda>v. n < 32 \<longrightarrow> v < 2 ^ n)"
  unfolding exi_basetypes_decoder_nbit_uint_def by (rule safely_read_bits)

lemmas safely_nbit_True = safely_True [OF safely_nbit]

lemma safely_bool: "safely exi_basetypes_decoder_bool (\<lambda>v. True)"
  unfolding exi_basetypes_decoder_bool_def
  by (rule safely_bind_True [OF safely_True [OF safely_read_bits]]) (simp add: safely_return)

subsection \<open>Integers\<close>

lemma safely_unsigned_loop:
  "length acc + n \<le> EXI_BASETYPES_MAX_OCTETS_SUPPORTED \<Longrightarrow>
   safely (read_unsigned_loop n acc) (\<lambda>octets. length octets \<le> length acc + n)"
proof (induction n arbitrary: acc)
  case (Suc n)
  have "safely (read_unsigned_loop n (acc @ [b])) (\<lambda>octets. length octets \<le> length acc + Suc n)" for b
    using Suc.IH [of "acc @ [b]"] Suc.prems by simp
  then show ?case using Suc.prems by (auto intro!: safely_bind_True [OF safely_read_octet] safely_return)
qed (simp add: safely_fail)

lemma safely_read_unsigned: "safely exi_basetypes_decoder_read_unsigned (\<lambda>octets. length octets \<le> 29)"
  using safely_unsigned_loop [of "[]" 29]
  by (simp add: exi_basetypes_decoder_read_unsigned_def EXI_BASETYPES_MAX_OCTETS_SUPPORTED_def)

lemma safely_fold:
  "safely (exi_lift (exi_basetypes_decoder_fold_unsigned raw max_octets max_value)) (\<lambda>v. v \<le> max_value)"
  by (rule safely_lift) (simp add: exi_basetypes_decoder_fold_unsigned_def Let_def not_less)

lemma safely_uint: "safely (decode_uint max_octets max_value) (\<lambda>v. True)"
  unfolding decode_uint_def
  by (intro safely_bind_True [OF safely_True [OF safely_read_unsigned]]
      safely_bind_True [OF safely_True [OF safely_fold]] safely_return TrueI)

lemma safely_magnitude:
  "safely (exi_basetypes_decoder_read_magnitude max_octets max_magnitude) (\<lambda>v. v \<le> max_magnitude)"
  unfolding exi_basetypes_decoder_read_magnitude_def
  by (rule safely_bind_True [OF safely_True [OF safely_read_unsigned]]) (simp add: safely_fail safely_fold)

lemma safely_integer: "safely (decode_integer max_octets max_magnitude) (\<lambda>v. True)"
  unfolding decode_integer_def
  by (intro safely_bind_True [OF safely_bool] safely_bind_True [OF safely_True [OF safely_magnitude]]
      safely_return TrueI)

text \<open>Integers of any size: the bytes fit into the array.\<close>

lemma length_reverse_loop: "length (reverse_loop d i j) = length d"
  by (induction d i j rule: reverse_loop.induct) (subst reverse_loop.simps, simp)

lemma length_reverse_array: "length (reverse_array d) = length d"
  by (simp add: reverse_array_def length_reverse_loop)

lemma bytes_from_unsigned_safe:
  "length d \<le> sz \<Longrightarrow> sz \<le> array_size \<Longrightarrow>
   case bytes_from_unsigned_loop array_size sz octets temp total_offset d of
     Inl e \<Rightarrow> e \<noteq> Undefined_Behaviour | Inr v \<Rightarrow> length v \<le> sz"
proof (induction array_size sz octets temp total_offset d rule: bytes_from_unsigned_loop.induct)
  case (1 array_size sz temp total_offset d)
  then show ?case by (simp add: length_reverse_array)
next
  case (2 array_size sz b octets temp total_offset d)
  then show ?case by (simp add: Let_def)
qed

lemma safely_from_unsigned:
  "safely (exi_lift (exi_basetypes_convert_bytes_from_unsigned raw EXI_BASETYPES_MAX_OCTETS_SUPPORTED
       EXI_BASETYPES_MAX_OCTETS_SUPPORTED)) (\<lambda>octets. length octets \<le> 29)"
  unfolding exi_basetypes_convert_bytes_from_unsigned_def EXI_BASETYPES_MAX_OCTETS_SUPPORTED_def
  by (intro safely_lift bytes_from_unsigned_safe) simp_all

lemma safely_decoder_unsigned: "safely exi_basetypes_decoder_unsigned (\<lambda>octets. length octets \<le> 29)"
  unfolding exi_basetypes_decoder_unsigned_def
  by (intro safely_bind_True [OF safely_True [OF safely_read_unsigned]] safely_bind [OF safely_from_unsigned]
      safely_return) (simp add: significant_def)

lemma safely_decoder_signed: "safely exi_basetypes_decoder_signed (\<lambda>v. length (sgn_data v) \<le> 29)"
  unfolding exi_basetypes_decoder_signed_def
  by (intro safely_bind_True [OF safely_bool] safely_bind_True [OF safely_True [OF safely_read_unsigned]]
      safely_bind [OF safely_from_unsigned] safely_return) simp

subsection \<open>Bytes, characters and simple elements\<close>

lemma safely_bytes_loop:
  "length acc + n \<le> array_size \<Longrightarrow> safely (decode_bytes_loop array_size n acc) (\<lambda>v. length v = length acc + n)"
proof (induction n arbitrary: acc)
  case (Suc n)
  have "safely (decode_bytes_loop array_size n (acc @ [b])) (\<lambda>v. length v = length acc + Suc n)" for b
    using Suc.IH [of "acc @ [b]"] Suc.prems by simp
  then show ?case using Suc.prems by (auto intro!: safely_bind_True [OF safely_read_octet])
qed (simp add: safely_return)

lemma safely_bytes:
  assumes "bytes_size \<le> array_size"
  shows "safely (exi_basetypes_decoder_bytes bytes_len array_size bytes_size)
    (\<lambda>v. length v = bytes_len \<and> length v \<le> bytes_size)"
proof -
  have "safely (decode_bytes_loop array_size bytes_len []) (\<lambda>v. length v = bytes_len \<and> length v \<le> bytes_size)"
    if "\<not> bytes_len > bytes_size"
    using that assms by (intro safely_mono [OF safely_bytes_loop]) simp_all
  then show ?thesis unfolding exi_basetypes_decoder_bytes_def by (simp add: safely_fail)
qed

lemma safely_characters_loop:
  "length acc + n < array_size \<Longrightarrow> \<forall>c\<in>set acc. c \<le> 127 \<Longrightarrow> safely (decode_characters_loop array_size n acc)
     (\<lambda>v. length v = length acc + n \<and> (\<forall>c\<in>set v. c \<le> 127))"
proof (induction n arbitrary: acc)
  case (Suc n)
  have "safely (decode_characters_loop array_size n (acc @ [b]))
      (\<lambda>v. length v = length acc + Suc n \<and> (\<forall>c\<in>set v. c \<le> 127))" if "\<not> b > 127" for b
    using Suc.IH [of "acc @ [b]"] Suc.prems that by (simp add: not_less)
  moreover have "length acc < array_size" using Suc.prems(1) by simp
  ultimately show ?case
    unfolding decode_characters_loop.simps store_at_within [OF \<open>length acc < array_size\<close>]
    by (intro safely_bind_True [OF safely_read_octet]) (simp add: safely_fail)
qed (simp add: safely_return)

lemma safely_characters:
  assumes "characters_size \<le> array_size"
  shows "safely (exi_basetypes_decoder_characters characters_len array_size characters_size)
    (\<lambda>v. length v = characters_len \<and> length v < characters_size \<and> (\<forall>c\<in>set v. c \<le> 127))"
proof -
  have "safely (decode_characters_loop array_size characters_len [])
      (\<lambda>v. length v = characters_len \<and> length v < characters_size \<and> (\<forall>c\<in>set v. c \<le> 127))"
    if "\<not> characters_len + EXTRA_CHAR > characters_size"
    using that assms by (intro safely_mono [OF safely_characters_loop]) (simp_all add: EXTRA_CHAR_def)
  then show ?thesis unfolding exi_basetypes_decoder_characters_def by (simp add: safely_fail)
qed

lemma safely_simple_element:
  assumes "safely d P"
  shows "safely (decode_simple_element d) P"
proof -
  have "safely (exi_bind (exi_basetypes_decoder_nbit_uint 1)
      (\<lambda>eventCode. if eventCode \<noteq> 0 then exi_fail DEVIANTS_NOT_SUPPORTED else exi_return v)) P" if "P v" for v
    using that by (intro safely_bind_True [OF safely_nbit_True]) (simp add: safely_fail safely_return)
  then show ?thesis
    unfolding decode_simple_element_def
    by (intro safely_bind_True [OF safely_nbit_True]) (simp add: safely_fail safely_bind [OF assms])
qed

lemma safely_hex_binary:
  "value_buffer_size \<le> array_size \<Longrightarrow>
   safely (decode_exi_type_hex_binary array_size value_buffer_size) (\<lambda>v. length v \<le> value_buffer_size)"
  unfolding decode_exi_type_hex_binary_def exi_basetypes_decoder_uint_16_def
  by (intro safely_simple_element safely_bind_True [OF safely_uint] safely_mono [OF safely_bytes]) simp_all

end
