(* ===== verification/App_Handshake_Properties.thy ===== *)
theory App_Handshake_Properties
  imports App_Handshake Exi_Integers Exi_Decoder_Safety
begin

text \<open>
  The messages that the encoder of the handshake accepts are restored by the decoder, and whatever data
  the decoder is given, it stays within its arrays and yields such a message or an error.
\<close>

subsection \<open>Messages\<close>

definition valid_protocol :: "appHand_AppProtocolType \<Rightarrow> bool" where
  "valid_protocol p \<longleftrightarrow> length (ProtocolNamespace p) < 100 \<and> (\<forall>c\<in>set (ProtocolNamespace p). c \<le> 127) \<and>
     1 \<le> Priority p \<and> Priority p \<le> 32"

fun valid_document :: "appHand_exiDocument \<Rightarrow> bool" where
  "valid_document (supportedAppProtocolReq_isUsed req) =
     (req \<noteq> [] \<and> length req \<le> 5 \<and> (\<forall>p\<in>set req. valid_protocol p))"
| "valid_document (supportedAppProtocolRes_isUsed res) = (ResponseCode res < 4)"
| "valid_document init_appHand_exiDocument = False"

text \<open>The bits of a message.\<close>

definition content_code :: "bool list \<Rightarrow> bool list" where
  "content_code bs = False # bs @ [False]"

definition namespace_code :: "8 word list \<Rightarrow> bool list" where
  "namespace_code cs = unsigned_code (word_of_nat (length cs + 2) :: 16 word) @ wire cs"

definition protocol_code :: "appHand_AppProtocolType \<Rightarrow> bool list" where
  "protocol_code p =
     (False # content_code (namespace_code (ProtocolNamespace p))) @
     (False # content_code (unsigned_code (VersionNumberMajor p))) @
     (False # content_code (unsigned_code (VersionNumberMinor p))) @
     (False # content_code (bits_msb 8 (ucast (SchemaID p) :: 32 word))) @
     (False # content_code (bits_msb 5 (ucast (Priority p) - 1 :: 32 word))) @ [False]"

primrec protocols_code :: "appHand_AppProtocolType list \<Rightarrow> bool list" where
  "protocols_code [] = [False, True]"
| "protocols_code (p # ps) = [False, False] @ protocol_code p @ protocols_code ps"

fun document_code :: "appHand_exiDocument \<Rightarrow> bool list" where
  "document_code (supportedAppProtocolReq_isUsed req) =
     bits_msb 8 (0x80 :: 32 word) @ [False, False] @ [False] @ protocol_code (hd req) @ protocols_code (tl req)"
| "document_code (supportedAppProtocolRes_isUsed res) =
     bits_msb 8 (0x80 :: 32 word) @ [False, True] @ (False # content_code (bits_msb 2 (ResponseCode res))) @
     (case res_SchemaID res of
        Some i \<Rightarrow> [False, False] @ content_code (bits_msb 8 (ucast i :: 32 word)) @ [False]
      | None \<Rightarrow> [False, True])"
| "document_code init_appHand_exiDocument = []"

subsection \<open>Encoding\<close>

lemma bits_msb_1: "bits_msb 1 v = [bit v 0]"
  by simp

lemma bits_msb_2: "bits_msb 2 v = [bit v 1, bit v 0]"
  by (simp add: numeral_2_eq_2)

lemma writes_bind_eq:
  "writes f as \<Longrightarrow> writes g bs \<Longrightarrow> cs = as @ bs \<Longrightarrow> writes (exi_bind f (\<lambda>_. g)) cs"
  by (simp add: writes_bind)

lemma writes_events:
  "writes (exi_basetypes_encoder_nbit_uint 1 0) [False]"
  "writes (exi_basetypes_encoder_nbit_uint 2 0) [False, False]"
  "writes (exi_basetypes_encoder_nbit_uint 2 1) [False, True]"
  using writes_nbit [of 1 0] writes_nbit [of 2 0] writes_nbit [of 2 1] by (simp_all add: bits_msb_2)

lemma writes_content: "writes f bs \<Longrightarrow> writes (encode_content f) (content_code bs)"
  unfolding encode_content_def content_code_def
  by (rule writes_bind_eq [OF writes_events(1) writes_bind_eq [OF _ writes_events(1)]]) simp_all

lemma writes_element: "writes f bs \<Longrightarrow> writes (encode_element f) (False # content_code bs)"
  unfolding encode_element_def by (rule writes_bind_eq [OF writes_events(1) writes_content]) simp_all

lemma writes_characters:
  "\<forall>c\<in>set cs. c \<le> 127 \<Longrightarrow> length cs \<le> characters_size \<Longrightarrow>
   writes (exi_basetypes_encoder_characters (length cs) cs characters_size) (wire cs)"
proof -
  have "\<forall>c\<in>set cs. c \<le> 127 \<Longrightarrow> writes (encode_characters_loop (length cs) cs) (wire cs)"
  proof (induction cs)
    case (Cons c cs)
    then show ?case using writes_bind [OF writes_octet, of _ "wire cs" c] by (auto simp: not_less)
  qed (simp add: writes_return)
  then show "\<forall>c\<in>set cs. c \<le> 127 \<Longrightarrow> length cs \<le> characters_size \<Longrightarrow> ?thesis"
    by (simp add: exi_basetypes_encoder_characters_def)
qed

lemma writes_protocol:
  assumes "valid_protocol p"
  shows "writes (encode_appHand_AppProtocolType p) (protocol_code p)"
proof -
  have "writes (exi_basetypes_encoder_characters (length (ProtocolNamespace p)) (ProtocolNamespace p) 100)
      (wire (ProtocolNamespace p))"
    using assms by (intro writes_characters) (auto simp: valid_protocol_def)
  note ns = writes_bind [OF exi_uint_16.enc_writes [OF TrueI] this]
  show ?thesis
    unfolding encode_appHand_AppProtocolType_def protocol_code_def namespace_code_def
      appHand_ProtocolNamespace_CHARACTER_SIZE_def
    by (intro writes_bind writes_element ns exi_uint_32.enc_writes TrueI writes_nbit writes_events) simp_all
qed

lemma writes_protocols:
  "\<forall>p\<in>set ps. valid_protocol p \<Longrightarrow> n + length ps \<le> 5 \<Longrightarrow> writes (encode_protocols n ps) (protocols_code ps)"
proof (induction ps arbitrary: n)
  case (Cons p ps)
  then have "writes (encode_protocols (n + 1) ps) (protocols_code ps)" by simp
  then have "writes (exi_bind (encode_appHand_AppProtocolType p) (\<lambda>_. encode_protocols (n + 1) ps))
      (protocol_code p @ protocols_code ps)"
    using Cons.prems by (intro writes_bind writes_protocol) simp_all
  from writes_bind [OF writes_events(2) this] show ?case
    using Cons.prems(2) by (simp add: appHand_AppProtocolType_5_ARRAY_SIZE_def)
qed (simp add: writes_events)

lemma writes_header: "writes exi_header_write (bits_msb 8 (0x80 :: 32 word))"
  using writes_bits [of 8 "0x80"]
  by (simp add: exi_header_write_def EXI_SIMPLE_HEADER_BIT_SIZE_def EXI_SIMPLE_HEADER_VALUE_def)

lemma writes_document:
  assumes "valid_document d"
  shows "writes (encode_appHand_exiDocument d) (document_code d)"
proof (cases d)
  case (supportedAppProtocolReq_isUsed req)
  then obtain p ps where req: "req = p # ps" using assms by (cases req) auto
  then show ?thesis
    using supportedAppProtocolReq_isUsed assms
    unfolding encode_appHand_exiDocument_def encode_appHand_supportedAppProtocolReq_def
    by (auto simp del: append.simps One_nat_def intro!: writes_bind writes_header writes_events writes_protocol writes_protocols)
next
  case (supportedAppProtocolRes_isUsed res)
  then show ?thesis
    unfolding encode_appHand_exiDocument_def encode_appHand_supportedAppProtocolRes_def
    by (cases "res_SchemaID res")
      (auto simp del: append.simps One_nat_def intro!: writes_bind writes_header writes_events writes_element writes_content writes_nbit)
qed (use assms in simp)

subsection \<open>Decoding\<close>

lemma reads_nbit_bind:
  assumes "n \<le> 32" "v < 2 ^ n \<or> n = 32" "reads (g v) bs w" "cs = bits_msb n v @ bs"
  shows "reads (exi_bind (exi_basetypes_decoder_nbit_uint n) g) cs w"
  using assms(3,4) by (rule reads_bind_eq [OF reads_nbit [OF assms(1,2)]])

lemma reads_event: "reads d bs v \<Longrightarrow> reads (decode_event d) (False # bs) v"
  unfolding decode_event_def by (rule reads_nbit_bind [of 1 0]) simp_all

lemma reads_content:
  assumes "reads d bs v"
  shows "reads (decode_simple_element d) (content_code bs) v"
proof -
  let ?close = "\<lambda>eventCode :: 32 word. if eventCode \<noteq> 0 then exi_fail DEVIANTS_NOT_SUPPORTED else exi_return v"
  have "reads (exi_bind (exi_basetypes_decoder_nbit_uint 1) ?close) [False] v"
    by (rule reads_nbit_bind [of 1 0 _ "[]"]) (simp_all add: reads_return)
  then show ?thesis
    unfolding decode_simple_element_def content_code_def
    by (intro reads_nbit_bind [of 1 0 _ "bs @ [False]"]) (auto simp: bits_msb_1 simp del: One_nat_def intro: reads_bind [OF assms])
qed

lemma reads_nbit_content:
  "n \<le> 32 \<Longrightarrow> v < 2 ^ n \<or> n = 32 \<Longrightarrow> w = h v \<Longrightarrow>
   reads (decode_simple_element (exi_bind (exi_basetypes_decoder_nbit_uint n) (\<lambda>v. exi_return (h v))))
     (content_code (bits_msb n v)) w"
  by (intro reads_content reads_bind_return [OF reads_nbit]) simp_all

lemma reads_characters_loop:
  "\<forall>c\<in>set cs. c \<le> 127 \<Longrightarrow> length acc + length cs < array_size \<Longrightarrow>
   reads (decode_characters_loop array_size (length cs) acc) (wire cs) (acc @ cs)"
proof (induction cs arbitrary: acc)
  case (Cons c cs)
  then have "reads (decode_characters_loop array_size (length cs) (acc @ [c])) (wire cs) (acc @ c # cs)"
    using Cons.IH [of "acc @ [c]"] by simp
  then show ?case using Cons.prems by (auto intro!: reads_bind [OF reads_octet] simp: not_less [symmetric])
qed (simp add: reads_return)

lemma reads_characters:
  "\<forall>c\<in>set cs. c \<le> 127 \<Longrightarrow> length cs < characters_size \<Longrightarrow> characters_size \<le> array_size \<Longrightarrow>
   reads (exi_basetypes_decoder_characters (length cs) array_size characters_size) (wire cs) cs"
  using reads_characters_loop [of cs "[]" array_size]
  by (simp add: exi_basetypes_decoder_characters_def EXTRA_CHAR_def)

lemma reads_namespace:
  assumes "length cs < 100" "\<forall>c\<in>set cs. c \<le> 127"
  shows "reads decode_namespace (namespace_code cs) cs"
proof -
  let ?n = "word_of_nat (length cs + 2) :: 16 word"
  have u: "unat ?n = length cs + 2" using assms(1) by (simp only: unsigned_of_nat) (simp add: take_bit_nat_eq_self)
  then have two: "2 \<le> ?n" by (simp only: word_le_nat_alt) simp
  then have "unat (?n - 2) = length cs" using u by (simp only: unat_sub) simp
  then have "reads (exi_basetypes_decoder_characters (unat (?n - 2)) 100 100) (wire cs) cs"
    using reads_characters [OF assms(2), of 100 100] assms(1) by simp
  then show ?thesis
    unfolding decode_namespace_def namespace_code_def appHand_ProtocolNamespace_CHARACTER_SIZE_def
    using two by (intro reads_bind [OF exi_uint_16.dec_reads [OF TrueI]]) simp
qed

lemma priority_bits:
  fixes p :: "8 word"
  assumes "1 \<le> p" "p \<le> 32"
  shows "ucast p - 1 < (2 ^ 5 :: 32 word)" "ucast (ucast p - 1 + 1 :: 32 word) = p"
proof -
  have u: "unat (ucast p :: 32 word) = unat p"
    using unsigned_less [of p, where 'a = nat] by (intro unat_small_ucast) simp
  have b: "1 \<le> unat p" "unat p \<le> 32" using assms by (simp_all add: word_le_nat_alt)
  then have "(1 :: 32 word) \<le> ucast p" by (simp add: word_le_nat_alt u)
  then have "unat (ucast p - 1 :: 32 word) = unat p - 1" using u by (simp add: unat_sub)
  then show "ucast p - 1 < (2 ^ 5 :: 32 word)" using b by (simp add: word_less_nat_alt)
  show "ucast (ucast p - 1 + 1 :: 32 word) = p"
    using unsigned_less [of p, where 'a = nat]
    by (intro word_unat_eq_iff [THEN iffD2]) (simp add: unat_small_ucast u)
qed

lemma byte_bits_32: "ucast (i :: 8 word) < (2 ^ 8 :: 32 word)" "(ucast (ucast i :: 32 word) :: 8 word) = i"
proof -
  have u: "unat (ucast i :: 32 word) = unat i" "unat i < 256"
    using unsigned_less [of i, where 'a = nat] by (simp_all add: unat_small_ucast)
  then show "ucast i < (2 ^ 8 :: 32 word)" by (simp add: word_less_nat_alt)
  show "(ucast (ucast i :: 32 word) :: 8 word) = i"
    using u by (intro word_unat_eq_iff [THEN iffD2]) (simp add: unat_small_ucast)
qed

lemma reads_uint32_content: "reads decode_exi_type_uint32 (content_code (unsigned_code v)) v"
  unfolding decode_exi_type_uint32_def by (intro reads_content exi_uint_32.dec_reads TrueI)

lemma protocol_eta:
  "\<lparr>ProtocolNamespace = ProtocolNamespace p, VersionNumberMajor = VersionNumberMajor p,
    VersionNumberMinor = VersionNumberMinor p, SchemaID = SchemaID p, Priority = Priority p\<rparr> = p"
  "res_SchemaID r = i \<Longrightarrow> \<lparr>ResponseCode = ResponseCode r, res_SchemaID = i\<rparr> = r"
  by (cases p, simp) (cases r, simp)

lemma reads_protocol:
  assumes "valid_protocol p"
  shows "reads decode_appHand_AppProtocolType (protocol_code p) p"
proof -
  have p: "length (ProtocolNamespace p) < 100" "\<forall>c\<in>set (ProtocolNamespace p). c \<le> 127"
    "1 \<le> Priority p" "Priority p \<le> 32" using assms by (auto simp: valid_protocol_def)
  have s: "SchemaID p = ucast (ucast (SchemaID p) :: 32 word)"
    and r: "Priority p = ucast (ucast (Priority p) - 1 + 1 :: 32 word)"
    by (simp_all only: byte_bits_32 priority_bits [OF p(3,4)])
  have schema: "reads (decode_simple_element
      (exi_bind (exi_basetypes_decoder_nbit_uint 8) (\<lambda>v. exi_return (ucast v))))
      (content_code (bits_msb 8 (ucast (SchemaID p) :: 32 word))) (SchemaID p)"
    by (rule reads_nbit_content [OF _ disjI1 [OF byte_bits_32(1)]]) (simp, rule s)
  have priority: "reads (decode_simple_element
      (exi_bind (exi_basetypes_decoder_nbit_uint 5) (\<lambda>v. exi_return (ucast (v + 1)))))
      (content_code (bits_msb 5 (ucast (Priority p) - 1 :: 32 word))) (Priority p)"
    by (rule reads_nbit_content [OF _ disjI1 [OF priority_bits(1) [OF p(3,4)]]]) (simp, rule r)
  note steps = reads_event [OF reads_content [OF reads_namespace [OF p(1,2)]]]
    reads_event [OF reads_uint32_content [of "VersionNumberMajor p"]]
    reads_event [OF reads_uint32_content [of "VersionNumberMinor p"]]
    reads_event [OF schema] reads_event [OF priority]
  show ?thesis
    unfolding decode_appHand_AppProtocolType_def protocol_code_def
    by (rule reads_bind [OF steps(1)] reads_bind [OF steps(2)] reads_bind [OF steps(3)] reads_bind [OF steps(4)]
        reads_bind [OF steps(5)] reads_event | simp add: protocol_eta reads_return)+
qed

lemma reads_protocols:
  "\<forall>p\<in>set ps. valid_protocol p \<Longrightarrow> length acc + length ps \<le> 5 \<Longrightarrow>
   reads (decode_protocols acc) (protocols_code ps) (acc @ ps)"
proof (induction ps arbitrary: acc)
  case Nil
  show ?case
    by (subst decode_protocols.simps, rule reads_nbit_bind [of 2 1 _ "[]"]) (simp_all add: bits_msb_2 reads_return)
next
  case (Cons p ps)
  then have "reads (decode_protocols (acc @ [p])) (protocols_code ps) (acc @ p # ps)"
    using Cons.IH [of "acc @ [p]"] by simp
  moreover have "reads decode_appHand_AppProtocolType (protocol_code p) p"
    using Cons.prems(1) by (simp add: reads_protocol)
  ultimately have "reads (exi_bind decode_appHand_AppProtocolType (\<lambda>p. decode_protocols (acc @ [p])))
      (protocol_code p @ protocols_code ps) (acc @ p # ps)" by (intro reads_bind)
  then show ?case using Cons.prems(2)
    by (subst decode_protocols.simps, intro reads_nbit_bind [of 2 0 _ "protocol_code p @ protocols_code ps"])
      (simp_all add: bits_msb_2 appHand_AppProtocolType_5_ARRAY_SIZE_def)
qed

lemma reads_header: "reads exi_header_read_and_check (bits_msb 8 (0x80 :: 32 word)) ()"
  unfolding exi_header_read_and_check_def exi_header_read_def EXI_SIMPLE_HEADER_BIT_SIZE_def
  by (rule reads_bind_eq [OF reads_bits, of 8 "0x80" _ "[]"])
    (simp_all add: EXI_SIMPLE_HEADER_VALUE_def reads_return)

lemma reads_req:
  assumes "req \<noteq> []" "length req \<le> 5" "\<forall>p\<in>set req. valid_protocol p"
  shows "reads decode_appHand_supportedAppProtocolReq
    ([False] @ protocol_code (hd req) @ protocols_code (tl req)) req"
proof -
  obtain p ps where req: "req = p # ps" using assms(1) by (cases req) auto
  have "reads (decode_protocols [p]) (protocols_code ps) req"
    using reads_protocols [of ps "[p]"] assms(2,3) req by simp
  then have "reads (exi_bind decode_appHand_AppProtocolType (\<lambda>p. decode_protocols [p]))
      (protocol_code p @ protocols_code ps) req"
    using reads_protocol [of p] assms(3) req by (intro reads_bind) simp_all
  then show ?thesis unfolding decode_appHand_supportedAppProtocolReq_def req
    by (simp add: reads_event appHand_AppProtocolType_5_ARRAY_SIZE_def)
qed

lemma reads_res:
  assumes "ResponseCode res < 4"
  shows "reads decode_appHand_supportedAppProtocolRes
    ((False # content_code (bits_msb 2 (ResponseCode res))) @
     (case res_SchemaID res of
        Some i \<Rightarrow> [False, False] @ content_code (bits_msb 8 (ucast i :: 32 word)) @ [False]
      | None \<Rightarrow> [False, True])) res"
proof -
  have code: "reads (decode_event (decode_simple_element (exi_basetypes_decoder_nbit_uint 2)))
      (False # content_code (bits_msb 2 (ResponseCode res))) (ResponseCode res)"
    using assms by (intro reads_event reads_content reads_nbit) simp_all
  show ?thesis
  proof (cases "res_SchemaID res")
    case None
    show ?thesis
      unfolding decode_appHand_supportedAppProtocolRes_def None option.case
      by (rule reads_bind [OF code], rule reads_nbit_bind [of 2 1 _ "[]"])
        (simp_all add: bits_msb_2 reads_return protocol_eta None)
  next
    case (Some i)
    have "reads (decode_simple_element
        (exi_bind (exi_basetypes_decoder_nbit_uint 8) (\<lambda>v. exi_return (ucast v))))
        (content_code (bits_msb 8 (ucast i :: 32 word))) i"
      by (rule reads_nbit_content [OF _ disjI1 [OF byte_bits_32(1)]]) (simp, rule byte_bits_32(2) [symmetric])
    moreover have "reads (decode_event (exi_return \<lparr>ResponseCode = ResponseCode res, res_SchemaID = Some i\<rparr>))
        [False] res"
      using Some by (intro reads_event) (simp add: reads_return protocol_eta)
    ultimately show ?thesis
      unfolding decode_appHand_supportedAppProtocolRes_def Some option.case
      by (intro reads_bind [OF code] reads_nbit_bind [of 2 0 _ "content_code (bits_msb 8 (ucast i :: 32 word)) @ [False]"])
        (simp_all add: bits_msb_2 reads_bind)
  qed
qed

lemma reads_document:
  assumes "valid_document d"
  shows "reads decode_appHand_exiDocument (document_code d) d"
proof (cases d)
  case (supportedAppProtocolReq_isUsed req)
  then have "reads decode_appHand_supportedAppProtocolReq
      ([False] @ protocol_code (hd req) @ protocols_code (tl req)) req"
    using assms by (intro reads_req) simp_all
  then show ?thesis
    unfolding decode_appHand_exiDocument_def supportedAppProtocolReq_isUsed document_code.simps
    by (intro reads_bind [OF reads_header] reads_nbit_bind [of 2 0 _ "_ @ _"])
      (auto simp: bits_msb_2 intro: reads_bind_return)
next
  case (supportedAppProtocolRes_isUsed res)
  then have "ResponseCode res < 4" using assms by simp
  from reads_res [OF this] show ?thesis
    unfolding decode_appHand_exiDocument_def supportedAppProtocolRes_isUsed document_code.simps
    by (intro reads_bind [OF reads_header] reads_nbit_bind [of 2 1 _ "_ @ _"])
      (auto simp: bits_msb_2 intro: reads_bind_return)
qed (use assms in simp)

interpretation exi_handshake:
  exi_codec encode_appHand_exiDocument decode_appHand_exiDocument document_code valid_document
  by unfold_locales (rule writes_document reads_document, assumption)+

subsection \<open>Untrusted data\<close>

lemma safely_event: "safely d P \<Longrightarrow> safely (decode_event d) P"
  unfolding decode_event_def by (intro safely_bind_True [OF safely_nbit_True]) (simp add: safely_fail)

lemma safely_namespace: "safely decode_namespace (\<lambda>v. length v < 100 \<and> (\<forall>c\<in>set v. c \<le> 127))"
proof -
  have "safely (exi_basetypes_decoder_characters n 100 100) (\<lambda>v. length v < 100 \<and> (\<forall>c\<in>set v. c \<le> 127))" for n
    by (rule safely_mono [OF safely_characters]) simp_all
  then show ?thesis
    unfolding decode_namespace_def exi_basetypes_decoder_uint_16_def appHand_ProtocolNamespace_CHARACTER_SIZE_def
    by (intro safely_bind_True [OF safely_uint]) (simp add: safely_fail)
qed

lemma priority_range:
  fixes v :: "32 word"
  assumes "v < 2 ^ 5"
  shows "1 \<le> (ucast (v + 1) :: 8 word)" "(ucast (v + 1) :: 8 word) \<le> 32"
proof -
  have v: "unat v < 32" using assms by (simp add: word_less_nat_alt)
  then have "unat (v + 1) = unat v + 1" by (simp add: unat_word_ariths)
  then have "unat (ucast (v + 1) :: 8 word) = unat v + 1" using v by (simp add: unat_small_ucast)
  then show "1 \<le> (ucast (v + 1) :: 8 word)" "(ucast (v + 1) :: 8 word) \<le> 32"
    using v by (simp_all add: word_le_nat_alt)
qed

lemma safely_protocol: "safely decode_appHand_AppProtocolType valid_protocol"
proof -
  have uint32: "safely (decode_event decode_exi_type_uint32) (\<lambda>v. True)"
    unfolding decode_exi_type_uint32_def exi_basetypes_decoder_uint_32_def
    by (intro safely_event safely_simple_element safely_uint)
  have schema: "safely (decode_event (decode_simple_element
      (exi_bind (exi_basetypes_decoder_nbit_uint 8) (\<lambda>v. exi_return (ucast v :: 8 word))))) (\<lambda>v. True)"
    by (intro safely_event safely_simple_element safely_bind_True [OF safely_nbit_True] safely_return TrueI)
  have priority: "safely (decode_event (decode_simple_element
      (exi_bind (exi_basetypes_decoder_nbit_uint 5) (\<lambda>v. exi_return (ucast (v + 1) :: 8 word)))))
      (\<lambda>v. 1 \<le> v \<and> v \<le> 32)"
    by (intro safely_event safely_simple_element safely_bind [OF safely_nbit] safely_return conjI priority_range)
      simp_all
  show ?thesis
    unfolding decode_appHand_AppProtocolType_def
    by (intro safely_bind [OF safely_event [OF safely_simple_element [OF safely_namespace]]]
        safely_bind_True [OF uint32] safely_bind_True [OF schema] safely_bind [OF priority] safely_event safely_return)
      (simp add: valid_protocol_def)
qed

definition valid_req :: "appHand_supportedAppProtocolReq \<Rightarrow> bool" where
  "valid_req req \<longleftrightarrow> req \<noteq> [] \<and> length req \<le> 5 \<and> (\<forall>p\<in>set req. valid_protocol p)"

lemma safely_protocols: "valid_req ps \<Longrightarrow> safely (decode_protocols ps) valid_req"
proof (induction ps rule: decode_protocols.induct)
  case (1 ps)
  have "valid_req (ps @ [p])" if "valid_protocol p" "length ps < 5" for p
    using that 1(2) by (simp add: valid_req_def)
  then have "safely (decode_protocols (ps @ [p])) valid_req" if "valid_protocol p" "length ps < 5" for p
    using that 1(1) [of 0 p] by (simp add: appHand_AppProtocolType_5_ARRAY_SIZE_def)
  then have "safely (exi_bind decode_appHand_AppProtocolType (\<lambda>p.
      if length ps + 1 < 20 then decode_protocols (ps @ [p]) else decode_event (exi_return (ps @ [p])))) valid_req"
    if "length ps < 5"
    using that by (intro safely_bind [OF safely_protocol]) simp
  then show ?case
    using 1(2)
    by (subst decode_protocols.simps, intro safely_bind_True [OF safely_nbit_True])
      (simp add: safely_fail safely_return appHand_AppProtocolType_5_ARRAY_SIZE_def)
qed

lemma safely_req: "safely decode_appHand_supportedAppProtocolReq valid_req"
  using safely_event [OF safely_bind [OF safely_protocol, of "\<lambda>p. decode_protocols [p]" valid_req]]
  by (simp add: decode_appHand_supportedAppProtocolReq_def appHand_AppProtocolType_5_ARRAY_SIZE_def
      safely_protocols valid_req_def)

lemma safely_res: "safely decode_appHand_supportedAppProtocolRes (\<lambda>res. ResponseCode res < 4)"
proof -
  have code: "safely (decode_event (decode_simple_element (exi_basetypes_decoder_nbit_uint 2))) (\<lambda>v. v < 4)"
    by (intro safely_event safely_simple_element safely_mono [OF safely_nbit]) simp
  have schema: "safely (decode_simple_element
      (exi_bind (exi_basetypes_decoder_nbit_uint 8) (\<lambda>v. exi_return (ucast v :: 8 word)))) (\<lambda>v. True)"
    by (intro safely_simple_element safely_bind_True [OF safely_nbit_True] safely_return TrueI)
  have "safely (exi_bind (decode_simple_element
      (exi_bind (exi_basetypes_decoder_nbit_uint 8) (\<lambda>v. exi_return (ucast v)))) (\<lambda>schema_id.
      decode_event (exi_return \<lparr>ResponseCode = c, res_SchemaID = Some schema_id\<rparr>))) (\<lambda>res. ResponseCode res < 4)"
    if "c < 4" for c
    using that by (intro safely_bind_True [OF schema] safely_event safely_return) simp
  then show ?thesis
    unfolding decode_appHand_supportedAppProtocolRes_def
    by (intro safely_bind [OF code] safely_bind_True [OF safely_nbit_True]) (simp add: safely_fail safely_return)
qed

lemma safely_document: "safely decode_appHand_exiDocument valid_document"
proof -
  have "safely (exi_bind decode_appHand_supportedAppProtocolReq
      (\<lambda>req. exi_return (supportedAppProtocolReq_isUsed req))) valid_document"
    by (intro safely_bind [OF safely_req] safely_return) (simp add: valid_req_def)
  moreover have "safely (exi_bind decode_appHand_supportedAppProtocolRes
      (\<lambda>res. exi_return (supportedAppProtocolRes_isUsed res))) valid_document"
    by (intro safely_bind [OF safely_res] safely_return) simp
  ultimately show ?thesis
    unfolding decode_appHand_exiDocument_def
    by (intro safely_bind_True [OF safely_header] safely_bind_True [OF safely_nbit_True]) (simp add: safely_fail)
qed

subsection \<open>Properties\<close>

text \<open>
  C14. Round trip of the handshake: every message with one to five protocols, each with fewer than 100
  ASCII characters and a priority from 1 to 32, and every response is encoded exactly if the data has
  room for its bits, and the decoder restores the message from these bits and stops at their end.
\<close>

theorem handshake_restored:
  assumes "valid_document d" "writable s"
  shows "restores encode_appHand_exiDocument decode_appHand_exiDocument s d \<and>
    fst (encode_appHand_exiDocument d s) =
      (if bit_pos s + length (document_code d) \<le> capacity s then Inr () else Inl BITSTREAM_OVERFLOW)"
  using exi_handshake.restored [OF assms] exi_handshake.enc_succeeds [OF assms] by (rule conjI)

text \<open>
  C13. The decoder of the handshake is safe for untrusted data: whatever bytes the vehicle sends, the
  decoder accesses neither the data nor an array that it writes to (the octets of an integer, the
  characters of a name with their terminator, the protocols) outside of its bounds, moves forward and
  not behind the end of the data, and changes nothing but the position; a message that it yields has one to five protocols, whose names fit
  with their terminator and whose priorities are in range, so that it can be encoded and decoded again
  without change.
\<close>

theorem handshake_decoder_safe:
  assumes "stream_wf s" "writable t"
  shows "advances s (snd (decode_appHand_exiDocument s)) \<and>
    (case fst (decode_appHand_exiDocument s) of
       Inl e \<Rightarrow> e \<noteq> Undefined_Behaviour
     | Inr d \<Rightarrow> valid_document d \<and> restores encode_appHand_exiDocument decode_appHand_exiDocument t d)"
  using safely_document assms exi_handshake.restored [OF _ assms(2)] unfolding safely_def
  by (auto split: sum.splits dest!: spec [of _ s])

subsection \<open>Witnesses\<close>

definition sample_protocol :: appHand_AppProtocolType where
  "sample_protocol = \<lparr>ProtocolNamespace = [105, 115, 111, 50], VersionNumberMajor = 300, VersionNumberMinor = 0,
     SchemaID = 7, Priority = 32\<rparr>"

definition sample_request :: appHand_exiDocument where
  "sample_request = supportedAppProtocolReq_isUsed [sample_protocol, sample_protocol\<lparr>Priority := 1\<rparr>]"

lemma sample_request_fits: "valid_document sample_request" "length (document_code sample_request) \<le> 320"
  by code_simp+

theorem handshake_restored_witness:
  "restores encode_appHand_exiDocument decode_appHand_exiDocument (sample_stream (replicate 40 0)) sample_request \<and>
   fst (encode_appHand_exiDocument sample_request (sample_stream (replicate 40 0))) = Inr ()"
proof -
  have "bit_pos (sample_stream (replicate 40 0)) = 0" "capacity (sample_stream (replicate 40 0)) = 320"
    by (simp_all add: sample_stream_def exi_bitstream_init_def bit_pos_def capacity_def)
  then show ?thesis
    using handshake_restored [OF sample_request_fits(1) sample_stream_writable, of "replicate 40 0"]
      sample_request_fits(2) by simp
qed

theorem handshake_decoder_safe_witness:
  "advances (sample_stream [0x80, 0x12]) (snd (decode_appHand_exiDocument (sample_stream [0x80, 0x12])))"
  using handshake_decoder_safe [OF writable_wf [OF sample_stream_writable] sample_stream_writable] by blast

end
