(* ===== verification/Exi_Conversions.thy ===== *)
theory Exi_Conversions
  imports Exi_Integers
begin

text \<open>
  The conversions between integers and the bytes that the interface of the codec uses for integers of
  any size: converting an integer of 32 or 64 bits, signed or unsigned, to bytes and back gives the
  integer; the bytes have no leading zero.
\<close>

definition bytes_word :: "exi_unsigned \<Rightarrow> 64 word" where
  "bytes_word octets = foldl (\<lambda>magnitude b. push_bit 8 magnitude OR ucast b) 0 octets"

lemma fill_bytes_append: "fill_bytes n v octets = fill_bytes n v [] @ octets"
proof (induction n arbitrary: v octets)
  case (Suc n)
  show ?case
    by (simp only: fill_bytes.simps) (subst Suc.IH, subst (2) Suc.IH, simp)
qed simp

lemma length_fill_bytes: "length (fill_bytes n v octets) = n + length octets"
  by (induction n arbitrary: v octets) simp_all

lemma count_bytes_Suc: "count_bytes v (Suc c) = Suc (count_bytes v c)"
proof (induction v c rule: count_bytes.induct)
  case (1 v c)
  show ?case using 1 by (subst (1 2) count_bytes.simps) simp
qed

lemma join_byte: "push_bit 8 (drop_bit 8 v) OR ucast (ucast v :: 8 word) = v" for v :: "64 word"
  by (rule bit_eqI) (auto simp: bit_simps)

lemma write_magnitude_step:
  "v \<noteq> 0 \<Longrightarrow> exi_basetypes_write_magnitude v = exi_basetypes_write_magnitude (drop_bit 8 v) @ [ucast v]"
  unfolding exi_basetypes_write_magnitude_def
  by (subst count_bytes.simps) (simp add: count_bytes_Suc fill_bytes_append [of _ _ "[ucast v]"] del: fill_bytes.simps(2),
    simp add: fill_bytes_append [of _ _ "[ucast v]"])

lemma write_magnitude_0 [simp]: "exi_basetypes_write_magnitude 0 = []"
  by (simp add: exi_basetypes_write_magnitude_def count_bytes.simps)

lemma bytes_word_snoc: "bytes_word (octets @ [b]) = push_bit 8 (bytes_word octets) OR ucast b"
  by (simp add: bytes_word_def)

lemma magnitude_bytes:
  "bytes_word (exi_basetypes_write_magnitude v) = v \<and>
   (v \<noteq> 0 \<longrightarrow> hd (exi_basetypes_write_magnitude v) \<noteq> 0) \<and>
   (\<forall>n. unat v < 256 ^ n \<longrightarrow> length (exi_basetypes_write_magnitude v) \<le> n)"
proof (induction v rule: measure_induct_rule [of unat])
  case (less v)
  show ?case
  proof (cases "v = 0")
    case False
    let ?d = "drop_bit 8 v"
    have IH: "bytes_word (exi_basetypes_write_magnitude ?d) = ?d"
      "?d \<noteq> 0 \<Longrightarrow> hd (exi_basetypes_write_magnitude ?d) \<noteq> 0"
      "unat ?d < 256 ^ n \<Longrightarrow> length (exi_basetypes_write_magnitude ?d) \<le> n" for n
      using less [of ?d] drop_bit_less [OF False, of 8] by auto
    note step = write_magnitude_step [OF False]
    have "bytes_word (exi_basetypes_write_magnitude v) = v"
      unfolding step bytes_word_snoc IH(1) by (rule join_byte)
    moreover have "hd (exi_basetypes_write_magnitude v) \<noteq> 0"
    proof (cases "?d = 0")
      case True
      have "(ucast v :: 8 word) \<noteq> 0" using join_byte [of v] True False by auto
      then show ?thesis unfolding step True by simp
    next
      case False
      then have "exi_basetypes_write_magnitude ?d \<noteq> []" using write_magnitude_step [of ?d] by simp
      then show ?thesis using IH(2) [OF False] unfolding step by simp
    qed
    moreover have "length (exi_basetypes_write_magnitude v) \<le> n" if lt: "unat v < 256 ^ n" for n
    proof -
      obtain m where m: "n = Suc m" using lt False by (cases n) (auto simp: unat_eq_0)
      have "unat ?d = unat v div 256" unfolding unat_drop_bit_eq by (simp only: drop_bit_eq_div) simp
      then have "unat ?d < 256 ^ m" using lt by (simp add: m less_mult_imp_div_less mult.commute)
      then show ?thesis using IH(3) [of m] by (simp add: step m)
    qed
    ultimately show ?thesis by blast
  qed (simp add: bytes_word_def)
qed

lemma significant_bytes: "significant (exi_basetypes_write_magnitude v) = exi_basetypes_write_magnitude v"
proof (cases "exi_basetypes_write_magnitude v")
  case (Cons b octets)
  then have "b \<noteq> 0" using magnitude_bytes [of v] by (cases "v = 0") simp_all
  with Cons show ?thesis by (simp add: significant_def)
qed (simp add: significant_def)

lemma read_write_magnitude:
  "length (exi_basetypes_write_magnitude v) \<le> 8"
  "exi_basetypes_read_magnitude (exi_basetypes_write_magnitude v) = v"
proof -
  have "unat v < 256 ^ 8" using unsigned_less [of v, where 'a = nat] by simp
  then show l: "length (exi_basetypes_write_magnitude v) \<le> 8" using magnitude_bytes [of v] by blast
  then show "exi_basetypes_read_magnitude (exi_basetypes_write_magnitude v) = v"
    using magnitude_bytes [of v]
    by (simp add: exi_basetypes_read_magnitude_def significant_bytes bytes_word_def)
qed

lemma magnitude_of_correct:
  fixes v :: "'a::len word"
  assumes "LENGTH('a) \<le> 64"
  shows "unat (magnitude_of v) < 2 ^ (LENGTH('a) - 1)"
    "(if sint v < 0 then - 1 - ucast (magnitude_of v) else ucast (magnitude_of v)) = v"
proof -
  define k where "k = (if sint v < 0 then - (sint v + 1) else sint v)"
  have m: "magnitude_of v = word_of_int k" by (simp add: magnitude_of_def k_def)
  have r: "0 \<le> k" "k < 2 ^ (LENGTH('a) - 1)" using sint_ge [of v] sint_lt [of v] by (auto simp: k_def)
  have "(2::int) ^ (LENGTH('a) - 1) \<le> 2 ^ 64" using assms by (intro power_increasing) simp_all
  then have "take_bit 64 k = k" using r by (intro take_bit_int_eq_self) linarith+
  then have u: "uint (magnitude_of v) = k" using r(1) by (simp add: m unsigned_of_int)
  then have "int (unat (magnitude_of v)) < int (2 ^ (LENGTH('a) - 1))" using r by simp
  then show "unat (magnitude_of v) < 2 ^ (LENGTH('a) - 1)" by (simp only: of_nat_less_iff)
  have c: "(ucast (magnitude_of v) :: 'a word) = word_of_int k" using u by (metis of_int_uint)
  show "(if sint v < 0 then - 1 - ucast (magnitude_of v) else ucast (magnitude_of v)) = v"
    unfolding c by (simp add: k_def)
qed

lemma conversion_unsigned_restored:
  "exi_basetypes_convert_64_to_unsigned w = Inr octets \<Longrightarrow> exi_basetypes_convert_64_from_unsigned octets = Inr w"
  "exi_basetypes_convert_to_unsigned v max_octets = Inr octets \<Longrightarrow>
   exi_basetypes_convert_from_unsigned octets max_octets = Inr v"
proof -
  have r: "exi_basetypes_convert_64_from_unsigned (exi_basetypes_write_magnitude w) = Inr w" for w
    using read_write_magnitude [of w] by (simp add: exi_basetypes_convert_64_from_unsigned_def significant_bytes)
  then show "exi_basetypes_convert_64_from_unsigned octets = Inr w"
    if "exi_basetypes_convert_64_to_unsigned w = Inr octets"
    using that by (auto simp: exi_basetypes_convert_64_to_unsigned_def)
  have "LENGTH(32) \<le> 64" by simp
  note u = ucast_up_down [OF this, of v]
  have "unat v < 2 ^ 32" using unsigned_less [of v, where 'a = nat] by simp
  then have "\<not> (ucast v :: 64 word) > 0xFFFFFFFF" using u(1) by (simp add: word_less_nat_alt)
  moreover note u(2)
  ultimately show "exi_basetypes_convert_from_unsigned octets max_octets = Inr v"
    if "exi_basetypes_convert_to_unsigned v max_octets = Inr octets"
    using that r [of "ucast v"]
    by (auto simp: exi_basetypes_convert_to_unsigned_def exi_basetypes_convert_from_unsigned_def split: if_splits)
qed

lemma conversion_signed_restored:
  "exi_basetypes_convert_64_to_signed w = Inr b \<Longrightarrow> exi_basetypes_convert_64_from_signed b = Inr w"
  "exi_basetypes_convert_to_signed v max_octets = Inr b \<Longrightarrow> exi_basetypes_convert_from_signed b max_octets = Inr v"
proof -
  have "LENGTH(64) \<le> 64" by simp
  note w = magnitude_of_correct [OF this, of w]
  have "\<not> magnitude_of w > 0x7FFFFFFFFFFFFFFF" using w(1) by (simp add: word_less_nat_alt)
  moreover have "(if sint w < 0 then - 1 - magnitude_of w else magnitude_of w) = w" using w(2) by (simp only: ucast_id)
  ultimately show "exi_basetypes_convert_64_from_signed b = Inr w" if "exi_basetypes_convert_64_to_signed w = Inr b"
    using that by (auto simp: exi_basetypes_convert_64_to_signed_def exi_basetypes_convert_64_from_signed_def
        Let_def read_write_magnitude)
  have "\<not> magnitude_of v > 0x7FFFFFFF" using magnitude_of_correct(1) [of v] by (simp add: word_less_nat_alt)
  then show "exi_basetypes_convert_from_signed b max_octets = Inr v"
    if "exi_basetypes_convert_to_signed v max_octets = Inr b"
    using that magnitude_of_correct(2) [of v]
    by (auto simp: exi_basetypes_convert_to_signed_def exi_basetypes_convert_from_signed_def
        Let_def read_write_magnitude split: if_splits)
qed

end
