(* ===== verification/V2gtp_Header.thy ===== *)
theory V2gtp_Header
  imports Prelude "HOL-Library.Word"
begin

text \<open>
  The header in front of every message of the vehicle, after \<^verbatim>\<open>cbv2g/exi_v2gtp.c\<close>: two bytes for the
  version, two for the kind of the payload and four for its length. Writing to or reading from an array
  of fewer than eight bytes is the error \<open>Header_out_of_bounds\<close>.
\<close>

unbundle bit_operations_syntax

datatype v2gtp_error = VERSION_DOES_NOT_MATCH | PAYLOAD_ID_DOES_NOT_MATCH | Header_out_of_bounds

definition V2GTP_HEADER_LENGTH :: nat where "V2GTP_HEADER_LENGTH = 8"
definition V2GTP_VERSION :: "8 word" where "V2GTP_VERSION = 0x01"
definition V2GTP_VERSION_NOT :: "8 word" where "V2GTP_VERSION_NOT = 0xFE"
definition V2GTP20_SAP_PAYLOAD_ID :: "16 word" where "V2GTP20_SAP_PAYLOAD_ID = 0x8001"

definition V2GTP20_WriteHeader :: "8 word list \<Rightarrow> 32 word \<Rightarrow> 16 word \<Rightarrow> v2gtp_error + 8 word list" where
  "V2GTP20_WriteHeader stream_data stream_payload_length v2gtp20_payload_id =
     (if length stream_data < V2GTP_HEADER_LENGTH then Inl Header_out_of_bounds
      else Inr (stream_data
        [0 := V2GTP_VERSION, 1 := V2GTP_VERSION_NOT,
         2 := ucast (drop_bit 8 v2gtp20_payload_id AND 0xFF), 3 := ucast (v2gtp20_payload_id AND 0xFF),
         4 := ucast (drop_bit 24 stream_payload_length AND 0xFF),
         5 := ucast (drop_bit 16 stream_payload_length AND 0xFF),
         6 := ucast (drop_bit 8 stream_payload_length AND 0xFF),
         7 := ucast (stream_payload_length AND 0xFF)]))"

definition V2GTP_WriteHeader :: "8 word list \<Rightarrow> 32 word \<Rightarrow> v2gtp_error + 8 word list" where
  "V2GTP_WriteHeader stream_data stream_payload_length =
     V2GTP20_WriteHeader stream_data stream_payload_length V2GTP20_SAP_PAYLOAD_ID"

definition V2GTP20_ReadHeader :: "8 word list \<Rightarrow> 16 word \<Rightarrow> v2gtp_error + 32 word" where
  "V2GTP20_ReadHeader stream_data v2gtp20_payload_id =
     (if length stream_data < V2GTP_HEADER_LENGTH then Inl Header_out_of_bounds
      else if stream_data ! 0 \<noteq> V2GTP_VERSION \<or> stream_data ! 1 \<noteq> V2GTP_VERSION_NOT
      then Inl VERSION_DOES_NOT_MATCH
      else
        let payload_id = push_bit 8 (ucast (stream_data ! 2)) OR ucast (stream_data ! 3)
        in if payload_id \<noteq> v2gtp20_payload_id then Inl PAYLOAD_ID_DOES_NOT_MATCH
           else Inr (push_bit 24 (ucast (stream_data ! 4)) OR push_bit 16 (ucast (stream_data ! 5)) OR
                     push_bit 8 (ucast (stream_data ! 6)) OR ucast (stream_data ! 7)))"

definition V2GTP_ReadHeader :: "8 word list \<Rightarrow> v2gtp_error + 32 word" where
  "V2GTP_ReadHeader stream_data = V2GTP20_ReadHeader stream_data V2GTP20_SAP_PAYLOAD_ID"

text \<open>The bytes of a word, the highest first, give the word.\<close>

lemma mask_8: "(0xFF :: 16 word) = mask 8" "(0xFF :: 32 word) = mask 8"
  by (simp_all add: mask_eq_exp_minus_1)

lemma join_16:
  "push_bit 8 (ucast (ucast (drop_bit 8 v AND 0xFF) :: 8 word)) OR ucast (ucast (v AND 0xFF) :: 8 word) = v"
  for v :: "16 word"
  unfolding mask_8 by (rule bit_eqI) (auto simp: bit_simps)

lemma join_32:
  "push_bit 24 (ucast (ucast (drop_bit 24 v AND 0xFF) :: 8 word)) OR
   push_bit 16 (ucast (ucast (drop_bit 16 v AND 0xFF) :: 8 word)) OR
   push_bit 8 (ucast (ucast (drop_bit 8 v AND 0xFF) :: 8 word)) OR
   ucast (ucast (v AND 0xFF) :: 8 word) = v" (is "?joined = v")
  for v :: "32 word"
proof (rule bit_eqI)
  fix n :: nat
  consider "n < 8" | "8 \<le> n" "n < 16" | "16 \<le> n" "n < 24" | "24 \<le> n" by linarith
  then show "bit ?joined n = bit v n"
    unfolding mask_8 by cases (auto simp: bit_simps dest: bit_imp_le_length)
qed

text \<open>
  A header that was written is read with its length, and it is refused for any other kind of payload;
  the bytes behind the header stay as they are.
\<close>

lemma header_restored:
  assumes "8 \<le> length d"
  shows "\<exists>d'. V2GTP20_WriteHeader d len payload_id = Inr d' \<and>
    V2GTP20_ReadHeader d' other =
      (if other = payload_id then Inr len else Inl PAYLOAD_ID_DOES_NOT_MATCH) \<and>
    length d' = length d \<and> drop 8 d' = drop 8 d"
proof -
  have "d \<noteq> []" using assms by auto
  with assms show ?thesis
    by (simp add: V2GTP20_WriteHeader_def V2GTP20_ReadHeader_def V2GTP_HEADER_LENGTH_def Let_def
        join_16 join_32)
qed

end
