(* ===== verification/Spec2Isabelle.thy ===== *)
theory Spec2Isabelle
  imports Prelude IEC_Safety Reservation_Recovery Auth_Properties Charge_Point_Status
    Message_Queue_V16 App_Handshake_Properties Exi_Conversions V2gtp_Header
begin

text \<open>
  \<^bold>\<open>A verification of the charging station software EVerest.\<close>

  EVerest runs a charging station. A module per EVSE drives the power electronics after the state of the
  control pilot; a module decides which driver may charge where and holds reservations; a library talks
  OCPP to the backend; a library encodes and decodes the messages of ISO 15118 that vehicle and station
  exchange. The development models from each of these the part whose failure matters: who may switch
  power on, who may charge, what the backend is told, and what bytes from a vehicle can do.

  \<^bold>\<open>Conventions.\<close> A class is a record, an enumeration a datatype, a method a function on the record with
  the guards and early returns of the source. Calls to other components are kept in lists inside the
  record, so that theorems can speak about them and their order. Exceptions and error codes are the left
  side of a sum. Code outside the repository is a parameter: a function argument or a field of an
  environment record, with what is required of it as a hypothesis of the theorem. Words have the width of
  the source where it matters; elsewhere numbers are unbounded. The definitions are executable, and each
  property with hypotheses has an instance that evaluates them.

  \<^bold>\<open>Shared theory.\<close>
  \<^item> \<^verbatim>\<open>Prelude\<close>: reactive machines, reachability, the locales \<open>machine_invariant\<close> (an invariant of a step
    function holds in every reachable state) and \<open>machine_simulation\<close> (a step function implements
    another one), and \<open>ordered_map\<close> for \<^verbatim>\<open>std::map\<close>. Every locale is interpreted on the model.

  \<^bold>\<open>Control pilot\<close> (\<^verbatim>\<open>modules/EVSE/EvseManager/IECStateMachine.cpp\<close>, \<^verbatim>\<open>Timeout.hpp\<close>).
  \<^item> \<^verbatim>\<open>IEC_State_Machine\<close>: the class with every entry point. The source locks a mutex around parts of the
    entry points; each locked part is an atomic section, and the machine performs the sections in every
    order, so that all interleavings of the threads are covered.
  \<^item> \<^verbatim>\<open>IEC_Safety\<close>: closed relais imply a locked connector, a latched captive cable stays locked, the
    driver is permitted to switch on only in state C or D and only with the permission of the session,
    which the timer withdraws when the vehicle keeps drawing current.

  \<^bold>\<open>Authorization and reservations\<close> (\<^verbatim>\<open>modules/EVSE/Auth/lib\<close>).
  \<^item> \<^verbatim>\<open>Auth_Types\<close>, \<^verbatim>\<open>Connector\<close>: the messages of the module, the state machine of a connector, which
    refines three independent facts, and the context of an EVSE.
  \<^item> \<^verbatim>\<open>Permutation_Order\<close>, \<^verbatim>\<open>Reservation\<close>: the enumeration of arrival orders with
    \<^verbatim>\<open>std::next_permutation\<close> and the reservation handler.
  \<^item> \<^verbatim>\<open>Reservation_Feasible\<close>: the simulation of the handler decides exactly whether every reserved car
    finds a place wherever the others have parked. The simulation places the global reservations; the
    reservations for an EVSE it only counts, so that theorems which speak of these, too, use
    \<open>reserved_evses_serve\<close>.
  \<^item> \<^verbatim>\<open>Reservation_Safety\<close>, \<^verbatim>\<open>Reservation_Properties\<close>, \<^verbatim>\<open>Reservation_Recovery\<close>: ids, timers and the store
    agree over every sequence of operations, operations keep feasibility, an accepted reservation is in
    force and can be served, charging without a reservation harms none, failures of connectors and
    restarts are recovered from. The store holds the reservations themselves; what the generated
    conversions to JSON and back make of them is an argument of the loading functions.
  \<^item> \<^verbatim>\<open>Auth_Handler\<close>: the authorization handler with the points where it waits, or holds no mutex between two
    sections, and other threads run.
  \<^item> \<^verbatim>\<open>Auth_Invariant\<close>, \<^verbatim>\<open>Auth_Safety\<close>, \<^verbatim>\<open>Auth_Properties\<close>: it keeps the invariant of the reservations
    whatever the other threads do under the locale \<open>other_threads\<close>; one token starts at most one EVSE,
    respects reservations, stops its own transaction; the master pass starts nothing.

  \<^bold>\<open>OCPP\<close> (\<^verbatim>\<open>lib/everest/ocpp\<close>, \<^verbatim>\<open>lib/everest/util\<close>).
  \<^item> \<^verbatim>\<open>Ocpp_String\<close>, \<^verbatim>\<open>Ocpp_Json\<close>, \<^verbatim>\<open>Ocpp_Message_Types\<close>: limited strings, JSON values, message names.
  \<^item> \<^verbatim>\<open>Json_Nesting\<close>: the check of the nesting depth agrees with the depth of the value for every text of
    the JSON grammar.
  \<^item> \<^verbatim>\<open>Charge_Point_FSM\<close>, \<^verbatim>\<open>Charge_Point_Status\<close>: the status machines of the connectors; the status last
    reported is the current one, and no operation fails once the machines are set up.
  \<^item> \<^verbatim>\<open>Message_Queue\<close>: the queue of \<^verbatim>\<open>ocpp/common/message_queue.hpp\<close> with its worker thread, its timers
    and its database tables, whose rows are read back in an arbitrary order. \<^verbatim>\<open>Message_Queue_Limits\<close>: what is dropped when it is full.
    \<^verbatim>\<open>Message_Queue_Spec\<close>, \<^verbatim>\<open>Message_Queue_Refinement\<close>: an abstract queue and the proof that every step
    of the class is a sequence of its steps. \<^verbatim>\<open>Message_Queue_Safety\<close>: transaction messages keep their
    order, promises are set once, retries end, one message is in flight. \<^verbatim>\<open>Message_Queue_V16\<close>: the
    instance for OCPP 1.6.

  \<^bold>\<open>Messages of the vehicle\<close> (\<^verbatim>\<open>lib/everest/cbv2g\<close>).
  \<^item> \<^verbatim>\<open>Exi_Bitstream\<close>, \<^verbatim>\<open>Exi_Base_Types\<close>: the bit stream and the base types of EXI as functions from the
    stream to an error or a value and the stream. An access outside the data or outside an array that
    is written to is an error of its own.
  \<^item> \<^verbatim>\<open>Exi_Stream_Laws\<close>: the stream as a sequence of bits, rules for what a composed function writes and
    reads, the locale \<open>exi_codec\<close> of an encoder and a decoder that are inverse, and rules for decoders on
    arbitrary data. \<^verbatim>\<open>Exi_Integers\<close>, \<^verbatim>\<open>Exi_Conversions\<close>, \<^verbatim>\<open>Exi_Decoder_Safety\<close>: integers are decoded
    exactly or refused, every width is restored, the conversions to bytes are inverse, and no decoder
    leaves its array.
  \<^item> \<^verbatim>\<open>App_Handshake\<close>, \<^verbatim>\<open>App_Handshake_Properties\<close>: the messages by which vehicle and station agree on a
    protocol are restored, and arbitrary bytes lead to a valid message or an error.
  \<^item> \<^verbatim>\<open>V2gtp_Header\<close>: the header in front of each message.

  \<^bold>\<open>Loops and bounds.\<close> Loops of the source are structural recursions or functions with a termination proof;
  there is no fuel that could run out. The loop over the octets of an integer has the bound of the source
  (29 when reading, 10 when writing, which holds 64 bits), the loop over the protocols of a handshake ends
  at the size of the array. Retries of messages end while the configured number of attempts is bounded,
  which is stated as a hypothesis, since the number can be changed at any time.

  \<^bold>\<open>Not modelled.\<close> The session logic of the EVSE manager, the energy manager and the smart charging of OCPP
  compute with floating point measurements and wall clock time. SLAC, the ISO 15118 sessions, the servers
  for vehicles, the framework, TLS and the drivers are mostly calls of sockets, devices and third party
  libraries. The codecs of DIN and ISO 15118 are generated code of the form of the handshake codec. The
  behaviour of the OCPP charge points around queue and status machines rests on a database and on
  generated message classes. Within the modelled parts, logging and the conversion of states to text are
  left out; a timer callback that is queued while its timer is replaced is not modelled; what an EXI
  function leaves in its out parameters behind an error is not modelled.
\<close>

end
